(* ===== verification/Prelude.thy ===== *)
theory Prelude
  imports Main "HOL-Library.Word" "HOL-Library.Sublist" "HOL-Library.AList"
    "HOL-Library.List_Lexorder" "HOL-Library.Char_ord"
begin

text \<open>
  Shared vocabulary of the development: Rust's \<open>Result\<close> as a sum type, the string
  operations of the Rust standard library that the sources use, number parsing, and the
  byte tests on ASCII characters.

  A Rust \<open>&str\<close> or \<open>String\<close> is its UTF-8 byte sequence, here a \<^typ>\<open>string\<close> whose
  characters are bytes: \<open>length\<close> is Rust's \<open>len()\<close>. Every separator and every test that
  the sources apply to a string concerns ASCII characters, which UTF-8 never uses inside the
  encoding of another character, so working on bytes is exact.
\<close>

named_theorems result_simps "inversion rules for Result-valued code"
named_theorems byte_defs "definitions of the byte tests of the standard library"
named_theorems eval_simps "definitions to unfold when a closed term is evaluated"

type_synonym u8 = "8 word"
type_synonym u16 = "16 word"
type_synonym u32 = "32 word"
type_synonym u64 = "64 word"

subsection \<open>Results\<close>

text \<open>\<open>Inl\<close> is Rust's \<open>Err\<close>, \<open>Inr\<close> is \<open>Ok\<close>; \<open>and_then\<close> is the \<open>?\<close> operator.\<close>

fun and_then :: "'e + 'a \<Rightarrow> ('a \<Rightarrow> 'e + 'b) \<Rightarrow> 'e + 'b" where
  "and_then (Inl e) f = Inl e"
| "and_then (Inr x) f = f x"

fun map_err :: "('e \<Rightarrow> 'f) \<Rightarrow> 'e + 'a \<Rightarrow> 'f + 'a" where
  "map_err g (Inl e) = Inl (g e)"
| "map_err g (Inr x) = Inr x"

fun ok_or :: "'e \<Rightarrow> 'a option \<Rightarrow> 'e + 'a" where
  "ok_or e None = Inl e"
| "ok_or e (Some x) = Inr x"

text \<open>\<open>ensure b e\<close> is an early return: \<open>if !b { return Err(e) }\<close>.\<close>

definition ensure :: "bool \<Rightarrow> 'e \<Rightarrow> 'e + unit" where
  "ensure b e = (if b then Inr () else Inl e)"

fun is_ok :: "'e + 'a \<Rightarrow> bool" where
  "is_ok (Inl e) = False"
| "is_ok (Inr x) = True"

text \<open>A loop over a vector that stops at the first error and collects the results.\<close>

fun traverse :: "('a \<Rightarrow> 'e + 'b) \<Rightarrow> 'a list \<Rightarrow> 'e + 'b list" where
  "traverse f [] = Inr []"
| "traverse f (x # xs) =
     and_then (f x) (\<lambda>y. and_then (traverse f xs) (\<lambda>ys. Inr (y # ys)))"

text \<open>The same for an option: Rust's \<open>Option::map(..).transpose()\<close>.\<close>

fun transpose_opt :: "('a \<Rightarrow> 'e + 'b) \<Rightarrow> 'a option \<Rightarrow> 'e + 'b option" where
  "transpose_opt f None = Inr None"
| "transpose_opt f (Some x) = and_then (f x) (\<lambda>y. Inr (Some y))"

lemma and_then_Inr_iff [result_simps]:
  "and_then r f = Inr y \<longleftrightarrow> (\<exists>x. r = Inr x \<and> f x = Inr y)"
  by (cases r) auto

lemma map_err_Inr_iff [result_simps]: "map_err g r = Inr y \<longleftrightarrow> r = Inr y"
  by (cases r) auto

lemma ok_or_Inr_iff [result_simps]: "ok_or e r = Inr y \<longleftrightarrow> r = Some y"
  by (cases r) auto

lemma and_then_Inl_iff:
  "and_then r f = Inl e \<longleftrightarrow> r = Inl e \<or> (\<exists>x. r = Inr x \<and> f x = Inl e)"
  by (cases r) auto

lemma map_err_Inl_iff: "map_err g r = Inl e \<longleftrightarrow> (\<exists>d. r = Inl d \<and> e = g d)"
  by (cases r) auto

lemma ok_or_Inl_iff: "ok_or e r = Inl d \<longleftrightarrow> r = None \<and> d = e"
  by (cases r) auto

lemmas Inl_simps = and_then_Inl_iff map_err_Inl_iff ok_or_Inl_iff

lemma ensure_Inr_iff [result_simps]: "ensure b e = Inr u \<longleftrightarrow> b"
  by (simp add: ensure_def)

lemma ensure_simps [simp]: "ensure True e = Inr ()" "ensure False e = Inl e"
  by (simp_all add: ensure_def)

lemma transpose_opt_Inr_iff [result_simps]:
  "transpose_opt f x = Inr y \<longleftrightarrow>
     (case x of None \<Rightarrow> y = None | Some a \<Rightarrow> (\<exists>b. f a = Inr b \<and> y = Some b))"
  by (cases x) (auto simp: result_simps)

lemma is_ok_iff: "is_ok r \<longleftrightarrow> (\<exists>x. r = Inr x)"
  by (cases r) auto

subsection \<open>Bytes\<close>

definition byte :: "char \<Rightarrow> nat" where
  "byte c = of_char c"

lemma byte_less [simp]: "byte c < 256"
  by (simp add: byte_def)

lemma byte_eq_iff: "c = d \<longleftrightarrow> byte c = byte d"
  by (simp add: byte_def)

lemma byte_char_of [simp]: "byte (char_of n) = n mod 256"
  by (simp add: byte_def)

lemma char_of_byte [simp]: "char_of (byte c) = c"
  by (simp add: byte_def)

definition is_ascii :: "char \<Rightarrow> bool" where
  [byte_defs]: "is_ascii c \<longleftrightarrow> byte c < 128"

definition is_ascii_digit :: "char \<Rightarrow> bool" where
  [byte_defs]: "is_ascii_digit c \<longleftrightarrow> 48 \<le> byte c \<and> byte c \<le> 57"

definition is_ascii_uppercase :: "char \<Rightarrow> bool" where
  [byte_defs]: "is_ascii_uppercase c \<longleftrightarrow> 65 \<le> byte c \<and> byte c \<le> 90"

definition is_ascii_lowercase :: "char \<Rightarrow> bool" where
  [byte_defs]: "is_ascii_lowercase c \<longleftrightarrow> 97 \<le> byte c \<and> byte c \<le> 122"

definition is_ascii_alphanumeric :: "char \<Rightarrow> bool" where
  [byte_defs]: "is_ascii_alphanumeric c \<longleftrightarrow>
     is_ascii_digit c \<or> is_ascii_uppercase c \<or> is_ascii_lowercase c"

definition is_ascii_control :: "char \<Rightarrow> bool" where
  [byte_defs]: "is_ascii_control c \<longleftrightarrow> byte c < 32 \<or> byte c = 127"

definition to_lower :: "char \<Rightarrow> char" where
  [byte_defs]: "to_lower c = (if is_ascii_uppercase c then char_of (byte c + 32) else c)"

definition to_upper :: "char \<Rightarrow> char" where
  [byte_defs]: "to_upper c = (if is_ascii_lowercase c then char_of (byte c - 32) else c)"

definition to_ascii_lowercase :: "string \<Rightarrow> string" where
  "to_ascii_lowercase s = map to_lower s"

definition eq_ignore_ascii_case :: "string \<Rightarrow> string \<Rightarrow> bool" where
  "eq_ignore_ascii_case s t \<longleftrightarrow> to_ascii_lowercase s = to_ascii_lowercase t"

lemmas [eval_simps] = Let_def byte_defs byte_def to_ascii_lowercase_def eq_ignore_ascii_case_def

lemma to_lower_idem [simp]: "to_lower (to_lower c) = to_lower c"
  by (auto simp: byte_defs)

lemma to_lower_id: "\<not> is_ascii_uppercase c \<Longrightarrow> to_lower c = c"
  by (simp add: to_lower_def)

lemma not_upper_to_lower [simp]: "\<not> is_ascii_uppercase (to_lower c)"
  by (auto simp: byte_defs)

lemma to_ascii_lowercase_idem [simp]:
  "to_ascii_lowercase (to_ascii_lowercase s) = to_ascii_lowercase s"
  by (simp add: to_ascii_lowercase_def)

lemma length_to_ascii_lowercase [simp]: "length (to_ascii_lowercase s) = length s"
  by (simp add: to_ascii_lowercase_def)

lemma to_ascii_lowercase_Nil_iff [simp]: "to_ascii_lowercase s = [] \<longleftrightarrow> s = []"
  by (simp add: to_ascii_lowercase_def)

lemma to_ascii_lowercase_id:
  "(\<And>c. c \<in> set s \<Longrightarrow> \<not> is_ascii_uppercase c) \<Longrightarrow> to_ascii_lowercase s = s"
  by (simp add: to_ascii_lowercase_def to_lower_id map_idI)

lemma to_lower_eq_nonletter:
  "\<not> is_ascii_lowercase d \<Longrightarrow> \<not> is_ascii_uppercase d \<Longrightarrow> to_lower c = d \<longleftrightarrow> c = d"
  by (auto simp: byte_defs byte_eq_iff split: if_splits)

subsection \<open>String operations\<close>

text \<open>\<open>str::split(char)\<close>: always at least one piece.\<close>

fun split_on :: "char \<Rightarrow> string \<Rightarrow> string list" where
  "split_on c [] = [[]]"
| "split_on c (x # xs) =
     (if x = c then [] # split_on c xs
      else (case split_on c xs of [] \<Rightarrow> [[x]] | y # ys \<Rightarrow> (x # y) # ys))"

text \<open>\<open>[..].join(sep)\<close> with a one-character separator.\<close>

fun join_with :: "char \<Rightarrow> string list \<Rightarrow> string" where
  "join_with c [] = []"
| "join_with c [x] = x"
| "join_with c (x # y # ys) = x @ c # join_with c (y # ys)"

text \<open>\<open>str::split_once(char)\<close>.\<close>

fun split_once :: "char \<Rightarrow> string \<Rightarrow> (string \<times> string) option" where
  "split_once c [] = None"
| "split_once c (x # xs) =
     (if x = c then Some ([], xs)
      else (case split_once c xs of None \<Rightarrow> None | Some (a, b) \<Rightarrow> Some (x # a, b)))"

text \<open>\<open>str::rsplit_once(char)\<close>.\<close>

definition rsplit_once :: "char \<Rightarrow> string \<Rightarrow> (string \<times> string) option" where
  "rsplit_once c s =
     (case split_once c (rev s) of None \<Rightarrow> None | Some (a, b) \<Rightarrow> Some (rev b, rev a))"

text \<open>\<open>str::strip_suffix\<close>; \<open>starts_with\<close> and \<open>ends_with\<close> are \<open>prefix\<close> and \<open>suffix\<close>.\<close>

definition strip_suffix :: "string \<Rightarrow> string \<Rightarrow> string option" where
  "strip_suffix suf s =
     (if suffix suf s then Some (take (length s - length suf) s) else None)"

text \<open>
  \<open>str::trim\<close> and \<open>str::split_ascii_whitespace\<close>. \<open>trim\<close> removes Unicode white space; on the
  ASCII strings it is applied to, that is the space and the control characters from tab to
  carriage return. The ASCII white space of the splitter leaves out the vertical tab.
\<close>

definition is_white :: "char \<Rightarrow> bool" where
  "is_white c \<longleftrightarrow> byte c = 32 \<or> 9 \<le> byte c \<and> byte c \<le> 13"

definition is_ascii_whitespace :: "char \<Rightarrow> bool" where
  "is_ascii_whitespace c \<longleftrightarrow> byte c \<in> {9, 10, 12, 13, 32}"

definition trim :: "string \<Rightarrow> string" where
  "trim s = rev (dropWhile is_white (rev (dropWhile is_white s)))"

fun words_from :: "string \<Rightarrow> string \<Rightarrow> string list" where
  "words_from w [] = (if w = [] then [] else [w])"
| "words_from w (c # s) =
     (if is_ascii_whitespace c then (if w = [] then words_from [] s else w # words_from [] s)
      else words_from (w @ [c]) s)"

definition split_ascii_whitespace :: "string \<Rightarrow> string list" where
  "split_ascii_whitespace s = words_from [] s"

lemma strip_suffix_Some_iff: "strip_suffix suf s = Some p \<longleftrightarrow> s = p @ suf"
  by (auto simp: strip_suffix_def suffix_def)

lemma strip_suffix_None_iff: "strip_suffix suf s = None \<longleftrightarrow> \<not> suffix suf s"
  by (simp add: strip_suffix_def)

lemma strip_suffix_append [simp]: "strip_suffix suf (p @ suf) = Some p"
  by (simp add: strip_suffix_Some_iff)

lemma split_on_nonempty [simp]: "split_on c s \<noteq> []"
  by (induction s) (auto split: list.splits)

lemma join_split [simp]: "join_with c (split_on c s) = s"
proof (induction s)
  case Nil
  then show ?case by simp
next
  case (Cons x xs)
  obtain y ys where "split_on c xs = y # ys"
    by (cases "split_on c xs") auto
  with Cons show ?case by (cases ys) auto
qed

lemma split_on_id: "c \<notin> set s \<Longrightarrow> split_on c s = [s]"
  by (induction s) auto

lemma split_on_append_sep: "c \<notin> set s \<Longrightarrow> split_on c (s @ c # t) = s # split_on c t"
  by (induction s) auto

lemma split_on_append: "split_on c (s @ c # t) = split_on c s @ split_on c t"
proof (induction s)
  case (Cons x s)
  moreover obtain y ys where "split_on c s = y # ys" by (cases "split_on c s") auto
  ultimately show ?case by simp
qed simp

lemma join_append:
  "ps \<noteq> [] \<Longrightarrow> qs \<noteq> [] \<Longrightarrow> join_with c (ps @ qs) = join_with c ps @ c # join_with c qs"
proof (induction c ps rule: join_with.induct)
  case (2 c x)
  then show ?case by (cases qs) auto
qed auto

text \<open>A string starts with \<open>s\<close> and a separator exactly when its pieces properly extend those of \<open>s\<close>.\<close>

lemma prefix_sep_iff:
  "prefix (s @ [c]) t \<longleftrightarrow> strict_prefix (split_on c s) (split_on c t)"
proof
  assume "prefix (s @ [c]) t"
  then obtain u where "t = s @ c # u" by (auto simp: prefix_def)
  then show "strict_prefix (split_on c s) (split_on c t)"
    by (auto simp: split_on_append strict_prefix_def prefix_def)
next
  assume "strict_prefix (split_on c s) (split_on c t)"
  then obtain z zs where "split_on c t = split_on c s @ z # zs"
    by (auto simp: strict_prefix_def prefix_def neq_Nil_conv)
  then have "t = s @ c # join_with c (z # zs)"
    using join_split [of c t] by (simp add: join_append)
  then show "prefix (s @ [c]) t" by (simp add: prefix_def)
qed

lemma set_join_with: "set (join_with c ps) \<subseteq> insert c (\<Union> (set ` set ps))"
  by (induction c ps rule: join_with.induct) auto

lemma split_once_append [simp]: "c \<notin> set a \<Longrightarrow> split_once c (a @ c # b) = Some (a, b)"
  by (induction a) auto

lemma split_once_SomeD: "split_once c s = Some (a, b) \<Longrightarrow> s = a @ c # b \<and> c \<notin> set a"
  by (induction s arbitrary: a) (auto split: option.splits if_splits)

lemma split_once_Some: "split_once c s = Some (a, b) \<longleftrightarrow> s = a @ c # b \<and> c \<notin> set a"
  by (auto dest: split_once_SomeD)

lemma split_once_None: "split_once c s = None \<longleftrightarrow> c \<notin> set s"
  by (induction s) (auto split: option.splits)

subsection \<open>Unsigned decimal parsing\<close>

definition digit_value :: "char \<Rightarrow> nat" where
  "digit_value c = byte c - 48"

definition nat_of_digits :: "string \<Rightarrow> nat" where
  "nat_of_digits s = foldl (\<lambda>n c. 10 * n + digit_value c) 0 s"

text \<open>
  \<open>str::parse::<u16>\<close>: an optional \<open>+\<close>, at least one digit, and no overflow. The library
  multiplies and adds with overflow checks at every digit; the running value never
  decreases, so that is the test on the final value.
\<close>

definition parse_u16 :: "string \<Rightarrow> u16 option" where
  "parse_u16 s =
     (let ds = (case s of [] \<Rightarrow> [] | c # r \<Rightarrow> if c = CHR ''+'' then r else s) in
      if ds = [] \<or> \<not> list_all is_ascii_digit ds then None
      else if nat_of_digits ds < 65536 then Some (word_of_nat (nat_of_digits ds)) else None)"

text \<open>Decimal printing of an unsigned integer (\<open>Display\<close>).\<close>

fun nat_to_string :: "nat \<Rightarrow> string" where
  "nat_to_string n =
     (if n < 10 then [char_of (48 + n)]
      else nat_to_string (n div 10) @ [char_of (48 + n mod 10)])"

declare nat_to_string.simps [simp del]

lemma nat_of_digits_snoc: "nat_of_digits (s @ [c]) = 10 * nat_of_digits s + digit_value c"
  by (simp add: nat_of_digits_def)

lemma nat_to_string_digits: "list_all is_ascii_digit (nat_to_string n)"
proof (induction n rule: nat_to_string.induct)
  case (1 n)
  then show ?case
    by (subst nat_to_string.simps) (auto simp: is_ascii_digit_def [of "char_of _"])
qed

lemma nat_to_string_nonempty [simp]: "nat_to_string n \<noteq> []"
  by (subst nat_to_string.simps) simp

lemma nat_of_digits_to_string [simp]: "nat_of_digits (nat_to_string n) = n"
proof (induction n rule: nat_to_string.induct)
  case (1 n)
  then show ?case
    by (subst nat_to_string.simps)
      (auto simp: nat_of_digits_snoc digit_value_def nat_of_digits_def)
qed

lemma parse_u16_to_string: "parse_u16 (nat_to_string (unat w)) = Some w"
proof -
  obtain c r where cr: "nat_to_string (unat w) = c # r"
    by (cases "nat_to_string (unat w)") auto
  then have "is_ascii_digit c" using nat_to_string_digits [of "unat w"] by simp
  then have "c \<noteq> CHR ''+''" by (auto simp: is_ascii_digit_def byte_def)
  moreover have "unat w < 65536" using unsigned_less [of w] by simp
  ultimately show ?thesis
    using nat_to_string_digits [of "unat w"] nat_of_digits_to_string [of "unat w"] cr
    by (simp add: parse_u16_def)
qed

lemmas [eval_simps] = nat_to_string.simps

lemmas [eval_simps] = digit_value_def nat_of_digits_def parse_u16_def rsplit_once_def
  is_white_def is_ascii_whitespace_def trim_def split_ascii_whitespace_def
  strip_suffix_def char_of_def bit_0 sublist_code suffix_to_prefix strict_prefix_def

subsection \<open>Errors of the operating system\<close>

text \<open>\<open>std::io::Error\<close> is an error number or a kind with a message of the program.\<close>

datatype errno = ENOENT | EEXIST | ENOTDIR | EISDIR | ENOTEMPTY | ELOOP | ECONNREFUSED | EADDRINUSE
  | EXDEV | EACCES | EINVAL | EBADF | EIO

datatype error_kind = NotFoundKind | AlreadyExistsKind | NotADirectoryKind | ConnectionRefusedKind
  | InvalidInputKind | PermissionDeniedKind | OtherErrorKind

datatype io_error = Os errno | Custom error_kind string

fun io_kind_of :: "io_error \<Rightarrow> error_kind" where
  "io_kind_of (Os ENOENT) = NotFoundKind"
| "io_kind_of (Os EEXIST) = AlreadyExistsKind"
| "io_kind_of (Os ENOTDIR) = NotADirectoryKind"
| "io_kind_of (Os ECONNREFUSED) = ConnectionRefusedKind"
| "io_kind_of (Os EINVAL) = InvalidInputKind"
| "io_kind_of (Os EACCES) = PermissionDeniedKind"
| "io_kind_of (Os _) = OtherErrorKind"
| "io_kind_of (Custom kind _) = kind"

subsection \<open>Transition systems\<close>

text \<open>
  What the state machines of the components share: a predicate that holds at the start and that
  every step keeps holds along every run.
\<close>

locale invariant_system =
  fixes init :: 's and step :: "'s \<Rightarrow> 's \<Rightarrow> bool" and inv :: "'s \<Rightarrow> bool"
  assumes inv_init: "inv init" and inv_step: "inv s \<Longrightarrow> step s t \<Longrightarrow> inv t"
begin

lemma inv_run: "step\<^sup>*\<^sup>* s t \<Longrightarrow> inv s \<Longrightarrow> inv t"
  by (induction rule: rtranclp_induct) (auto intro: inv_step)

lemma inv_reachable: "step\<^sup>*\<^sup>* init s \<Longrightarrow> inv s"
  by (rule inv_run) (auto intro: inv_init)

end

end
