(* ===== verification/Client_Types.thy ===== *)
theory Client_Types
  imports Prelude
begin

text \<open>
  The public data model of \<open>crates/baffle-client/src/lib.rs\<close>: session configuration, host
  rules, header injections and credential modes, with the builder functions. A Rust
  \<open>BTreeMap<String, V>\<close> is an association list with strictly increasing keys; the insertion
  \<open>bt_insert\<close> keeps it so and replaces the value of a key that is already there.
\<close>

subsection \<open>Ordered maps\<close>

fun bt_insert :: "'k::linorder \<Rightarrow> 'v \<Rightarrow> ('k \<times> 'v) list \<Rightarrow> ('k \<times> 'v) list" where
  "bt_insert k v [] = [(k, v)]"
| "bt_insert k v ((k', v') # m) =
     (if k < k' then (k, v) # (k', v') # m
      else if k = k' then (k, v) # m
      else (k', v') # bt_insert k v m)"

definition bt_wf :: "('k::linorder \<times> 'v) list \<Rightarrow> bool" where
  "bt_wf m \<longleftrightarrow> sorted_wrt (<) (map fst m)"

text \<open>\<open>iter.collect::<BTreeMap<_, _>>()\<close>: later entries replace earlier ones.\<close>

definition bt_collect :: "('k::linorder \<times> 'v) list \<Rightarrow> ('k \<times> 'v) list" where
  "bt_collect kvs = fold (\<lambda>(k, v) m. bt_insert k v m) kvs []"

lemma alist_of_keys:
  "distinct (map fst m) \<Longrightarrow> m = map (\<lambda>k. (k, the (map_of m k))) (map fst m)"
  by (auto intro!: map_idI [symmetric] simp: comp_def)

locale ordered_map =
  fixes insert_kv :: "'k::linorder \<Rightarrow> 'v \<Rightarrow> 'm \<Rightarrow> 'm"
    and lookup :: "'m \<Rightarrow> 'k \<Rightarrow> 'v option"
    and entries :: "'m \<Rightarrow> ('k \<times> 'v) list"
    and wf :: "'m \<Rightarrow> bool"
  assumes lookup_insert: "wf m \<Longrightarrow> lookup (insert_kv k v m) = (lookup m)(k \<mapsto> v)"
    and wf_insert: "wf m \<Longrightarrow> wf (insert_kv k v m)"
    and lookup_entries: "lookup m = map_of (entries m)"
    and wf_entries: "wf m \<Longrightarrow> sorted_wrt (<) (map fst (entries m))"
begin

lemma wf_distinct: "wf m \<Longrightarrow> distinct (map fst (entries m))"
  using wf_entries strict_sorted_iff by blast

lemma insert_all_wf: "wf m \<Longrightarrow> wf (fold (\<lambda>(k, v). insert_kv k v) kvs m)"
  by (induction kvs arbitrary: m) (auto simp: wf_insert)

lemma insert_all_lookup:
  "wf m \<Longrightarrow> lookup (fold (\<lambda>(k, v). insert_kv k v) kvs m) = lookup m ++ map_of (rev kvs)"
  by (induction kvs arbitrary: m) (auto simp: wf_insert lookup_insert)

text \<open>Two well-formed maps with the same lookups have the same entries in the same order.\<close>

lemma entries_eqI:
  assumes "wf m" "wf n" "lookup m = lookup n"
  shows "entries m = entries n"
proof -
  have "set (map fst (entries m)) = set (map fst (entries n))"
    using assms(3) by (metis dom_map_of_conv_image_fst list.set_map lookup_entries)
  then have keys: "map fst (entries m) = map fst (entries n)"
    using assms wf_entries strict_sorted_equal by blast
  have "entries m = map (\<lambda>k. (k, the (lookup m k))) (map fst (entries m))"
    using alist_of_keys [OF wf_distinct [OF assms(1)]] by (simp add: lookup_entries)
  also have "\<dots> = map (\<lambda>k. (k, the (lookup n k))) (map fst (entries n))"
    using assms(3) keys by simp
  also have "\<dots> = entries n"
    using alist_of_keys [OF wf_distinct [OF assms(2)]] by (simp add: lookup_entries)
  finally show ?thesis .
qed

end

lemma bt_insert_keys: "set (map fst (bt_insert k v m)) = insert k (set (map fst m))"
  by (induction k v m rule: bt_insert.induct) auto

lemma bt_insert_wf: "bt_wf m \<Longrightarrow> bt_wf (bt_insert k v m)"
  unfolding bt_wf_def
proof (induction k v m rule: bt_insert.induct)
  case (2 k v k' v' m)
  have "\<forall>x \<in> set (map fst (bt_insert k v m)). k' < x" if "\<not> k < k'" "k \<noteq> k'"
    using 2 that bt_insert_keys [of k v m] by auto
  with 2 show ?case by (auto intro: less_trans)
qed simp

lemma bt_insert_lookup: "bt_wf m \<Longrightarrow> map_of (bt_insert k v m) = (map_of m)(k \<mapsto> v)"
  unfolding bt_wf_def by (induction k v m rule: bt_insert.induct) (auto simp: fun_eq_iff)

interpretation btree: ordered_map bt_insert map_of "\<lambda>m. m" bt_wf
  by unfold_locales (simp_all add: bt_insert_lookup bt_insert_wf, simp add: bt_wf_def)

lemma bt_wf_Nil [simp]: "bt_wf []"
  by (simp add: bt_wf_def)

lemma bt_collect_wf: "bt_wf (bt_collect kvs)"
  unfolding bt_collect_def using btree.insert_all_wf [of "[]" kvs] by simp

lemma bt_collect_lookup: "map_of (bt_collect kvs) = map_of (rev kvs)"
  unfolding bt_collect_def using btree.insert_all_lookup [of "[]" kvs] by simp

lemma bt_collect_id: "bt_wf m \<Longrightarrow> bt_collect m = m"
  using btree.entries_eqI [of "bt_collect m" m] btree.wf_distinct [of m]
  by (simp add: bt_collect_wf bt_collect_lookup map_of_inject_set [of "rev m" m] rev_map [symmetric])

subsection \<open>Session configuration\<close>

datatype credential_mode = Inject | Substitute | Disabled

datatype unmatched_host_policy = Deny | Tunnel

datatype rule_mode = TunnelMode | InterceptMode

datatype injection_format = RawFormat | Bearer | BasicPassword

record header_injection =
  hi_header :: string
  hi_secret :: string
  hi_format :: injection_format
  hi_username :: "string option"

record host_rule =
  hr_host :: string
  hr_mode :: rule_mode
  hr_ports :: "u16 list"
  hr_paths :: "string list"
  hr_inject :: "header_injection list"

record session_config =
  sc_persistent :: bool
  sc_socket_name :: "string option"
  sc_unmatched :: unmatched_host_policy
  sc_default_credential_mode :: "credential_mode option"
  sc_credential_modes :: "(string \<times> credential_mode) list"
  sc_rules :: "host_rule list"

text \<open>\<open>SessionConfig::new\<close>, the derived default, and the builder methods.\<close>

definition session_config_new :: session_config where
  "session_config_new = \<lparr>sc_persistent = False, sc_socket_name = None, sc_unmatched = Deny,
     sc_default_credential_mode = None, sc_credential_modes = [], sc_rules = []\<rparr>"

definition with_persistent :: "session_config \<Rightarrow> bool \<Rightarrow> session_config" where
  "with_persistent c b = c\<lparr>sc_persistent := b\<rparr>"

definition with_socket_name :: "session_config \<Rightarrow> string \<Rightarrow> session_config" where
  "with_socket_name c n = c\<lparr>sc_socket_name := Some n\<rparr>"

definition with_unmatched_host_policy ::
  "session_config \<Rightarrow> unmatched_host_policy \<Rightarrow> session_config" where
  "with_unmatched_host_policy c p = c\<lparr>sc_unmatched := p\<rparr>"

definition with_default_credential_mode ::
  "session_config \<Rightarrow> credential_mode \<Rightarrow> session_config" where
  "with_default_credential_mode c m = c\<lparr>sc_default_credential_mode := Some m\<rparr>"

definition with_credential_mode ::
  "session_config \<Rightarrow> string \<Rightarrow> credential_mode \<Rightarrow> session_config" where
  "with_credential_mode c secret m =
     c\<lparr>sc_credential_modes := bt_insert secret m (sc_credential_modes c)\<rparr>"

definition with_rule :: "session_config \<Rightarrow> host_rule \<Rightarrow> session_config" where
  "with_rule c r = c\<lparr>sc_rules := sc_rules c @ [r]\<rparr>"

definition host_rule_new :: "string \<Rightarrow> rule_mode \<Rightarrow> host_rule" where
  "host_rule_new h m = \<lparr>hr_host = h, hr_mode = m, hr_ports = [443], hr_paths = [], hr_inject = []\<rparr>"

definition header_injection_new ::
  "string \<Rightarrow> string \<Rightarrow> injection_format \<Rightarrow> string option \<Rightarrow> header_injection" where
  "header_injection_new h s f u =
     \<lparr>hi_header = h, hi_secret = s, hi_format = f, hi_username = u\<rparr>"

text \<open>The named constructors of rules and injections.\<close>

definition host_rule_tunnel :: "string \<Rightarrow> host_rule" where
  "host_rule_tunnel h = host_rule_new h TunnelMode"

definition host_rule_intercept :: "string \<Rightarrow> host_rule" where
  "host_rule_intercept h = host_rule_new h InterceptMode"

definition header_injection_raw :: "string \<Rightarrow> string \<Rightarrow> header_injection" where
  "header_injection_raw h s = header_injection_new h s RawFormat None"

definition header_injection_bearer :: "string \<Rightarrow> string \<Rightarrow> header_injection" where
  "header_injection_bearer h s = header_injection_new h s Bearer None"

definition header_injection_basic_password :: "string \<Rightarrow> string \<Rightarrow> string \<Rightarrow> header_injection" where
  "header_injection_basic_password h s username = header_injection_new h s BasicPassword (Some username)"

text \<open>
  \<open>SessionConfig::effective_credential_mode\<close>: the per-secret mode, else the session default,
  else the enum default \<open>Inject\<close>.
\<close>

definition effective_credential_mode :: "session_config \<Rightarrow> string \<Rightarrow> credential_mode" where
  "effective_credential_mode c secret =
     (case map_of (sc_credential_modes c) secret of
        Some m \<Rightarrow> m
      | None \<Rightarrow> (case sc_default_credential_mode c of Some m \<Rightarrow> m | None \<Rightarrow> Inject))"

lemma effective_credential_mode_override:
  "bt_wf (sc_credential_modes c) \<Longrightarrow>
   effective_credential_mode (with_credential_mode c s m) t =
     (if t = s then m else effective_credential_mode c t)"
  by (simp add: effective_credential_mode_def with_credential_mode_def bt_insert_lookup
      split: option.split)

end
