(* ===== verification/Path_Canon.thy ===== *)
theory Path_Canon
  imports Prelude
begin

text \<open>
  URL path canonicalisation and path patterns: \<open>canonicalize_path\<close>, \<open>validate_path\<close>,
  \<open>paths_overlap\<close> and their helpers of \<open>crates/baffle-client/src/policy.rs\<close>, and
  \<open>matches_path_pattern\<close> of \<open>src/policy.rs\<close>. The lemmas give a grammar of canonical paths
  (\<open>canon_form\<close>), on which canonicalisation is the identity and percent-decoding is exact.
\<close>

subsection \<open>Operations\<close>

definition hex_value :: "char \<Rightarrow> nat option" where
  "hex_value c =
     (if 48 \<le> byte c \<and> byte c \<le> 57 then Some (byte c - 48)
      else if 97 \<le> byte c \<and> byte c \<le> 102 then Some (byte c - 97 + 10)
      else if 65 \<le> byte c \<and> byte c \<le> 70 then Some (byte c - 65 + 10)
      else None)"

definition is_unreserved :: "char \<Rightarrow> bool" where
  "is_unreserved c \<longleftrightarrow> is_ascii_alphanumeric c \<or> c \<in> set ''-._~''"

definition is_path_character :: "char \<Rightarrow> bool" where
  "is_path_character c \<longleftrightarrow> is_ascii_alphanumeric c \<or>
     c \<in> {CHR ''/'', CHR ''-'', CHR ''.'', CHR ''_'', CHR ''~'', CHR ''!'', CHR ''$'', CHR ''&'',
          CHR 0x27, CHR ''('', CHR '')'', CHR ''+'', CHR '','', CHR '';'', CHR ''='', CHR '':'',
          CHR ''@''}"

definition err_not_absolute :: string where
  "err_not_absolute = ''must be an absolute URL path without query, fragment, or backslash''"

definition err_malformed_percent :: string where
  "err_malformed_percent = ''contains malformed percent encoding''"

definition err_encoded_separator :: string where
  "err_encoded_separator =
     ''contains an encoded path separator or ambiguous double encoding''"

definition err_bad_character :: string where
  "err_bad_character = ''contains a character that is not valid in a URL path''"

text \<open>The byte loop: \<open>canonical\<close> is what has been pushed so far, the list what is left.\<close>

fun canon_loop :: "string \<Rightarrow> string \<Rightarrow> string + string" where
  "canon_loop canonical [] = Inr canonical"
| "canon_loop canonical (b # bytes) =
     (if b = CHR ''%'' then
        (case bytes of
           h # l # rest \<Rightarrow>
             (case hex_value h of None \<Rightarrow> Inl err_malformed_percent
              | Some high \<Rightarrow>
                (case hex_value l of None \<Rightarrow> Inl err_malformed_percent
                 | Some low \<Rightarrow>
                   (let decoded = char_of (high * 16 + low) in
                    if decoded \<in> {CHR ''/'', CHR 0x5C, CHR ''%''} then Inl err_encoded_separator
                    else if is_unreserved decoded then canon_loop (canonical @ [decoded]) rest
                    else canon_loop (canonical @ [CHR ''%'', to_upper h, to_upper l]) rest)))
         | _ \<Rightarrow> Inl err_malformed_percent)
      else if \<not> is_path_character b then Inl err_bad_character
      else canon_loop (canonical @ [b]) bytes)"

definition not_absolute_path :: "string \<Rightarrow> bool" where
  "not_absolute_path path \<longleftrightarrow> \<not> prefix ''/'' path \<or>
     CHR ''?'' \<in> set path \<or> CHR ''#'' \<in> set path \<or> CHR 0x5C \<in> set path"

definition canonicalize_path :: "string \<Rightarrow> string + string" where
  "canonicalize_path path =
     (if not_absolute_path path then Inl err_not_absolute
      else and_then (canon_loop [] path) (\<lambda>canonical.
        if sublist ''//'' canonical then Inl ''contains an ambiguous repeated path separator''
        else if list_ex (\<lambda>seg. seg = ''.'' \<or> seg = ''..'') (split_on CHR ''/'' canonical)
        then Inl ''contains an unsafe dot segment''
        else Inr canonical))"

definition canonicalize_request_path :: "string \<Rightarrow> string + string" where
  "canonicalize_request_path path = canonicalize_path (if path = [] then ''/'' else path)"

definition validate_path :: "string \<Rightarrow> string + string" where
  "validate_path input =
     (if not_absolute_path input then Inl err_not_absolute
      else
        (let (path, recursive) =
           (case strip_suffix ''/**'' input of
              Some pre \<Rightarrow> (if pre = [] then ''/'' else take (length pre + 1) input, True)
            | None \<Rightarrow> (input, False)) in
         if CHR ''*'' \<in> set path
         then Inl ''may use ** only as the final recursive path segment''
         else and_then (canonicalize_path path) (\<lambda>canonical.
           Inr (if recursive then canonical @ ''**'' else canonical))))"

definition path_pattern_parts :: "string \<Rightarrow> string \<times> bool" where
  "path_pattern_parts pattern =
     (case strip_suffix ''**'' pattern of None \<Rightarrow> (pattern, False) | Some p \<Rightarrow> (p, True))"

definition paths_overlap :: "string \<Rightarrow> string \<Rightarrow> bool" where
  "paths_overlap left right =
     (let (left_path, left_recursive) = path_pattern_parts left;
          (right_path, right_recursive) = path_pattern_parts right in
      case (left_recursive, right_recursive) of
        (False, False) \<Rightarrow> left_path = right_path
      | (True, False) \<Rightarrow> prefix left_path right_path
      | (False, True) \<Rightarrow> prefix right_path left_path
      | (True, True) \<Rightarrow> prefix right_path left_path \<or> prefix left_path right_path)"

definition matches_path_pattern :: "string \<Rightarrow> string \<Rightarrow> bool" where
  "matches_path_pattern pattern path =
     (case strip_suffix ''**'' pattern of None \<Rightarrow> pattern = path | Some pre \<Rightarrow> prefix pre path)"

lemmas [eval_simps] = hex_value_def is_unreserved_def is_path_character_def not_absolute_path_def
  canonicalize_path_def canonicalize_request_path_def validate_path_def path_pattern_parts_def
  paths_overlap_def matches_path_pattern_def

subsection \<open>The grammar of canonical paths\<close>

text \<open>
  A percent triplet of a canonical path: upper-case digits, and a decoded byte that is
  neither unreserved nor a separator, a backslash or a percent sign.
\<close>

definition canon_triplet :: "char \<Rightarrow> char \<Rightarrow> bool" where
  "canon_triplet h l \<longleftrightarrow> to_upper h = h \<and> to_upper l = l \<and>
     (case (hex_value h, hex_value l) of
        (Some high, Some low) \<Rightarrow>
          char_of (high * 16 + low) \<notin> {CHR ''/'', CHR 0x5C, CHR ''%''} \<and>
          \<not> is_unreserved (char_of (high * 16 + low))
      | _ \<Rightarrow> False)"

fun canon_form :: "string \<Rightarrow> bool" where
  "canon_form [] = True"
| "canon_form (b # s) =
     (if b = CHR ''%'' then (case s of h # l # r \<Rightarrow> canon_triplet h l \<and> canon_form r | _ \<Rightarrow> False)
      else is_path_character b \<and> canon_form s)"

text \<open>Percent-decoding as an origin server does it: every well-formed triplet is decoded.\<close>

fun pct_decode :: "string \<Rightarrow> string" where
  "pct_decode [] = []"
| "pct_decode (b # s) =
     (if b = CHR ''%'' then
        (case s of
           h # l # r \<Rightarrow>
             (case (hex_value h, hex_value l) of
                (Some high, Some low) \<Rightarrow> char_of (high * 16 + low) # pct_decode r
              | _ \<Rightarrow> b # pct_decode s)
         | _ \<Rightarrow> b # pct_decode s)
      else b # pct_decode s)"

lemma hex_value_to_upper [simp]: "hex_value (to_upper c) = hex_value c"
  by (auto simp: hex_value_def byte_defs)

lemma to_upper_idem [simp]: "to_upper (to_upper c) = to_upper c"
  by (auto simp: byte_defs)

lemma unreserved_path_character: "is_unreserved c \<Longrightarrow> is_path_character c"
  by (auto simp: is_unreserved_def is_path_character_def)

lemma path_character_neq:
  "is_path_character c \<Longrightarrow> c \<noteq> CHR ''%''" "is_path_character c \<Longrightarrow> c \<noteq> CHR ''*''"
  "is_path_character c \<Longrightarrow> c \<noteq> CHR ''?''" "is_path_character c \<Longrightarrow> c \<noteq> CHR ''#''"
  "is_path_character c \<Longrightarrow> c \<noteq> CHR 0x5C"
  by (auto simp: is_path_character_def byte_defs byte_def)

lemma hex_digit_path_character: "hex_value c = Some n \<Longrightarrow> is_path_character c \<and> c \<noteq> CHR ''/''"
  by (auto simp: hex_value_def is_path_character_def byte_defs byte_def split: if_splits)

lemma canon_loop_accumulates:
  "canon_loop acc s = and_then (canon_loop [] s) (\<lambda>c. Inr (acc @ c))"
proof (induction "length s" arbitrary: acc s rule: less_induct)
  case less
  show ?case
  proof (cases s)
    case Nil
    then show ?thesis by simp
  next
    case (Cons b bytes)
    have IH: "canon_loop (acc @ xs) t = and_then (canon_loop xs t) (\<lambda>c. Inr (acc @ c))"
      if "length t < length s" for xs t
      using less [OF that, of "acc @ xs"] less [OF that, of xs]
      by (cases "canon_loop [] t") auto
    show ?thesis
      using IH by (simp add: Cons Let_def split: list.split option.split)
  qed
qed

lemma canon_loop_Cons:
  "is_path_character b \<Longrightarrow> canon_loop [] (b # s) = and_then (canon_loop [] s) (\<lambda>c. Inr (b # c))"
  using canon_loop_accumulates [of "[b]" s] by (auto dest: path_character_neq)


text \<open>The loop's own induction rule: what an accepted input is made of, and what it becomes.\<close>

lemma canon_loop_induct [consumes 1, case_names Nil Char Pct]:
  assumes "canon_loop [] s = Inr c"
    and "P [] []"
    and "\<And>b s c. is_path_character b \<Longrightarrow> canon_loop [] s = Inr c \<Longrightarrow> P s c \<Longrightarrow> P (b # s) (b # c)"
    and "\<And>h l high low s c d. hex_value h = Some high \<Longrightarrow> hex_value l = Some low \<Longrightarrow>
      d = char_of (high * 16 + low) \<Longrightarrow> d \<notin> {CHR ''/'', CHR 0x5C, CHR ''%''} \<Longrightarrow>
      canon_loop [] s = Inr c \<Longrightarrow> P s c \<Longrightarrow>
      P (CHR ''%'' # h # l # s)
        ((if is_unreserved d then [d] else [CHR ''%'', to_upper h, to_upper l]) @ c)"
  shows "P s c"
  using assms(1)
proof (induction "length s" arbitrary: s c rule: less_induct)
  case less
  show ?case
  proof (cases s)
    case Nil
    with less.prems assms(2) show ?thesis by simp
  next
    case (Cons b t)
    show ?thesis
    proof (cases "b = CHR ''%''")
      case False
      with less.prems Cons have b: "is_path_character b" by (auto split: if_splits)
      with less.prems Cons obtain c' where "canon_loop [] t = Inr c'" "c = b # c'"
        by (auto simp: canon_loop_Cons result_simps simp del: canon_loop.simps)
      with less.hyps [of t c'] Cons b show ?thesis by (auto intro: assms(3))
    next
      case True
      with less.prems Cons obtain h l r high low where t: "t = h # l # r"
        and hv: "hex_value h = Some high" "hex_value l = Some low"
        and d: "char_of (high * 16 + low) \<notin> {CHR ''/'', CHR 0x5C, CHR ''%''}"
        by (auto split: list.splits option.splits if_splits simp: Let_def)
      define e where "e = (if is_unreserved (char_of (high * 16 + low))
        then [char_of (high * 16 + low)] else [CHR ''%'', to_upper h, to_upper l])"
      have "canon_loop [] s = canon_loop e r"
        using Cons True t hv d by (simp add: e_def Let_def)
      with less.prems obtain c' where c': "canon_loop [] r = Inr c'" "c = e @ c'"
        using canon_loop_accumulates [of e r] by (auto simp: result_simps)
      then have "P r c'" using less.hyps [of r c'] Cons t by simp
      with assms(4) [OF hv refl d c'(1)] c'(2) show ?thesis
        using Cons True t by (simp add: e_def)
    qed
  qed
qed

lemma canon_loop_form: "canon_loop [] s = Inr c \<Longrightarrow> canon_form c"
proof (induction rule: canon_loop_induct)
  case (Char b s c)
  then show ?case by (auto dest: path_character_neq)
next
  case (Pct h l high low s c d)
  then show ?case
    by (auto simp: canon_triplet_def dest: unreserved_path_character path_character_neq)
qed simp

lemma canon_form_induct [consumes 1, case_names Nil Char Pct]:
  assumes "canon_form s" and "P []"
    and "\<And>b s. is_path_character b \<Longrightarrow> canon_form s \<Longrightarrow> P s \<Longrightarrow> P (b # s)"
    and "\<And>h l s. canon_triplet h l \<Longrightarrow> canon_form s \<Longrightarrow> P s \<Longrightarrow> P (CHR ''%'' # h # l # s)"
  shows "P s"
  using assms(1)
proof (induction s rule: canon_form.induct)
  case (2 b s)
  then show ?case
    by (cases "b = CHR ''%''") (auto split: list.splits intro: assms(3,4))
qed (rule assms(2))

lemma canon_tripletE:
  assumes "canon_triplet h l"
  obtains high low where "hex_value h = Some high" "hex_value l = Some low"
    "to_upper h = h" "to_upper l = l"
    "char_of (high * 16 + low) \<notin> {CHR ''/'', CHR 0x5C, CHR ''%''}"
    "\<not> is_unreserved (char_of (high * 16 + low))"
  using assms by (auto simp: canon_triplet_def split: option.splits)

lemma canon_form_fixpoint: "canon_form s \<Longrightarrow> canon_loop [] s = Inr s"
proof (induction rule: canon_form_induct)
  case (Char b s)
  then show ?case by (simp add: canon_loop_Cons del: canon_loop.simps)
next
  case (Pct h l s)
  from Pct(1) show ?case
    by (rule canon_tripletE)
      (use Pct(3) canon_loop_accumulates [of "[CHR ''%'', h, l]" s] in \<open>simp add: Let_def\<close>)
qed simp

lemma canon_form_chars:
  "canon_form s \<Longrightarrow> c \<in> set s \<Longrightarrow> is_path_character c \<or> c = CHR ''%''"
proof (induction rule: canon_form_induct)
  case (Pct h l s)
  from Pct(1) show ?case
    by (rule canon_tripletE) (use Pct in \<open>auto dest: hex_digit_path_character\<close>)
qed auto

lemma canon_form_no_special:
  "canon_form s \<Longrightarrow> c \<in> set s \<Longrightarrow> c \<noteq> CHR ''*'' \<and> c \<noteq> CHR ''?'' \<and> c \<noteq> CHR ''#'' \<and> c \<noteq> CHR 0x5C"
  using canon_form_chars [of s c] by (auto dest: path_character_neq)

lemma canon_loop_decode: "canon_loop [] s = Inr c \<Longrightarrow> pct_decode c = pct_decode s"
proof (induction rule: canon_loop_induct)
  case (Char b s c)
  then show ?case by (auto dest: path_character_neq)
next
  case (Pct h l high low s c d)
  then show ?case by (auto dest: unreserved_path_character path_character_neq)
qed simp

text \<open>Decoding a canonical path keeps its segments: no separator is created or lost.\<close>

lemma canon_form_segments:
  "canon_form s \<Longrightarrow>
   split_on CHR ''/'' (pct_decode s) = map pct_decode (split_on CHR ''/'' s)"
proof (induction rule: canon_form_induct)
  case (Char b s)
  then have "b \<noteq> CHR ''%''" by (auto dest: path_character_neq)
  moreover obtain y ys where "split_on CHR ''/'' s = y # ys"
    by (cases "split_on CHR ''/'' s") auto
  ultimately show ?case using Char(3) by simp
next
  case (Pct h l s)
  from Pct(1) show ?case
  proof (rule canon_tripletE)
    fix high low
    assume *: "hex_value h = Some high" "hex_value l = Some low"
      "char_of (high * 16 + low) \<notin> {CHR ''/'', CHR 0x5C, CHR ''%''}"
    then have "h \<noteq> CHR ''/''" "l \<noteq> CHR ''/''"
      by (auto dest: hex_digit_path_character)
    moreover obtain y ys where "split_on CHR ''/'' s = y # ys"
      by (cases "split_on CHR ''/'' s") auto
    ultimately show ?thesis using * Pct(3) by simp
  qed
qed simp

lemma canon_form_split: "canon_form s \<Longrightarrow> p \<in> set (split_on CHR ''/'' s) \<Longrightarrow> canon_form p"
proof (induction arbitrary: p rule: canon_form_induct)
  case (Char b s)
  then show ?case
    by (cases "split_on CHR ''/'' s") (auto split: if_splits dest: path_character_neq)
next
  case (Pct h l s)
  from Pct(1) have "h \<noteq> CHR ''/''" "l \<noteq> CHR ''/''"
    by (auto elim!: canon_tripletE dest: hex_digit_path_character)
  with Pct show ?case by (cases "split_on CHR ''/'' s") auto
qed simp

text \<open>A decoded byte that is unreserved was written plainly.\<close>

lemma canon_form_decode_unreserved:
  "canon_form s \<Longrightarrow> (\<And>c. c \<in> set (pct_decode s) \<Longrightarrow> is_unreserved c) \<Longrightarrow> pct_decode s = s"
proof (induction rule: canon_form_induct)
  case (Char b s)
  then show ?case by (auto dest: path_character_neq)
next
  case (Pct h l s)
  from Pct(1) show ?case
    by (rule canon_tripletE) (use Pct(4) in auto)
qed simp

lemma canonicalize_path_Inr:
  "canonicalize_path p = Inr c \<longleftrightarrow>
   \<not> not_absolute_path p \<and> canon_loop [] p = Inr c \<and> \<not> sublist ''//'' c \<and>
   (\<forall>seg \<in> set (split_on CHR ''/'' c). seg \<noteq> ''.'' \<and> seg \<noteq> ''..'')"
  by (auto simp: canonicalize_path_def result_simps list_ex_iff split: if_splits)

lemma canon_loop_absolute: "canon_loop [] (CHR ''/'' # s) = Inr c \<Longrightarrow> prefix ''/'' c"
  using canon_loop_Cons [of "CHR ''/''" s]
  by (auto simp: is_path_character_def result_simps simp del: canon_loop.simps)

lemma canonical_absolute:
  assumes "canonicalize_path p = Inr c"
  shows "\<not> not_absolute_path c" "prefix ''/'' c" "canon_form c"
proof -
  from assms have loop: "canon_loop [] p = Inr c" and abs: "\<not> not_absolute_path p"
    by (auto simp: canonicalize_path_Inr)
  from loop show form: "canon_form c" by (rule canon_loop_form)
  from abs obtain t where "p = CHR ''/'' # t"
    by (auto simp: not_absolute_path_def prefix_def)
  with loop show pre: "prefix ''/'' c" by (simp only: canon_loop_absolute)
  with form show "\<not> not_absolute_path c"
    unfolding not_absolute_path_def by (meson canon_form_no_special)
qed

lemma canonicalize_path_fixpoint: "canonicalize_path p = Inr c \<Longrightarrow> canonicalize_path c = Inr c"
  using canonical_absolute [of p c] canon_form_fixpoint [of c]
  by (simp add: canonicalize_path_Inr)


subsection \<open>What a pattern matches\<close>

text \<open>
  The contract between canonicalisation and pattern matching: what policy code relies on.
  A canonical path has no star, so it is never read as a recursive pattern, and it keeps a
  trailing separator, so a recursive pattern ends at a segment boundary.
\<close>

locale path_canonicalizer =
  fixes canon :: "string \<Rightarrow> string + string"
  assumes canon_idem: "canon p = Inr c \<Longrightarrow> canon c = Inr c"
    and canon_no_star: "canon p = Inr c \<Longrightarrow> CHR ''*'' \<notin> set c"
    and canon_directory: "canon (p @ ''/'') = Inr c \<Longrightarrow> suffix ''/'' c"
begin

lemma no_recursive_suffix: "canon p = Inr c \<Longrightarrow> strip_suffix ''**'' c = None"
  using canon_no_star [of p c] by (auto simp: strip_suffix_None_iff suffix_def)

lemma match_exact:
  assumes "canon p = Inr v"
  shows "matches_path_pattern v c \<longleftrightarrow> v = c"
  using no_recursive_suffix [OF assms] by (simp add: matches_path_pattern_def)

lemma match_recursive:
  assumes "canon (p @ ''/'') = Inr d"
  shows "\<exists>e. d = e @ ''/'' \<and>
    (matches_path_pattern (d @ ''**'') c \<longleftrightarrow>
     strict_prefix (split_on CHR ''/'' e) (split_on CHR ''/'' c))"
proof -
  from canon_directory [OF assms] obtain e where e: "d = e @ ''/''" by (auto simp: suffix_def)
  have "matches_path_pattern (d @ ''**'') c \<longleftrightarrow> prefix d c"
    by (simp add: matches_path_pattern_def)
  with e show ?thesis using prefix_sep_iff [of e "CHR ''/''" c] by simp
qed

end

lemma canon_loop_last:
  assumes "canon_loop [] s = Inr c" "suffix ''/'' s"
  shows "suffix ''/'' c"
  using assms
proof (induction rule: canon_loop_induct)
  case (Char b s c)
  then show ?case by (cases s) (auto simp: suffix_Cons canon_loop.simps)
next
  case (Pct h l high low s c d)
  then have "h \<noteq> CHR ''/''" "l \<noteq> CHR ''/''" by (auto dest: hex_digit_path_character)
  with Pct have "suffix ''/'' s" by (auto simp: suffix_Cons)
  with Pct have "suffix ''/'' c" by simp
  then show ?case by (simp add: suffix_appendI suffix_ConsI)
qed simp

interpretation url_path: path_canonicalizer canonicalize_path
proof unfold_locales
  fix p c
  assume "canonicalize_path p = Inr c"
  then show "canonicalize_path c = Inr c" by (rule canonicalize_path_fixpoint)
next
  fix p c
  assume "canonicalize_path p = Inr c"
  then show "CHR ''*'' \<notin> set c" using canonical_absolute(3) canon_form_no_special by blast
next
  fix p c
  assume "canonicalize_path (p @ ''/'') = Inr c"
  then show "suffix ''/'' c" by (auto simp: canonicalize_path_Inr elim: canon_loop_last)
qed

lemma matches_path_pattern_parts:
  "matches_path_pattern pat path \<longleftrightarrow>
     (if snd (path_pattern_parts pat) then prefix (fst (path_pattern_parts pat)) path
      else fst (path_pattern_parts pat) = path)"
  by (simp add: matches_path_pattern_def path_pattern_parts_def split: option.split)

lemma paths_overlap_parts:
  "paths_overlap l r \<longleftrightarrow>
    (let lp = fst (path_pattern_parts l); rp = fst (path_pattern_parts r) in
     if snd (path_pattern_parts l)
     then (if snd (path_pattern_parts r) then prefix rp lp \<or> prefix lp rp else prefix lp rp)
     else (if snd (path_pattern_parts r) then prefix rp lp else lp = rp))"
  by (auto simp: paths_overlap_def Let_def split: prod.splits bool.splits)

lemma paths_overlap_witness:
  "paths_overlap l r \<longleftrightarrow> (\<exists>p. matches_path_pattern l p \<and> matches_path_pattern r p)"
proof
  assume "paths_overlap l r"
  then show "\<exists>p. matches_path_pattern l p \<and> matches_path_pattern r p"
    unfolding paths_overlap_parts matches_path_pattern_parts Let_def
    by (auto split: if_splits)
next
  assume "\<exists>p. matches_path_pattern l p \<and> matches_path_pattern r p"
  then show "paths_overlap l r"
    unfolding paths_overlap_parts matches_path_pattern_parts Let_def
    by (auto split: if_splits dest: prefix_same_cases)
qed

lemma paths_overlap_sym: "paths_overlap l r \<longleftrightarrow> paths_overlap r l"
  by (auto simp: paths_overlap_witness)

lemma validate_path_Inr:
  "validate_path input = Inr v \<longleftrightarrow> \<not> not_absolute_path input \<and>
     (case strip_suffix ''/**'' input of
        None \<Rightarrow> CHR ''*'' \<notin> set input \<and> canonicalize_path input = Inr v
      | Some pre \<Rightarrow> CHR ''*'' \<notin> set pre \<and>
          (\<exists>d. canonicalize_path (pre @ ''/'') = Inr d \<and> v = d @ ''**''))"
proof (cases "strip_suffix ''/**'' input")
  case None
  then show ?thesis by (auto simp: validate_path_def result_simps)
next
  case (Some pre)
  then have "input = pre @ ''/**''" by (simp add: strip_suffix_Some_iff)
  then have "(if pre = [] then ''/'' else take (length pre + 1) input) = pre @ ''/''"
    by simp
  with Some show ?thesis by (auto simp: validate_path_def result_simps)
qed

lemma canonical_no_star: "canonicalize_path p = Inr c \<Longrightarrow> CHR ''*'' \<notin> set c"
  using canonical_absolute(3) [of p c] canon_form_no_special by blast

lemma validate_path_fixpoint:
  assumes "validate_path input = Inr v"
  shows "validate_path v = Inr v"
proof (cases "strip_suffix ''/**'' input")
  case None
  with assms have c: "canonicalize_path input = Inr v" by (simp add: validate_path_Inr)
  note star = canonical_no_star [OF c]
  then have "strip_suffix ''/**'' v = None" by (auto simp: strip_suffix_None_iff suffix_def)
  then show ?thesis
    using star canonical_absolute [OF c] canonicalize_path_fixpoint [OF c]
    by (simp add: validate_path_Inr)
next
  case (Some pre)
  with assms obtain d where d: "canonicalize_path (pre @ ''/'') = Inr d" "v = d @ ''**''"
    by (auto simp: validate_path_Inr)
  then obtain e where e: "d = e @ ''/''" using url_path.canon_directory by (auto simp: suffix_def)
  have "strip_suffix ''/**'' v = Some e" by (simp add: d e strip_suffix_Some_iff)
  moreover have "CHR ''*'' \<notin> set e" using canonical_no_star [OF d(1)] e by auto
  moreover have "\<not> not_absolute_path v"
    using canonical_absolute(1) [OF d(1)] by (auto simp: d(2) e not_absolute_path_def prefix_def append_eq_Cons_conv)
  ultimately show ?thesis
    using canonicalize_path_fixpoint [OF d(1)] by (simp add: validate_path_Inr d e)
qed

lemma pct_decode_canonical_chars:
  "canon_form s \<Longrightarrow> CHR ''%'' \<notin> set (pct_decode s) \<and> CHR 0x5C \<notin> set (pct_decode s)"
proof (induction rule: canon_form_induct)
  case (Char b s)
  then show ?case by (auto dest: path_character_neq)
next
  case (Pct h l s)
  from Pct(1) show ?case by (rule canon_tripletE) (use Pct in auto)
qed simp

lemma canonical_dot_segment:
  assumes "canon_form seg" "pct_decode seg \<in> {''.'', ''..''}"
  shows "seg \<in> {''.'', ''..''}"
  using canon_form_decode_unreserved [OF assms(1)] assms(2) by (auto simp: is_unreserved_def)

subsection \<open>Properties\<close>

text \<open>
  C12. Canonicalisation is a normal form that keeps the meaning of a path: a canonical path is
  its own canonical form, and percent-decodes to the same bytes as the path it came from.
\<close>

theorem canonicalize_path_normal_form:
  assumes "canonicalize_path p = Inr c"
  shows "canonicalize_path c = Inr c \<and> pct_decode c = pct_decode p"
  using canonicalize_path_fixpoint [OF assms] canon_loop_decode [of p c] assms
  by (simp add: canonicalize_path_Inr)

theorem canonicalize_path_normal_form_witness:
  "canonicalize_path ''/a/%7euser/%e9'' = Inr ''/a/~user/%E9'' \<and>
   canonicalize_path ''/a/~user/%E9'' = Inr ''/a/~user/%E9'' \<and>
   pct_decode ''/a/~user/%E9'' = pct_decode ''/a/%7euser/%e9''"
proof -
  have h: "canonicalize_path ''/a/%7euser/%e9'' = Inr ''/a/~user/%E9''" by (simp add: eval_simps)
  show ?thesis using h canonicalize_path_normal_form [OF h] by simp
qed

text \<open>
  C24. An accepted path is safe to decode: an origin that percent-decodes it sees exactly the
  segments the policy saw, none of them a dot segment, and finds neither a backslash nor a
  percent sign that a second decoding could expand.
\<close>

theorem canonicalize_path_decoding_safe:
  assumes "canonicalize_path p = Inr c"
  shows "split_on CHR ''/'' (pct_decode p) = map pct_decode (split_on CHR ''/'' c)
    \<and> (\<forall>seg \<in> set (split_on CHR ''/'' (pct_decode p)). seg \<noteq> ''.'' \<and> seg \<noteq> ''..'')
    \<and> CHR 0x5C \<notin> set (pct_decode p) \<and> CHR ''%'' \<notin> set (pct_decode p)"
proof -
  have form: "canon_form c" using assms by (rule canonical_absolute)
  have eq: "pct_decode p = pct_decode c"
    using assms canon_loop_decode [of p c] by (simp add: canonicalize_path_Inr)
  have "pct_decode seg \<noteq> ''.'' \<and> pct_decode seg \<noteq> ''..''" if "seg \<in> set (split_on CHR ''/'' c)" for seg
    using canonical_dot_segment [of seg] canon_form_split [OF form that] assms that
    by (auto simp: canonicalize_path_Inr)
  then show ?thesis
    using canon_form_segments [OF form] pct_decode_canonical_chars [OF form] by (simp add: eq)
qed

theorem canonicalize_path_decoding_safe_witness:
  "canonicalize_path ''/v1/%2Ea'' = Inr ''/v1/.a'' \<and>
   split_on CHR ''/'' (pct_decode ''/v1/%2Ea'') = map pct_decode (split_on CHR ''/'' ''/v1/.a'')"
proof -
  have h: "canonicalize_path ''/v1/%2Ea'' = Inr ''/v1/.a''" by (simp add: eval_simps)
  show ?thesis using h canonicalize_path_decoding_safe [OF h] by simp
qed

text \<open>
  C23. The overlap test between two path patterns is exact: it holds if and only if some path
  is matched by both.
\<close>

theorem paths_overlap_exact:
  "paths_overlap left right \<longleftrightarrow>
     (\<exists>path. matches_path_pattern left path \<and> matches_path_pattern right path)"
  by (rule paths_overlap_witness)

text \<open>
  What a validated pattern grants: an exact pattern matches the requests with the same
  canonical path; a pattern ending in a recursive segment matches exactly the paths strictly
  below its directory, segment by segment, so it never reaches a sibling whose name merely
  starts alike.
\<close>

theorem validated_pattern_matches:
  assumes "validate_path input = Inr pattern" and "canonicalize_request_path request = Inr path"
  shows "matches_path_pattern pattern path \<longleftrightarrow>
    (case strip_suffix ''/**'' input of
       None \<Rightarrow> canonicalize_path input = Inr path
     | Some dir \<Rightarrow> (\<exists>e. canonicalize_path (dir @ ''/'') = Inr (e @ ''/'') \<and>
         strict_prefix (split_on CHR ''/'' e) (split_on CHR ''/'' path)))"
proof (cases "strip_suffix ''/**'' input")
  case None
  with assms(1) have "canonicalize_path input = Inr pattern" by (simp add: validate_path_Inr)
  with None show ?thesis by (simp add: url_path.match_exact)
next
  case (Some dir)
  with assms(1) obtain d where "canonicalize_path (dir @ ''/'') = Inr d" "pattern = d @ ''**''"
    by (auto simp: validate_path_Inr)
  with Some show ?thesis using url_path.match_recursive [of dir d path] by auto
qed

end
