(* ===== verification/Std_Net.thy ===== *)
theory Std_Net
  imports Prelude
begin

text \<open>
  The textual IP address parser of the Rust standard library (\<open>core::net::parser\<close>), as far
  as \<open>str::parse::<IpAddr>().is_ok()\<close> needs it: which strings are IP address literals. A
  reader takes the remaining input and returns the value read with the rest, or fails and
  consumes nothing.
\<close>

definition hex_digit_value :: "char \<Rightarrow> nat option" where
  "hex_digit_value c =
     (if 48 \<le> byte c \<and> byte c \<le> 57 then Some (byte c - 48)
      else if 97 \<le> byte c \<and> byte c \<le> 102 then Some (byte c - 97 + 10)
      else if 65 \<le> byte c \<and> byte c \<le> 70 then Some (byte c - 65 + 10)
      else None)"

definition dec_digit_value :: "char \<Rightarrow> nat option" where
  "dec_digit_value c = (if 48 \<le> byte c \<and> byte c \<le> 57 then Some (byte c - 48) else None)"

text \<open>One decimal octet: one to three digits, no leading zero, at most 255.\<close>

definition read_octet :: "string \<Rightarrow> (nat \<times> string) option" where
  "read_octet s =
     (let ds = takeWhile is_ascii_digit s; rest = dropWhile is_ascii_digit s in
      if ds = [] \<or> 3 < length ds \<or> (1 < length ds \<and> hd ds = CHR ''0'') \<or> 255 < nat_of_digits ds
      then None else Some (nat_of_digits ds, rest))"

text \<open>\<open>read_separator\<close>: a separator is required before every item but the first.\<close>

definition read_given :: "char \<Rightarrow> string \<Rightarrow> string option" where
  "read_given c s = (case s of [] \<Rightarrow> None | x # xs \<Rightarrow> if x = c then Some xs else None)"

fun read_octets :: "nat \<Rightarrow> bool \<Rightarrow> string \<Rightarrow> string option" where
  "read_octets 0 first s = Some s"
| "read_octets (Suc n) first s =
     (case (if first then Some s else read_given CHR ''.'' s) of
        None \<Rightarrow> None
      | Some s' \<Rightarrow> (case read_octet s' of None \<Rightarrow> None | Some (_, r) \<Rightarrow> read_octets n False r))"

definition read_ipv4 :: "string \<Rightarrow> string option" where
  "read_ipv4 s = read_octets 4 True s"

text \<open>One IPv6 group: one to four hexadecimal digits.\<close>

definition read_group :: "string \<Rightarrow> string option" where
  "read_group s =
     (let ds = takeWhile (\<lambda>c. hex_digit_value c \<noteq> None) s;
          rest = dropWhile (\<lambda>c. hex_digit_value c \<noteq> None) s in
      if ds = [] \<or> 4 < length ds then None else Some rest)"

text \<open>
  \<open>read_groups\<close> with \<open>left\<close> slots to fill: the number of groups read, whether an embedded
  IPv4 address ended it, and the remaining input. An IPv4 tail needs two free slots.
\<close>

fun read_groups :: "nat \<Rightarrow> nat \<Rightarrow> string \<Rightarrow> nat \<times> bool \<times> string" where
  "read_groups 0 i s = (i, False, s)"
| "read_groups (Suc left) i s =
     (let s' = (if i = 0 then Some s else read_given CHR '':'' s) in
      case (if 0 < left then Option.bind s' read_ipv4 else None) of
        Some r \<Rightarrow> (i + 2, True, r)
      | None \<Rightarrow> (case Option.bind s' read_group of
                  None \<Rightarrow> (i, False, s)
                | Some r \<Rightarrow> read_groups left (Suc i) r))"

definition read_ipv6 :: "string \<Rightarrow> string option" where
  "read_ipv6 s =
     (let (head_size, head_ipv4, r) = read_groups 8 0 s in
      if head_size = 8 then Some r
      else if head_ipv4 then None
      else (case Option.bind (read_given CHR '':'' r) (read_given CHR '':'') of
              None \<Rightarrow> None
            | Some r' \<Rightarrow> (let (tail_size, tail_ipv4, r'') = read_groups (8 - (head_size + 1)) 0 r'
                         in Some r'')))"

text \<open>\<open>parse_with\<close> accepts only when the whole input is consumed.\<close>

definition is_ip_addr :: "string \<Rightarrow> bool" where
  "is_ip_addr s =
     (case read_ipv4 s of Some r \<Rightarrow> r = []
      | None \<Rightarrow> (case read_ipv6 s of Some r \<Rightarrow> r = [] | None \<Rightarrow> False))"

lemma read_octets_numeral [eval_simps]:
  "read_octets (numeral k) first s = read_octets (Suc (pred_numeral k)) first s"
  by (simp only: numeral_eq_Suc)

lemma read_groups_numeral [eval_simps]:
  "read_groups (numeral k) i s = read_groups (Suc (pred_numeral k)) i s"
  by (simp only: numeral_eq_Suc)

text \<open>A string whose first character is neither a hexadecimal digit nor a colon is no address.\<close>

lemma not_ip_first:
  assumes "hex_digit_value c = None" "c \<noteq> CHR '':''"
  shows "\<not> is_ip_addr (c # s)"
proof -
  from assms have "\<not> is_ascii_digit c"
    by (auto simp: hex_digit_value_def is_ascii_digit_def split: if_splits)
  then have "read_ipv4 (c # s) = None"
    by (simp add: read_ipv4_def numeral_eq_Suc read_octet_def)
  moreover have "read_groups 8 0 (c # s) = (0, False, c # s)"
    unfolding read_groups_numeral read_groups.simps using assms calculation
    by (simp add: read_group_def)
  ultimately show ?thesis
    using assms by (simp add: is_ip_addr_def read_ipv6_def read_given_def)
qed

end
