(* ===== verification/Dns_Name.thy ===== *)
theory Dns_Name
  imports Std_Net
begin

text \<open>
  Hostname normalisation: \<open>normalize_dns_name\<close> of \<open>crates/baffle-client/src/policy.rs\<close>. The
  final step calls \<open>url::Host::parse\<close>, which is a parameter \<open>hp\<close> of the model, with
  \<open>None\<close> for a parse error. What the code relies on is \<open>host_parse_law\<close>: IDNA processing of
  a name that is already made of lower-case letter-digit-hyphen labels does not rewrite it.
\<close>

datatype url_host = Domain string | Ipv4 u32 | Ipv6 "128 word"

type_synonym host_parser = "string \<Rightarrow> url_host option"

definition err_exact_dns :: string where
  "err_exact_dns = ''must be an exact DNS hostname''"

definition err_not_ip :: string where
  "err_not_ip = ''must be an exact DNS hostname, not an IP address or wildcard''"

definition err_dns_label :: string where
  "err_dns_label = ''contains an invalid DNS label''"

definition err_valid_dns :: string where
  "err_valid_dns = ''must be a valid exact DNS hostname''"

definition invalid_label :: "string \<Rightarrow> bool" where
  "invalid_label label \<longleftrightarrow> label = [] \<or> length label > 63 \<or> prefix ''-'' label \<or> suffix ''-'' label
     \<or> \<not> list_all (\<lambda>c. is_ascii_alphanumeric c \<or> c = CHR ''-'') label"

definition normalize_dns_name :: "host_parser \<Rightarrow> string \<Rightarrow> string + string" where
  "normalize_dns_name hp input0 =
     (if input0 = [] \<or> CHR ''*'' \<in> set input0 then Inl err_exact_dns
      else
        (let input = to_ascii_lowercase input0;
             host = (case strip_suffix ''.'' input of Some h \<Rightarrow> h | None \<Rightarrow> input) in
         if host = [] \<or> length host > 253 \<or> is_ip_addr host \<or> \<not> list_all is_ascii host
         then Inl err_not_ip
         else if list_ex invalid_label (split_on CHR ''.'' host) then Inl err_dns_label
         else (case hp host of
                 Some (Domain domain) \<Rightarrow> Inr domain
               | Some _ \<Rightarrow> Inl err_not_ip
               | None \<Rightarrow> Inl err_valid_dns)))"

lemmas [eval_simps] = hex_digit_value_def read_octet_def read_given_def read_ipv4_def read_group_def
  read_ipv6_def is_ip_addr_def invalid_label_def

text \<open>Evaluation of closed names that start with a letter that is no hexadecimal digit.\<close>

lemma normalize_dns_name_eval:
  assumes "to_ascii_lowercase s = c # h @ d" "d = [] \<and> suffix ''.'' (c # h) = False \<or> d = ''.''"
    and "s \<noteq> []" "CHR ''*'' \<notin> set s" "hex_digit_value c = None" "c \<noteq> CHR '':''"
    and "length (c # h) \<le> 253" "list_all is_ascii (c # h)"
    and "list_ex invalid_label (split_on CHR ''.'' (c # h)) = False"
  shows "normalize_dns_name hp s =
    (case hp (c # h) of Some (Domain domain) \<Rightarrow> Inr domain | Some _ \<Rightarrow> Inl err_not_ip
     | None \<Rightarrow> Inl err_valid_dns)"
proof -
  have "strip_suffix ''.'' (to_ascii_lowercase s) = (if d = [] then None else Some (c # h))"
    using assms(1,2) by (auto simp: strip_suffix_def suffix_def)
  then have "(case strip_suffix ''.'' (to_ascii_lowercase s) of Some h \<Rightarrow> h
      | None \<Rightarrow> to_ascii_lowercase s) = c # h"
    using assms(1,2) by auto
  then show ?thesis
    using assms(3-) not_ip_first [OF assms(5,6), of h]
    unfolding normalize_dns_name_def Let_def by simp
qed

subsection \<open>Normal names\<close>

definition dns_name :: "string \<Rightarrow> bool" where
  "dns_name h \<longleftrightarrow> h \<noteq> [] \<and> length h \<le> 253 \<and> \<not> is_ip_addr h \<and>
     (\<forall>c \<in> set h. \<not> is_ascii_uppercase c) \<and> (\<forall>l \<in> set (split_on CHR ''.'' h). \<not> invalid_label l)"

definition host_parse_law :: "host_parser \<Rightarrow> bool" where
  "host_parse_law hp \<longleftrightarrow> (\<forall>h d. dns_name h \<longrightarrow> hp h = Some (Domain d) \<longrightarrow> d = h)"

text \<open>The name \<open>normalize_dns_name\<close> looks at: lower-case, without one final dot.\<close>

definition fold_name :: "string \<Rightarrow> string" where
  "fold_name s = (case strip_suffix ''.'' (to_ascii_lowercase s) of
     Some h \<Rightarrow> h | None \<Rightarrow> to_ascii_lowercase s)"

lemma dns_name_chars:
  assumes "dns_name h" "c \<in> set h"
  shows "is_ascii_digit c \<or> is_ascii_lowercase c \<or> c = CHR ''-'' \<or> c = CHR ''.''"
proof (cases "c = CHR ''.''")
  case False
  have "c \<in> set (join_with CHR ''.'' (split_on CHR ''.'' h))" using assms(2) by simp
  then obtain l where "l \<in> set (split_on CHR ''.'' h)" "c \<in> set l"
    using set_join_with [of "CHR ''.''" "split_on CHR ''.'' h"] False by auto
  with assms show ?thesis
    by (auto simp: dns_name_def invalid_label_def list_all_iff is_ascii_alphanumeric_def)
qed simp

lemma dns_name_no_special:
  assumes "dns_name h"
  shows "CHR ''*'' \<notin> set h" "CHR '':'' \<notin> set h" "CHR ''@'' \<notin> set h" "CHR ''%'' \<notin> set h"
    "CHR ''/'' \<notin> set h" "list_all is_ascii h"
  using dns_name_chars [OF assms] by (force simp: byte_defs byte_def list_all_iff)+

lemma dns_name_no_final_dot: "dns_name h \<Longrightarrow> strip_suffix ''.'' h = None"
proof (rule ccontr)
  assume dn: "dns_name h" and "strip_suffix ''.'' h \<noteq> None"
  then obtain t where "h = t @ ''.''" by (auto simp: strip_suffix_Some_iff)
  then have "[] \<in> set (split_on CHR ''.'' h)" by (simp add: split_on_append)
  with dn show False by (auto simp: dns_name_def invalid_label_def)
qed

lemma dns_name_lower: "dns_name h \<Longrightarrow> to_ascii_lowercase h = h"
  by (rule to_ascii_lowercase_id) (auto simp: dns_name_def)

lemma fold_name_id: "dns_name h \<Longrightarrow> fold_name h = h"
  by (simp add: fold_name_def dns_name_lower dns_name_no_final_dot)

lemma fold_name_lower: "c \<in> set (fold_name s) \<Longrightarrow> \<not> is_ascii_uppercase c"
proof -
  assume "c \<in> set (fold_name s)"
  then have "c \<in> set (to_ascii_lowercase s)"
    by (auto simp: fold_name_def strip_suffix_Some_iff split: option.splits)
  then show ?thesis by (auto simp: to_ascii_lowercase_def)
qed

lemma normalize_dns_name_fold:
  "normalize_dns_name hp s = Inr d \<longleftrightarrow>
     s \<noteq> [] \<and> CHR ''*'' \<notin> set s \<and> dns_name (fold_name s) \<and> hp (fold_name s) = Some (Domain d)"
proof -
  have "list_all is_ascii h"
    if "\<forall>l \<in> set (split_on CHR ''.'' h). \<not> invalid_label l" "dns_name h" for h
    using dns_name_no_special(6) [OF that(2)] .
  then show ?thesis
    using fold_name_lower [of _ s] dns_name_no_special(6) [of "fold_name s"]
    unfolding normalize_dns_name_def Let_def fold_name_def [symmetric]
    by (auto simp: dns_name_def list_ex_iff split: option.splits url_host.splits if_splits)
qed

lemma normalize_dns_name_Inr:
  assumes "host_parse_law hp" "normalize_dns_name hp s = Inr h"
  shows "dns_name h" "fold_name s = h" "hp h = Some (Domain h)" "normalize_dns_name hp h = Inr h"
proof -
  from assms(2) have f: "dns_name (fold_name s)" "hp (fold_name s) = Some (Domain h)"
    by (auto simp: normalize_dns_name_fold)
  with assms(1) show eq: "fold_name s = h" unfolding host_parse_law_def by blast
  with f show dn: "dns_name h" and hp: "hp h = Some (Domain h)" by auto
  from dn have "h \<noteq> []" by (simp add: dns_name_def)
  with dn hp show "normalize_dns_name hp h = Inr h"
    by (simp add: normalize_dns_name_fold fold_name_id dns_name_no_special)
qed

lemma fold_name_lowercase [simp]: "fold_name (to_ascii_lowercase s) = fold_name s"
  by (simp add: fold_name_def split: option.split)

text \<open>
  Names for closed examples, with a host parser that accepts every domain as it is (the
  behaviour of \<open>url::Host::parse\<close> on lower-case letter-digit-hyphen names).
\<close>

definition plain_hosts :: host_parser where
  "plain_hosts h = Some (Domain h)"

lemma plain_hosts_law: "host_parse_law plain_hosts"
  by (simp add: host_parse_law_def plain_hosts_def)

lemma normalize_example [eval_simps]:
  "normalize_dns_name plain_hosts ''Web.COM.'' = Inr ''web.com''"
  "normalize_dns_name plain_hosts ''web.com'' = Inr ''web.com''"
  "normalize_dns_name plain_hosts ''other.net'' = Inr ''other.net''"
proof -
  have "to_ascii_lowercase ''Web.COM.'' = CHR ''w'' # ''eb.com'' @ ''.''" by (simp add: eval_simps)
  then show "normalize_dns_name plain_hosts ''Web.COM.'' = Inr ''web.com''"
    by (subst normalize_dns_name_eval [where d = "''.''"]) (simp_all add: eval_simps plain_hosts_def)
  have "to_ascii_lowercase ''web.com'' = CHR ''w'' # ''eb.com'' @ []" by (simp add: eval_simps)
  then show "normalize_dns_name plain_hosts ''web.com'' = Inr ''web.com''"
    by (subst normalize_dns_name_eval [where d = "[]"]) (simp_all add: eval_simps plain_hosts_def)
  have "to_ascii_lowercase ''other.net'' = CHR ''o'' # ''ther.net'' @ []" by (simp add: eval_simps)
  then show "normalize_dns_name plain_hosts ''other.net'' = Inr ''other.net''"
    by (subst normalize_dns_name_eval [where d = "[]"]) (simp_all add: eval_simps plain_hosts_def)
qed

lemma dns_name_example: "dns_name ''web.com''" "dns_name ''other.net''"
  using normalize_dns_name_Inr(1) [OF plain_hosts_law] normalize_example by blast+

subsection \<open>Properties\<close>

text \<open>
  C33. A normalised hostname is in normal form: a lower-case name of at most 253 bytes with
  valid labels that is no IP address literal, equal to the input up to ASCII case and one
  final dot, and normalising it again returns it.
\<close>

theorem normalize_dns_name_normal_form:
  assumes "host_parse_law hp" and "normalize_dns_name hp s = Inr h"
  shows "dns_name h \<and> normalize_dns_name hp h = Inr h \<and>
    (to_ascii_lowercase s = h \<or> to_ascii_lowercase s = h @ ''.'')"
  using normalize_dns_name_Inr [OF assms]
  by (auto simp: fold_name_def strip_suffix_Some_iff split: option.splits)

theorem normalize_dns_name_normal_form_witness:
  "host_parse_law plain_hosts \<and>
   normalize_dns_name plain_hosts ''Web.COM.'' = Inr ''web.com'' \<and> dns_name ''web.com''"
  using plain_hosts_law normalize_example(1)
    normalize_dns_name_normal_form [OF plain_hosts_law normalize_example(1)] by blast

end
