(* ===== verification/Session_Validation.thy ===== *)
theory Session_Validation
  imports Client_Types Path_Canon Dns_Name
begin

text \<open>
  Validation of a session policy document: the second half of
  \<open>crates/baffle-client/src/policy.rs\<close>. The document arrives as the raw structures that serde
  fills in (\<open>RawSessionConfig\<close> and the structures below it); the type parameter \<open>'v\<close> stands
  for \<open>toml::Value\<close>, which the code never looks into. A \<open>BTreeMap\<close> is an association list
  with increasing keys. Errors are the message strings of \<open>SessionConfigError\<close>.

  The lemmas show which documents are accepted and that an accepted policy is well formed
  (\<open>wf_session\<close>).
\<close>

subsection \<open>Raw documents\<close>

record raw_header_injection =
  rhi_header :: string
  rhi_secret :: string
  rhi_format :: injection_format
  rhi_username :: "string option"

record raw_named_rule =
  rnr_mode :: "rule_mode option"
  rnr_ports :: "u16 list"
  rnr_paths :: "string list option"
  rnr_inject :: "raw_header_injection list option"

datatype 'v raw_rules = Named "(string \<times> raw_named_rule) list" | Other 'v

record raw_credentials =
  rcr_default_mode :: "credential_mode option"
  rcr_overrides :: "(string \<times> credential_mode) list"

record 'v raw_session_config =
  rsc_version :: "int option"
  rsc_persistent :: bool
  rsc_socket_name :: "string option"
  rsc_unmatched :: "string option"
  rsc_rules :: "'v raw_rules option"
  rsc_credentials :: "raw_credentials option"
  rsc_unsupported_fields :: "(string \<times> 'v) list"

definition default_ports :: "u16 list" where
  "default_ports = [443]"

text \<open>The maps of a raw document are \<open>BTreeMap\<close>s.\<close>

definition raw_wf :: "'v raw_session_config \<Rightarrow> bool" where
  "raw_wf raw \<longleftrightarrow> (\<forall>m. rsc_rules raw = Some (Named m) \<longrightarrow> bt_wf m) \<and>
     (\<forall>c. rsc_credentials raw = Some c \<longrightarrow> bt_wf (rcr_overrides c))"

subsection \<open>Names\<close>

definition SESSION_CONFIG_VERSION :: int where
  "SESSION_CONFIG_VERSION = 2"

definition MAX_SESSION_CONFIG_NAME_BYTES :: nat where
  "MAX_SESSION_CONFIG_NAME_BYTES = 1024"

definition MAX_SESSION_CONFIG_COMPONENT_BYTES :: nat where
  "MAX_SESSION_CONFIG_COMPONENT_BYTES = 255"

text \<open>
  \<open>chars().any(char::is_control)\<close> on UTF-8 bytes: U+0000 to U+001F and U+007F are one byte,
  U+0080 to U+009F are the byte 0xC2 and a byte from 0x80 to 0x9F.
\<close>

fun has_control :: "string \<Rightarrow> bool" where
  "has_control [] = False"
| "has_control [c] = is_ascii_control c"
| "has_control (c # d # s) = (is_ascii_control c \<or>
     (byte c = 0xC2 \<and> 0x80 \<le> byte d \<and> byte d \<le> 0x9F) \<or> has_control (d # s))"

definition validate_session_config_name :: "string \<Rightarrow> string + unit" where
  "validate_session_config_name name =
     (if name = []
         \<or> length name > MAX_SESSION_CONFIG_NAME_BYTES
         \<or> \<not> suffix ''.toml'' name
         \<or> list_ex (\<lambda>c. c = CHR 0x5C \<or> c = CHR '':'') name
         \<or> has_control name
         \<or> list_ex (\<lambda>component. component = [] \<or> component = ''.'' \<or> component = ''..''
             \<or> length component > MAX_SESSION_CONFIG_COMPONENT_BYTES) (split_on CHR ''/'' name)
      then Inl ''session configuration name is invalid''
      else Inr ())"

definition validate_secret_id :: "string \<Rightarrow> string + unit" where
  "validate_secret_id input =
     (if input = []
         \<or> length input > 64
         \<or> \<not> list_all (\<lambda>c. is_ascii_alphanumeric c \<or> c = CHR ''.'' \<or> c = CHR ''_'' \<or> c = CHR ''-'') input
         \<or> \<not> is_ascii_alphanumeric (hd input)
         \<or> last input = CHR ''.'' \<or> last input = CHR ''-'' \<or> last input = CHR ''_''
         \<or> sublist ''..'' input
      then Inl ''must be a valid symbolic secret identifier''
      else Inr ())"

definition validate_secret_name :: "string \<Rightarrow> string + unit" where
  "validate_secret_name input = validate_secret_id input"

definition validate_basic_username :: "string \<Rightarrow> string + unit" where
  "validate_basic_username input =
     (if input = [] \<or> CHR '':'' \<in> set input
         \<or> \<not> list_all (\<lambda>c. byte (CHR '' '') \<le> byte c \<and> byte c \<le> byte (CHR ''~'')) input
      then Inl ''must be printable ASCII and must not contain a colon''
      else Inr ())"

definition PROHIBITED :: "string list" where
  "PROHIBITED = [''connection'', ''content-length'', ''forwarded'', ''host'', ''http2-settings'',
     ''keep-alive'', ''proxy-authenticate'', ''proxy-authorization'', ''proxy-connection'', ''te'',
     ''trailer'', ''transfer-encoding'', ''upgrade'', ''x-forwarded-for'', ''x-forwarded-host'',
     ''x-forwarded-port'', ''x-forwarded-proto'', ''x-original-host'', ''x-original-url'',
     ''x-real-ip'', ''x-rewrite-url'']"

text \<open>The token characters \<open>!#$%&'*+-.^_`|~\<close> beside letters and digits.\<close>

definition is_token_char :: "char \<Rightarrow> bool" where
  "is_token_char c \<longleftrightarrow> is_ascii_alphanumeric c \<or>
     c \<in> set [CHR ''!'', CHR ''#'', CHR ''$'', CHR ''%'', CHR ''&'', CHR 0x27, CHR ''*'', CHR ''+'',
       CHR ''-'', CHR ''.'', CHR ''^'', CHR ''_'', CHR 0x60, CHR ''|'', CHR ''~'']"

definition validate_header :: "string \<Rightarrow> string + string" where
  "validate_header input =
     (if input = [] \<or> \<not> list_all is_token_char input then Inl ''must be a valid HTTP header name''
      else if to_ascii_lowercase input \<in> set PROHIBITED
      then Inl ''is a hop-by-hop or routing-critical header''
      else Inr input)"

definition validate_socket_name :: "string \<Rightarrow> string + string" where
  "validate_socket_name input =
     (if input = [] \<or> prefix ''/'' input \<or> CHR 0x5C \<in> set input \<or> CHR 0x00 \<in> set input
      then Inl ''socket_name must be a relative Unix socket path''
      else if list_ex (\<lambda>component. component = [] \<or> component = ''.'' \<or> component = ''..'')
          (split_on CHR ''/'' input)
      then Inl ''socket_name must not contain empty, dot, or parent components''
      else if length input > 107 then Inl ''socket_name is too long''
      else Inr input)"

subsection \<open>Rules\<close>

fun check_ports :: "string \<Rightarrow> u16 list \<Rightarrow> u16 list \<Rightarrow> string + unit" where
  "check_ports context unique_ports [] = Inr ()"
| "check_ports context unique_ports (port # ports) =
     (if port = 0 then Inl (context @ ''.ports entries must be between 1 and 65535'')
      else if port \<in> set unique_ports then Inl (context @ ''.ports contains a duplicate'')
      else check_ports context (port # unique_ports) ports)"

fun check_paths :: "string \<Rightarrow> nat \<Rightarrow> string list \<Rightarrow> string list \<Rightarrow> string + string list" where
  "check_paths context index paths [] = Inr paths"
| "check_paths context index paths (raw_path # raw_paths) =
     and_then (map_err (\<lambda>message. context @ ''.paths['' @ nat_to_string index @ ''] '' @ message)
         (validate_path raw_path)) (\<lambda>path.
       if list_ex (\<lambda>existing. paths_overlap existing path) paths
       then Inl (context @ ''.paths contains duplicate or overlapping patterns'')
       else check_paths context (Suc index) (paths @ [path]) raw_paths)"

definition check_username :: "string \<Rightarrow> header_injection \<Rightarrow> string + unit" where
  "check_username injection_context injection =
     (case (hi_format injection, hi_username injection) of
        (BasicPassword, Some username) \<Rightarrow>
          map_err (\<lambda>message. injection_context @ ''.username '' @ message)
            (validate_basic_username username)
      | (BasicPassword, None) \<Rightarrow>
          Inl (injection_context @ ''.username is required for basic_password'')
      | (_, Some _) \<Rightarrow> Inl (injection_context @ ''.username is only valid for basic_password'')
      | (_, None) \<Rightarrow> Inr ())"

fun check_injections ::
  "string \<Rightarrow> nat \<Rightarrow> string list \<Rightarrow> header_injection list \<Rightarrow> string + header_injection list" where
  "check_injections context index headers [] = Inr []"
| "check_injections context index headers (injection # rest) =
     (let injection_context = context @ ''.inject['' @ nat_to_string index @ '']'' in
      and_then (map_err (\<lambda>message. injection_context @ ''.header '' @ message)
          (validate_header (hi_header injection))) (\<lambda>header.
        if to_ascii_lowercase header \<in> set headers
        then Inl (injection_context @ ''.header duplicates another injected header'')
        else
          and_then (map_err (\<lambda>message. injection_context @ ''.secret '' @ message)
              (validate_secret_id (hi_secret injection))) (\<lambda>_.
          and_then (check_username injection_context injection) (\<lambda>_.
          and_then (check_injections context (Suc index) (to_ascii_lowercase header # headers) rest)
            (\<lambda>checked. Inr (injection\<lparr>hi_header := header\<rparr> # checked))))))"

definition validate_rule :: "host_rule \<Rightarrow> string \<Rightarrow> bool \<Rightarrow> string + host_rule" where
  "validate_rule rule context has_intercept_features =
     and_then (ensure (hr_ports rule \<noteq> []) (context @ ''.ports must not be empty'')) (\<lambda>_.
     and_then (check_ports context [] (hr_ports rule)) (\<lambda>_.
     and_then (ensure (\<not> (hr_mode rule = TunnelMode \<and> has_intercept_features))
         (context @ '' tunnel rules cannot use paths or inject headers'')) (\<lambda>_.
     and_then (check_paths context 0 [] (hr_paths rule)) (\<lambda>paths.
     and_then (check_injections context 0 [] (hr_inject rule)) (\<lambda>inject.
     Inr (rule\<lparr>hr_paths := paths, hr_inject := inject\<rparr>))))))"

definition raw_injection :: "raw_header_injection \<Rightarrow> header_injection" where
  "raw_injection raw = \<lparr>hi_header = rhi_header raw, hi_secret = rhi_secret raw,
     hi_format = rhi_format raw, hi_username = rhi_username raw\<rparr>"

fun validate_named_rules_from ::
  "host_parser \<Rightarrow> nat \<Rightarrow> string list \<Rightarrow> (string \<times> raw_named_rule) list \<Rightarrow> string + host_rule list" where
  "validate_named_rules_from hp index hosts [] = Inr []"
| "validate_named_rules_from hp index hosts ((raw_host, raw) # raw_rules) =
     (let context = ''rules['' @ nat_to_string index @ '']'' in
      and_then (map_err (\<lambda>message. context @ ''.host '' @ message)
          (normalize_dns_name hp raw_host)) (\<lambda>host.
        if host \<in> set hosts
        then Inl (context @ ''.host duplicates another rule; use one rule per exact host'')
        else
          (let has_intercept_features = (rnr_paths raw \<noteq> None \<or> rnr_inject raw \<noteq> None);
               mode = (case rnr_mode raw of Some m \<Rightarrow> m
                 | None \<Rightarrow> if has_intercept_features then InterceptMode else TunnelMode);
               paths = (case rnr_paths raw of Some ps \<Rightarrow> ps | None \<Rightarrow> []);
               inject = map raw_injection (case rnr_inject raw of Some is \<Rightarrow> is | None \<Rightarrow> []) in
           and_then (validate_rule \<lparr>hr_host = host, hr_mode = mode, hr_ports = rnr_ports raw,
               hr_paths = paths, hr_inject = inject\<rparr> context has_intercept_features) (\<lambda>rule.
           and_then (validate_named_rules_from hp (Suc index) (host # hosts) raw_rules) (\<lambda>rules.
           Inr (rule # rules))))))"

definition validate_named_rules ::
  "host_parser \<Rightarrow> (string \<times> raw_named_rule) list \<Rightarrow> string + host_rule list" where
  "validate_named_rules hp raw_rules = validate_named_rules_from hp 0 [] raw_rules"

subsection \<open>Credentials and the document\<close>

fun check_overrides :: "(string \<times> credential_mode) list \<Rightarrow> (string \<times> credential_mode) list \<Rightarrow>
    string + (string \<times> credential_mode) list" where
  "check_overrides modes [] = Inr modes"
| "check_overrides modes ((name, mode) # rest) =
     and_then (map_err (\<lambda>_. ''credentials contains an invalid secret identifier'')
         (validate_secret_id name)) (\<lambda>_.
       if map_of modes name \<noteq> None
       then Inl ''credentials contains a duplicate secret identifier''
       else check_overrides (bt_insert name mode modes) rest)"

definition validate_credentials :: "raw_credentials option \<Rightarrow>
    string + credential_mode option \<times> (string \<times> credential_mode) list" where
  "validate_credentials raw =
     (case raw of
        None \<Rightarrow> Inr (None, [])
      | Some r \<Rightarrow> and_then (check_overrides [] (rcr_overrides r)) (\<lambda>modes.
          Inr (rcr_default_mode r, modes)))"

definition invalid_session_file :: string where
  "invalid_session_file =
     ''invalid version 2 session configuration field or value (values omitted)''"

definition validate_session_document ::
  "host_parser \<Rightarrow> 'v raw_session_config \<Rightarrow> string + session_config" where
  "validate_session_document hp raw =
     and_then (case rsc_version raw of
         Some version \<Rightarrow> ensure (version = SESSION_CONFIG_VERSION)
           ''unsupported session configuration version; expected version = 2''
       | None \<Rightarrow> Inl ''session configuration must declare version = 2'') (\<lambda>_.
     and_then (ensure (rsc_unsupported_fields raw = []) invalid_session_file) (\<lambda>_.
     and_then (case rsc_unmatched raw of
         None \<Rightarrow> Inr Deny
       | Some u \<Rightarrow> if u = ''deny'' then Inr Deny
           else if u = ''tunnel'' then Inr Tunnel
           else Inl ''unmatched must be \"deny\" or \"tunnel\"'') (\<lambda>unmatched.
     and_then (case rsc_rules raw of
         Some (Named rules) \<Rightarrow> Inr rules
       | Some (Other _) \<Rightarrow> Inl invalid_session_file
       | None \<Rightarrow> Inr []) (\<lambda>raw_rules.
     and_then (validate_named_rules hp raw_rules) (\<lambda>rules.
     and_then (transpose_opt validate_socket_name (rsc_socket_name raw)) (\<lambda>socket_name.
     and_then (validate_credentials (rsc_credentials raw)) (\<lambda>(default_mode, modes).
     Inr \<lparr>sc_persistent = rsc_persistent raw, sc_socket_name = socket_name,
       sc_unmatched = unmatched, sc_default_credential_mode = default_mode,
       sc_credential_modes = modes, sc_rules = rules\<rparr>)))))))"

text \<open>
  \<open>SessionConfig::from_toml\<close>: \<open>toml\<close> is \<open>toml::from_str::<RawSessionConfig>\<close>, with \<open>None\<close>
  for a syntax or type error.
\<close>

definition from_toml ::
  "(string \<Rightarrow> 'v raw_session_config option) \<Rightarrow> host_parser \<Rightarrow> string \<Rightarrow> string + session_config" where
  "from_toml toml hp input =
     and_then (ok_or ''invalid session configuration TOML syntax or value (values omitted)''
       (toml input)) (validate_session_document hp)"

lemmas [eval_simps] = validate_session_config_name_def MAX_SESSION_CONFIG_NAME_BYTES_def
  MAX_SESSION_CONFIG_COMPONENT_BYTES_def validate_secret_id_def validate_basic_username_def
  PROHIBITED_def is_token_char_def validate_header_def validate_socket_name_def check_username_def
  validate_rule_def validate_named_rules_def validate_credentials_def
  validate_session_document_def SESSION_CONFIG_VERSION_def

subsection \<open>What each check accepts\<close>

definition valid_secret_id :: "string \<Rightarrow> bool" where
  "valid_secret_id s \<longleftrightarrow> validate_secret_id s = Inr ()"

definition valid_injection :: "header_injection \<Rightarrow> bool" where
  "valid_injection i \<longleftrightarrow> validate_header (hi_header i) = Inr (hi_header i) \<and>
     valid_secret_id (hi_secret i) \<and>
     (case hi_username i of
        None \<Rightarrow> hi_format i \<noteq> BasicPassword
      | Some u \<Rightarrow> hi_format i = BasicPassword \<and> validate_basic_username u = Inr ())"

abbreviation disjoint_paths :: "string list \<Rightarrow> bool" where
  "disjoint_paths \<equiv> sorted_wrt (\<lambda>a b. \<not> paths_overlap a b)"

abbreviation header_key :: "header_injection \<Rightarrow> string" where
  "header_key i \<equiv> to_ascii_lowercase (hi_header i)"

definition valid_ports :: "u16 list \<Rightarrow> bool" where
  "valid_ports ports \<longleftrightarrow> ports \<noteq> [] \<and> distinct ports \<and> 0 \<notin> set ports"

definition wf_rule :: "host_rule \<Rightarrow> bool" where
  "wf_rule r \<longleftrightarrow> dns_name (hr_host r) \<and> valid_ports (hr_ports r) \<and>
     (hr_mode r = TunnelMode \<longrightarrow> hr_paths r = [] \<and> hr_inject r = []) \<and>
     (\<forall>p \<in> set (hr_paths r). validate_path p = Inr p) \<and> disjoint_paths (hr_paths r) \<and>
     (\<forall>i \<in> set (hr_inject r). valid_injection i) \<and> distinct (map header_key (hr_inject r))"

definition wf_session :: "session_config \<Rightarrow> bool" where
  "wf_session c \<longleftrightarrow> (\<forall>r \<in> set (sc_rules c). wf_rule r) \<and> distinct (map hr_host (sc_rules c)) \<and>
     (\<forall>n. sc_socket_name c = Some n \<longrightarrow> validate_socket_name n = Inr n) \<and>
     bt_wf (sc_credential_modes c) \<and> (\<forall>(s, m) \<in> set (sc_credential_modes c). valid_secret_id s)"

lemma check_ports_Inr [result_simps]:
  "check_ports context seen ports = Inr u \<longleftrightarrow>
     distinct ports \<and> 0 \<notin> set ports \<and> set ports \<inter> set seen = {}"
  by (induction ports arbitrary: seen) auto

lemma check_paths_Inr:
  "check_paths context index acc raw = Inr out \<longleftrightarrow>
     (\<exists>ps. out = acc @ ps \<and> list_all2 (\<lambda>r p. validate_path r = Inr p) raw ps \<and>
       disjoint_paths ps \<and> (\<forall>a \<in> set acc. \<forall>b \<in> set ps. \<not> paths_overlap a b))"
proof (induction raw arbitrary: index acc)
  case (Cons r raw)
  show ?case
  proof (cases "validate_path r")
    case (Inr p)
    have "(\<exists>ps. out = acc @ p # ps \<and> Q ps) \<longleftrightarrow> (\<exists>ps. out = acc @ ps \<and> (\<exists>qs. ps = p # qs \<and> Q qs))" for Q
      by auto
    with Inr Cons show ?thesis
      by (auto simp: list_all2_Cons1 list_ex_iff)
  qed (simp add: list_all2_Cons1)
qed auto

lemma check_username_Inr [result_simps]:
  "check_username context i = Inr u \<longleftrightarrow>
     (case hi_username i of
        None \<Rightarrow> hi_format i \<noteq> BasicPassword
      | Some u \<Rightarrow> hi_format i = BasicPassword \<and> validate_basic_username u = Inr ())"
  by (cases "hi_format i") (auto simp: check_username_def result_simps split: option.split)

lemma validate_header_Inr:
  "validate_header h = Inr h' \<longleftrightarrow> h' = h \<and> h \<noteq> [] \<and> list_all is_token_char h \<and>
     to_ascii_lowercase h \<notin> set PROHIBITED"
  by (auto simp: validate_header_def)

lemma check_injections_Inr [result_simps]:
  "check_injections context index seen is = Inr out \<longleftrightarrow>
     out = is \<and> (\<forall>i \<in> set is. valid_injection i) \<and> distinct (map header_key is) \<and>
     header_key ` set is \<inter> set seen = {}"
proof (induction "is" arbitrary: index seen out)
  case (Cons i "is")
  show ?case
  proof (cases "validate_header (hi_header i)")
    case (Inr h)
    then have "h = hi_header i" by (simp add: validate_header_Inr)
    with Inr Cons show ?thesis
      by (auto simp: Let_def result_simps valid_injection_def valid_secret_id_def)
  qed (auto simp: Let_def valid_injection_def)
qed auto

lemma validate_rule_Inr:
  "validate_rule r context features = Inr r' \<longleftrightarrow>
     valid_ports (hr_ports r) \<and> \<not> (hr_mode r = TunnelMode \<and> features) \<and>
     (\<exists>ps. list_all2 (\<lambda>p q. validate_path p = Inr q) (hr_paths r) ps \<and> disjoint_paths ps \<and>
        r' = r\<lparr>hr_paths := ps\<rparr>) \<and>
     (\<forall>i \<in> set (hr_inject r). valid_injection i) \<and> distinct (map header_key (hr_inject r))"
  by (auto simp: validate_rule_def result_simps check_paths_Inr valid_ports_def)

text \<open>A well-formed rule passes validation unchanged.\<close>

lemma validate_rule_wf:
  assumes "wf_rule r" "features \<longrightarrow> hr_mode r = InterceptMode"
  shows "validate_rule r context features = Inr r"
  using assms unfolding validate_rule_Inr wf_rule_def
  by (auto intro!: exI [of _ "hr_paths r"] simp: list_all2_same)

lemma validate_rule_makes_wf:
  assumes "validate_rule r context features = Inr r'" "dns_name (hr_host r)"
    and "hr_paths r \<noteq> [] \<or> hr_inject r \<noteq> [] \<longrightarrow> features"
  shows "wf_rule r'" "hr_host r' = hr_host r"
proof -
  from assms(1) obtain ps where ps: "list_all2 (\<lambda>p q. validate_path p = Inr q) (hr_paths r) ps"
    "disjoint_paths ps" "r' = r\<lparr>hr_paths := ps\<rparr>"
    by (auto simp: validate_rule_Inr)
  from ps(1) have "\<forall>p \<in> set ps. validate_path p = Inr p"
    by (induction rule: list_all2_induct) (auto dest: validate_path_fixpoint)
  moreover have "valid_ports (hr_ports r)" "\<not> (hr_mode r = TunnelMode \<and> features)"
    "\<forall>i \<in> set (hr_inject r). valid_injection i" "distinct (map header_key (hr_inject r))"
    using assms(1) by (auto simp: validate_rule_Inr)
  ultimately show "wf_rule r'" "hr_host r' = hr_host r"
    using ps assms(2,3) by (auto simp: wf_rule_def)
qed

text \<open>The rule that one entry of the \<open>rules\<close> table describes, before validation.\<close>

definition raw_features :: "raw_named_rule \<Rightarrow> bool" where
  "raw_features raw \<longleftrightarrow> rnr_paths raw \<noteq> None \<or> rnr_inject raw \<noteq> None"

definition raw_rule :: "string \<Rightarrow> raw_named_rule \<Rightarrow> host_rule" where
  "raw_rule host raw = \<lparr>hr_host = host,
     hr_mode = (case rnr_mode raw of Some m \<Rightarrow> m
       | None \<Rightarrow> if raw_features raw then InterceptMode else TunnelMode),
     hr_ports = rnr_ports raw,
     hr_paths = (case rnr_paths raw of Some ps \<Rightarrow> ps | None \<Rightarrow> []),
     hr_inject = map raw_injection (case rnr_inject raw of Some is \<Rightarrow> is | None \<Rightarrow> [])\<rparr>"

lemma validate_named_rules_Cons:
  "validate_named_rules_from hp index hosts ((raw_host, raw) # raws) = Inr rules \<longleftrightarrow>
     (\<exists>host rule rest. normalize_dns_name hp raw_host = Inr host \<and> host \<notin> set hosts \<and>
        validate_rule (raw_rule host raw) (''rules['' @ nat_to_string index @ '']'')
          (raw_features raw) = Inr rule \<and>
        validate_named_rules_from hp (Suc index) (host # hosts) raws = Inr rest \<and>
        rules = rule # rest)"
  by (auto simp: Let_def raw_rule_def raw_features_def result_simps)

lemma raw_rule_features: "hr_paths (raw_rule h raw) \<noteq> [] \<or> hr_inject (raw_rule h raw) \<noteq> [] \<Longrightarrow>
   raw_features raw"
  by (auto simp: raw_rule_def raw_features_def split: option.splits)

lemma validate_named_rules_from_wf:
  assumes "host_parse_law hp" "validate_named_rules_from hp index hosts raws = Inr rules"
  shows "(\<forall>r \<in> set rules. wf_rule r) \<and> distinct (map hr_host rules) \<and>
    hr_host ` set rules \<inter> set hosts = {}"
  using assms(2)
proof (induction raws arbitrary: index hosts rules)
  case (Cons entry raws)
  obtain raw_host raw where "entry = (raw_host, raw)" by fastforce
  with Cons.prems obtain host rule rest where
    step: "normalize_dns_name hp raw_host = Inr host" "host \<notin> set hosts"
      "validate_rule (raw_rule host raw) (''rules['' @ nat_to_string index @ '']'')
         (raw_features raw) = Inr rule"
      "validate_named_rules_from hp (Suc index) (host # hosts) raws = Inr rest"
      "rules = rule # rest"
    by (auto simp only: validate_named_rules_Cons)
  have "dns_name (hr_host (raw_rule host raw))" "hr_host (raw_rule host raw) = host"
    using normalize_dns_name_Inr(1) [OF assms(1) step(1)] by (auto simp: raw_rule_def)
  then have "wf_rule rule" "hr_host rule = host"
    using validate_rule_makes_wf [OF step(3)] raw_rule_features by auto
  with Cons.IH [OF step(4)] step(2,5) show ?case by auto
qed simp

lemma check_overrides_Inr:
  assumes "bt_wf modes"
  shows "check_overrides modes raw = Inr out \<longleftrightarrow>
     (\<forall>(s, m) \<in> set raw. valid_secret_id s) \<and> distinct (map fst raw) \<and>
     set (map fst raw) \<inter> dom (map_of modes) = {} \<and>
     out = fold (\<lambda>(k, v). bt_insert k v) raw modes"
  using assms
proof (induction raw arbitrary: modes)
  case (Cons entry raw)
  obtain name mode where "entry = (name, mode)" by fastforce
  moreover have "dom (map_of (bt_insert name mode modes)) = insert name (dom (map_of modes))"
    using Cons.prems by (simp add: bt_insert_lookup)
  moreover have "bt_wf (bt_insert name mode modes)" using Cons.prems by (rule bt_insert_wf)
  ultimately show ?case
    using Cons.IH [of "bt_insert name mode modes"]
    by (auto simp: result_simps valid_secret_id_def)
qed auto

lemma validate_credentials_Inr:
  "validate_credentials raw = Inr (d, modes) \<longleftrightarrow>
     (case raw of None \<Rightarrow> d = None \<and> modes = []
      | Some r \<Rightarrow> d = rcr_default_mode r \<and> modes = bt_collect (rcr_overrides r) \<and>
          (\<forall>(s, m) \<in> set (rcr_overrides r). valid_secret_id s) \<and> distinct (map fst (rcr_overrides r)))"
  by (auto simp: validate_credentials_def result_simps check_overrides_Inr bt_collect_def
      split: option.split)

lemma set_bt_collect: "distinct (map fst kvs) \<Longrightarrow> set (bt_collect kvs) = set kvs"
proof -
  assume d: "distinct (map fst kvs)"
  have "map_of (bt_collect kvs) = map_of kvs"
    using d by (simp add: bt_collect_lookup map_of_inject_set [of "rev kvs" kvs] rev_map [symmetric])
  then show ?thesis
    using d btree.wf_distinct [OF bt_collect_wf, of kvs] map_of_inject_set by blast
qed

lemma unmatched_text_Inr:
  "(case u of None \<Rightarrow> Inr Deny
     | Some u \<Rightarrow> if u = ''deny'' then Inr Deny else if u = ''tunnel'' then Inr Tunnel else Inl e) = Inr m \<longleftrightarrow>
   u \<in> (case m of Tunnel \<Rightarrow> {Some ''tunnel''} | Deny \<Rightarrow> {None, Some ''deny''})"
  by (cases m) (auto split: option.splits)

lemma version_Inr:
  "(case v of Some version \<Rightarrow> ensure (version = n) e | None \<Rightarrow> Inl e') = Inr u \<longleftrightarrow> v = Some n"
  by (auto simp: ensure_Inr_iff split: option.split)

lemma rules_table_Inr:
  "(case r of Some (Named rules) \<Rightarrow> Inr rules | Some (Other _) \<Rightarrow> Inl e | None \<Rightarrow> Inr []) = Inr raws \<longleftrightarrow>
     r = Some (Named raws) \<or> r = None \<and> raws = []"
  by (auto split: option.split raw_rules.split)

lemma validate_session_document_Inr:
  "validate_session_document hp raw = Inr c \<longleftrightarrow>
     rsc_version raw = Some SESSION_CONFIG_VERSION \<and> rsc_unsupported_fields raw = [] \<and>
     rsc_unmatched raw \<in> (case sc_unmatched c of Tunnel \<Rightarrow> {Some ''tunnel''} | Deny \<Rightarrow> {None, Some ''deny''}) \<and>
     (\<exists>raws. validate_named_rules hp raws = Inr (sc_rules c) \<and>
        (rsc_rules raw = Some (Named raws) \<or> rsc_rules raw = None \<and> raws = [])) \<and>
     transpose_opt validate_socket_name (rsc_socket_name raw) = Inr (sc_socket_name c) \<and>
     validate_credentials (rsc_credentials raw) =
       Inr (sc_default_credential_mode c, sc_credential_modes c) \<and>
     sc_persistent c = rsc_persistent raw"
  by (cases c)
    (auto simp: validate_session_document_def and_then_Inr_iff ensure_Inr_iff unmatched_text_Inr
      version_Inr rules_table_Inr)

lemma validate_session_document_makes_wf:
  assumes "host_parse_law hp" "validate_session_document hp raw = Inr c"
  shows "wf_session c"
proof -
  from assms(2) obtain raws where
    acc: "validate_named_rules hp raws = Inr (sc_rules c)"
      "transpose_opt validate_socket_name (rsc_socket_name raw) = Inr (sc_socket_name c)"
      "validate_credentials (rsc_credentials raw) =
         Inr (sc_default_credential_mode c, sc_credential_modes c)"
    unfolding validate_session_document_Inr by blast
  have "\<forall>n. sc_socket_name c = Some n \<longrightarrow> validate_socket_name n = Inr n"
    using acc(2) by (auto simp: result_simps validate_socket_name_def split: option.splits if_splits)
  moreover have "bt_wf (sc_credential_modes c) \<and>
      (\<forall>(s, m) \<in> set (sc_credential_modes c). valid_secret_id s)"
    using acc(3) by (auto simp: validate_credentials_Inr bt_collect_wf set_bt_collect
        split: option.splits)
  ultimately show ?thesis
    using validate_named_rules_from_wf [OF assms(1) acc(1) [unfolded validate_named_rules_def]]
    by (simp add: wf_session_def)
qed

lemma validate_named_rules_from_all2:
  "validate_named_rules_from hp index hosts raws = Inr rules \<Longrightarrow>
   list_all2 (\<lambda>(raw_host, raw) r. normalize_dns_name hp raw_host = Inr (hr_host r) \<and>
     hr_ports r = rnr_ports raw \<and> hr_mode r = hr_mode (raw_rule raw_host raw) \<and>
     hr_inject r = hr_inject (raw_rule raw_host raw)) raws rules"
proof (induction raws arbitrary: index hosts rules)
  case (Cons entry raws)
  obtain raw_host raw where "entry = (raw_host, raw)" by fastforce
  with Cons show ?case
    by (auto simp: validate_named_rules_Cons validate_rule_Inr raw_rule_def
        simp del: validate_named_rules_from.simps)
qed simp

subsection \<open>Properties\<close>


definition example_raw :: "unit raw_session_config" where
  "example_raw = \<lparr>rsc_version = Some 2, rsc_persistent = True, rsc_socket_name = Some ''a/b.sock'',
     rsc_unmatched = None,
     rsc_rules = Some (Named [
       (''Web.COM.'', \<lparr>rnr_mode = None, rnr_ports = [443, 8443],
          rnr_paths = Some [''/v1/%7Ea/**'', ''/v2''],
          rnr_inject = Some [\<lparr>rhi_header = ''Authorization'', rhi_secret = ''api.token'',
            rhi_format = Bearer, rhi_username = None\<rparr>]\<rparr>),
       (''other.net'', \<lparr>rnr_mode = None, rnr_ports = default_ports, rnr_paths = None, rnr_inject = None\<rparr>)]),
     rsc_credentials = Some \<lparr>rcr_default_mode = Some Substitute,
       rcr_overrides = [(''api.token'', Inject)]\<rparr>,
     rsc_unsupported_fields = []\<rparr>"

definition example_session :: session_config where
  "example_session = \<lparr>sc_persistent = True, sc_socket_name = Some ''a/b.sock'', sc_unmatched = Deny,
     sc_default_credential_mode = Some Substitute, sc_credential_modes = [(''api.token'', Inject)],
     sc_rules = [
       \<lparr>hr_host = ''web.com'', hr_mode = InterceptMode, hr_ports = [443, 8443],
         hr_paths = [''/v1/~a/**'', ''/v2''],
         hr_inject = [\<lparr>hi_header = ''Authorization'', hi_secret = ''api.token'', hi_format = Bearer,
           hi_username = None\<rparr>]\<rparr>,
       \<lparr>hr_host = ''other.net'', hr_mode = TunnelMode, hr_ports = [443], hr_paths = [], hr_inject = []\<rparr>]\<rparr>"

lemma example_paths: "validate_path ''/v1/%7Ea/**'' = Inr ''/v1/~a/**''"
  "validate_path ''/v2'' = Inr ''/v2''" "\<not> paths_overlap ''/v1/~a/**'' ''/v2''"
  by (simp_all add: eval_simps)

lemma example_header: "validate_header ''Authorization'' = Inr ''Authorization''"
  "validate_secret_id ''api.token'' = Inr ()"
  by (simp_all add: eval_simps)

lemma example_document: "validate_session_document plain_hosts example_raw = Inr example_session"
proof -
  have "validate_socket_name ''a/b.sock'' = Inr ''a/b.sock''" by (simp add: eval_simps)
  then show ?thesis
    using example_paths example_header
    by (simp add: example_raw_def example_session_def validate_session_document_def
        validate_named_rules_def validate_rule_def normalize_example SESSION_CONFIG_VERSION_def
        validate_credentials_def check_username_def raw_injection_def default_ports_def)
qed


end
