(* ===== verification/Request_Policy.thy ===== *)
theory Request_Policy
  imports Session_Validation
begin

text \<open>
  The authorisation policy of one proxy session (\<open>src/policy.rs\<close>) and the derivation of fake
  credentials (\<open>src/credentials.rs\<close>). \<open>session_policy_compile\<close> turns a validated session
  configuration into the lookup structure; the other operations decide CONNECT targets, TLS
  interception and decrypted requests.

  Parameters: \<open>hp\<close> is \<open>url::Host::parse\<close>, \<open>hmac\<close> is HMAC-SHA256 of the \<open>ring\<close> crate as a
  function of key and message, \<open>b64url\<close> is the unpadded URL-safe encoder of the \<open>base64\<close> crate.
\<close>

subsection \<open>Fake credentials\<close>

type_synonym hmac_fun = "string \<Rightarrow> string \<Rightarrow> string"
type_synonym encoder = "string \<Rightarrow> string"

definition DOMAIN_SEPARATOR :: string where
  "DOMAIN_SEPARATOR = ''baffle:credential-substitution:v1'' @ [CHR 0x00]"

definition derive_fake_credential :: "hmac_fun \<Rightarrow> encoder \<Rightarrow> string \<Rightarrow> string \<Rightarrow> string" where
  "derive_fake_credential hmac b64url seed identifier =
     ''baffle_v1_'' @ b64url (hmac seed (DOMAIN_SEPARATOR @ identifier))"

subsection \<open>Data\<close>

datatype authorization_error = InvalidAuthority | Denied

record destination =
  d_host :: string
  d_port :: u16

record request_facts =
  rf_method :: string
  rf_scheme :: "string option"
  rf_uri_authority :: "string option"
  rf_path :: string
  rf_host_headers :: "string list"

record compiled_credential =
  cc_injection :: header_injection
  cc_mode :: credential_mode
  cc_fake_value :: "string option"

record compiled_rule =
  cr_mode :: rule_mode
  cr_ports :: "u16 set"
  cr_paths :: "string list"
  cr_credentials :: "compiled_credential list"

record session_policy =
  sp_rules :: "string \<rightharpoonup> compiled_rule"
  sp_unmatched :: unmatched_host_policy

subsection \<open>Operations\<close>

definition compile_credential ::
  "hmac_fun \<Rightarrow> encoder \<Rightarrow> session_config \<Rightarrow> string \<Rightarrow> header_injection \<Rightarrow> compiled_credential" where
  "compile_credential hmac b64url session seed injection =
     (let mode = effective_credential_mode session (hi_secret injection) in
      \<lparr>cc_injection = injection, cc_mode = mode,
       cc_fake_value = (if mode = Substitute
         then Some (derive_fake_credential hmac b64url seed (hi_secret injection)) else None)\<rparr>)"

definition compile_rule ::
  "hmac_fun \<Rightarrow> encoder \<Rightarrow> session_config \<Rightarrow> string \<Rightarrow> host_rule \<Rightarrow> compiled_rule" where
  "compile_rule hmac b64url session seed rule =
     \<lparr>cr_mode = hr_mode rule, cr_ports = set (hr_ports rule), cr_paths = hr_paths rule,
      cr_credentials = map (compile_credential hmac b64url session seed) (hr_inject rule)\<rparr>"

text \<open>\<open>collect\<close> into a \<open>HashMap\<close>: a later entry replaces an earlier one with the same key.\<close>

definition session_policy_compile ::
  "hmac_fun \<Rightarrow> encoder \<Rightarrow> session_config \<Rightarrow> string \<Rightarrow> session_policy" where
  "session_policy_compile hmac b64url session seed =
     \<lparr>sp_rules = map_of (rev (map (\<lambda>rule. (hr_host rule, compile_rule hmac b64url session seed rule))
         (sc_rules session))),
      sp_unmatched = sc_unmatched session\<rparr>"

definition parse_authority_text ::
  "host_parser \<Rightarrow> string \<Rightarrow> u16 option \<Rightarrow> authorization_error + destination" where
  "parse_authority_text hp authority default_port =
     (if authority = [] \<or> \<not> list_all is_ascii authority
         \<or> list_ex (\<lambda>c. c = CHR ''@'' \<or> c = CHR ''%'') authority
      then Inl InvalidAuthority
      else
        and_then (case split_once CHR '':'' authority of
            Some (host, port) \<Rightarrow>
              if CHR '':'' \<notin> set host
              then and_then (ok_or InvalidAuthority (parse_u16 port)) (\<lambda>p. Inr (host, p))
              else Inl InvalidAuthority
          | None \<Rightarrow> and_then (ok_or InvalidAuthority default_port) (\<lambda>p. Inr (authority, p)))
          (\<lambda>(host, port).
            if port = 0 then Inl InvalidAuthority
            else and_then (map_err (\<lambda>_. InvalidAuthority) (normalize_dns_name hp host)) (\<lambda>host.
              Inr \<lparr>d_host = host, d_port = port\<rparr>)))"

definition validate_host_header_text ::
  "host_parser \<Rightarrow> string list \<Rightarrow> destination \<Rightarrow> authorization_error + unit" where
  "validate_host_header_text hp host_headers destination =
     (if length host_headers > 1 then Inl InvalidAuthority
      else (case host_headers of
          [] \<Rightarrow> Inr ()
        | host # _ \<Rightarrow> and_then (parse_authority_text hp host (Some 443)) (\<lambda>d.
            if d \<noteq> destination then Inl InvalidAuthority else Inr ())))"

definition authorize_connect_authority ::
  "host_parser \<Rightarrow> session_policy \<Rightarrow> string \<Rightarrow> string list \<Rightarrow>
   authorization_error + rule_mode \<times> destination" where
  "authorize_connect_authority hp self authority host_headers =
     and_then (parse_authority_text hp authority (Some 443)) (\<lambda>destination.
     and_then (validate_host_header_text hp host_headers destination) (\<lambda>_.
       case sp_rules self (d_host destination) of
         Some rule \<Rightarrow>
           if d_port destination \<notin> cr_ports rule then Inl Denied
           else Inr (cr_mode rule, destination)
       | None \<Rightarrow>
           if sp_unmatched self = Tunnel \<and> d_port destination = 443
           then Inr (TunnelMode, destination)
           else Inl Denied))"

definition permits_tls_interception_authority ::
  "host_parser \<Rightarrow> session_policy \<Rightarrow> string \<Rightarrow> string option \<Rightarrow> bool" where
  "permits_tls_interception_authority hp self authority server_name =
     (case authorize_connect_authority hp self authority [] of
        Inl _ \<Rightarrow> False
      | Inr (mode, destination) \<Rightarrow>
          (case server_name of
             None \<Rightarrow> False
           | Some name \<Rightarrow>
               (case normalize_dns_name hp name of
                  Inl _ \<Rightarrow> False
                | Inr server_name \<Rightarrow> mode = InterceptMode \<and> server_name = d_host destination)))"

definition canonical_authorized_path ::
  "compiled_rule \<Rightarrow> string \<Rightarrow> authorization_error + string option" where
  "canonical_authorized_path rule path =
     (if cr_paths rule = [] then Inr None
      else and_then (map_err (\<lambda>_. Denied) (canonicalize_request_path path)) (\<lambda>canonical.
        if \<not> list_ex (\<lambda>pattern. matches_path_pattern pattern canonical) (cr_paths rule)
        then Inl Denied else Inr (Some canonical)))"

definition authorize_intercepted_request ::
  "host_parser \<Rightarrow> session_policy \<Rightarrow> request_facts \<Rightarrow> string \<Rightarrow>
   authorization_error + compiled_credential list \<times> string option" where
  "authorize_intercepted_request hp self facts connect_authority =
     (if eq_ignore_ascii_case (rf_method facts) ''CONNECT''
         \<or> (case rf_scheme facts of None \<Rightarrow> False
            | Some scheme \<Rightarrow> \<not> eq_ignore_ascii_case scheme ''https'')
      then Inl InvalidAuthority
      else
        and_then (parse_authority_text hp connect_authority (Some 443)) (\<lambda>connect.
        and_then (transpose_opt (\<lambda>authority. parse_authority_text hp authority (Some 443))
          (rf_uri_authority facts)) (\<lambda>uri_destination.
        and_then (case rf_host_headers facts of
            [] \<Rightarrow> Inr None
          | host # others \<Rightarrow>
              if length (host # others) \<noteq> 1 then Inl InvalidAuthority
              else and_then (parse_authority_text hp host (Some 443)) (\<lambda>d. Inr (Some d)))
          (\<lambda>host_destination.
        if (case uri_destination of None \<Rightarrow> False | Some d \<Rightarrow> d \<noteq> connect)
           \<or> (case host_destination of None \<Rightarrow> False | Some d \<Rightarrow> d \<noteq> connect)
           \<or> (uri_destination = None \<and> host_destination = None)
        then Inl InvalidAuthority
        else
          and_then (ok_or Denied (case sp_rules self (d_host connect) of
              None \<Rightarrow> None
            | Some rule \<Rightarrow> if d_port connect \<in> cr_ports rule then Some rule else None)) (\<lambda>rule.
          and_then (canonical_authorized_path rule (rf_path facts)) (\<lambda>path.
          Inr (cr_credentials rule, path)))))))"

lemmas [eval_simps] = parse_authority_text_def validate_host_header_text_def
  authorize_connect_authority_def permits_tls_interception_authority_def
  canonical_authorized_path_def authorize_intercepted_request_def

subsection \<open>Authorities\<close>

text \<open>The canonical text of a destination, as the proxy prints it.\<close>

definition authority_text :: "destination \<Rightarrow> string" where
  "authority_text d = d_host d @ '':'' @ nat_to_string (unat (d_port d))"

definition wf_destination :: "destination \<Rightarrow> bool" where
  "wf_destination d \<longleftrightarrow> dns_name (d_host d) \<and> d_port d \<noteq> 0"

lemma parse_authority_Inr:
  "parse_authority_text hp a dp = Inr d \<longleftrightarrow>
     a \<noteq> [] \<and> list_all is_ascii a \<and> CHR ''@'' \<notin> set a \<and> CHR ''%'' \<notin> set a \<and> d_port d \<noteq> 0 \<and>
     (case split_once CHR '':'' a of
        None \<Rightarrow> dp = Some (d_port d) \<and> normalize_dns_name hp a = Inr (d_host d)
      | Some (h, p) \<Rightarrow> parse_u16 p = Some (d_port d) \<and> normalize_dns_name hp h = Inr (d_host d))"
  by (cases d) (auto simp: parse_authority_text_def result_simps list_ex_iff split_once_Some
      split: option.split)

lemma parse_authority_wf:
  assumes "host_parse_law hp" "parse_authority_text hp a dp = Inr d"
  shows "wf_destination d" "normalize_dns_name hp (d_host d) = Inr (d_host d)"
proof -
  from assms(2) obtain h where h: "normalize_dns_name hp h = Inr (d_host d)" and "d_port d \<noteq> 0"
    by (auto simp: parse_authority_Inr split: option.splits prod.splits)
  with normalize_dns_name_Inr [OF assms(1) h] show "wf_destination d"
    "normalize_dns_name hp (d_host d) = Inr (d_host d)" by (auto simp: wf_destination_def)
qed

lemma digits_ascii:
  assumes "list_all is_ascii_digit s"
  shows "list_all is_ascii s" "CHR ''@'' \<notin> set s" "CHR ''%'' \<notin> set s" "CHR '':'' \<notin> set s"
  using assms by (auto simp: list_all_iff byte_defs byte_def)

lemma parse_authority_print:
  assumes "normalize_dns_name hp (d_host d) = Inr (d_host d)" "wf_destination d"
  shows "parse_authority_text hp (authority_text d) dp = Inr d"
proof -
  note host = dns_name_no_special [of "d_host d"]
  note port = digits_ascii [OF nat_to_string_digits [of "unat (d_port d)"]]
  have "split_once CHR '':'' (authority_text d) = Some (d_host d, nat_to_string (unat (d_port d)))"
    using assms(2) host by (simp add: authority_text_def wf_destination_def split_once_Some)
  moreover have "list_all is_ascii (authority_text d)"
    using assms(2) host port by (simp add: authority_text_def wf_destination_def is_ascii_def byte_def)
  ultimately show ?thesis
    using assms host port
    by (simp add: parse_authority_Inr parse_u16_to_string wf_destination_def)
      (simp add: authority_text_def)
qed


subsection \<open>Lookup in a compiled policy\<close>

lemma compile_lookup:
  assumes "distinct (map hr_host (sc_rules c))"
  shows "sp_rules (session_policy_compile hmac b64url c seed) h = Some rule \<longleftrightarrow>
    (\<exists>r \<in> set (sc_rules c). hr_host r = h \<and> rule = compile_rule hmac b64url c seed r)"
proof -
  let ?kvs = "map (\<lambda>r. (hr_host r, compile_rule hmac b64url c seed r)) (sc_rules c)"
  have "distinct (map fst (rev ?kvs))" using assms by (simp add: rev_map [symmetric] comp_def)
  then show ?thesis by (auto simp: session_policy_compile_def map_of_eq_Some_iff)
qed

lemma compile_lookup_None:
  "sp_rules (session_policy_compile hmac b64url c seed) h = None \<longleftrightarrow> (\<forall>r \<in> set (sc_rules c). hr_host r \<noteq> h)"
  by (auto simp: session_policy_compile_def map_of_eq_None_iff image_image)

lemma compile_unmatched [simp]: "sp_unmatched (session_policy_compile hmac b64url c seed) = sc_unmatched c"
  by (simp add: session_policy_compile_def)

lemma compile_rule_simps [simp]:
  "cr_mode (compile_rule hmac b64url c seed r) = hr_mode r"
  "cr_ports (compile_rule hmac b64url c seed r) = set (hr_ports r)"
  "cr_paths (compile_rule hmac b64url c seed r) = hr_paths r"
  "cr_credentials (compile_rule hmac b64url c seed r) =
     map (compile_credential hmac b64url c seed) (hr_inject r)"
  by (simp_all add: compile_rule_def)

lemma validate_host_header_Inr [result_simps]:
  "validate_host_header_text hp hs d = Inr u \<longleftrightarrow>
     hs = [] \<or> (\<exists>h. hs = [h] \<and> parse_authority_text hp h (Some 443) = Inr d)"
  by (cases hs) (auto simp: validate_host_header_text_def and_then_Inr_iff)

lemma authorize_connect_Inr:
  "authorize_connect_authority hp policy a hs = Inr (m, d) \<longleftrightarrow>
     parse_authority_text hp a (Some 443) = Inr d \<and> validate_host_header_text hp hs d = Inr () \<and>
     (case sp_rules policy (d_host d) of
        Some rule \<Rightarrow> d_port d \<in> cr_ports rule \<and> m = cr_mode rule
      | None \<Rightarrow> sp_unmatched policy = Tunnel \<and> d_port d = 443 \<and> m = TunnelMode)"
proof (cases "parse_authority_text hp a (Some 443)")
  case (Inr d')
  have v: "validate_host_header_text hp hs d' = Inr () \<or> (\<exists>e. validate_host_header_text hp hs d' = Inl e)"
    by (cases "validate_host_header_text hp hs d'") auto
  show ?thesis
  proof (cases "d' = d")
    case True
    with Inr v show ?thesis
      by (cases "sp_rules policy (d_host d)") (auto simp: authorize_connect_authority_def)
  next
    case False
    with Inr v show ?thesis
      by (cases "sp_rules policy (d_host d')") (auto simp: authorize_connect_authority_def)
  qed
qed (simp add: authorize_connect_authority_def)

lemma canonical_authorized_path_Inr [result_simps]:
  "canonical_authorized_path rule path = Inr out \<longleftrightarrow>
     (case out of None \<Rightarrow> cr_paths rule = []
      | Some c \<Rightarrow> canonicalize_request_path path = Inr c \<and>
          (\<exists>pattern \<in> set (cr_paths rule). matches_path_pattern pattern c))"
  by (cases out) (auto simp: canonical_authorized_path_def and_then_Inr_iff map_err_Inr_iff list_ex_iff)

text \<open>The authorities that one decrypted request names: its URI and its Host headers.\<close>

definition named_authorities :: "request_facts \<Rightarrow> string list" where
  "named_authorities facts =
     (case rf_uri_authority facts of None \<Rightarrow> [] | Some a \<Rightarrow> [a]) @ rf_host_headers facts"

lemma authorize_intercepted_Inr:
  "authorize_intercepted_request hp policy facts a = Inr (creds, path) \<longleftrightarrow>
     \<not> eq_ignore_ascii_case (rf_method facts) ''CONNECT'' \<and>
     (\<forall>scheme. rf_scheme facts = Some scheme \<longrightarrow> eq_ignore_ascii_case scheme ''https'') \<and>
     (\<exists>d rule. parse_authority_text hp a (Some 443) = Inr d \<and>
        named_authorities facts \<noteq> [] \<and> length (rf_host_headers facts) \<le> 1 \<and>
        (\<forall>n \<in> set (named_authorities facts). parse_authority_text hp n (Some 443) = Inr d) \<and>
        sp_rules policy (d_host d) = Some rule \<and> d_port d \<in> cr_ports rule \<and>
        canonical_authorized_path rule (rf_path facts) = Inr path \<and> creds = cr_credentials rule)"
proof -
  have pick: "ok_or Denied (case m of None \<Rightarrow> None | Some r \<Rightarrow> if P r then Some r else None) = Inr r \<longleftrightarrow>
      m = Some r \<and> P r" for m :: "compiled_rule option" and P r
    by (cases m) auto
  have len: "length hs \<le> 1 \<longleftrightarrow> hs = [] \<or> (\<exists>h. hs = [h])" for hs :: "string list"
    by (cases hs) auto
  show ?thesis
    unfolding authorize_intercepted_request_def named_authorities_def len
    by (cases "rf_uri_authority facts"; cases "rf_host_headers facts")
      (auto simp: and_then_Inr_iff pick split: option.splits if_splits)
qed


lemma compile_decision:
  assumes "wf_session c"
  shows "(case sp_rules (session_policy_compile hmac b64url c seed) h of
       Some rule \<Rightarrow> P (cr_mode rule) (cr_ports rule) | None \<Rightarrow> Q) \<longleftrightarrow>
     (\<exists>r \<in> set (sc_rules c). hr_host r = h \<and> P (hr_mode r) (set (hr_ports r))) \<or>
     (\<forall>r \<in> set (sc_rules c). hr_host r \<noteq> h) \<and> Q"
proof (cases "sp_rules (session_policy_compile hmac b64url c seed) h")
  case None
  moreover from None have "\<forall>r \<in> set (sc_rules c). hr_host r \<noteq> h" by (simp only: compile_lookup_None)
  ultimately show ?thesis by simp
next
  case (Some rule)
  have d: "distinct (map hr_host (sc_rules c))" using assms by (simp add: wf_session_def)
  with Some obtain r where "r \<in> set (sc_rules c)" "hr_host r = h"
    "rule = compile_rule hmac b64url c seed r" by (auto simp: compile_lookup)
  with Some d show ?thesis by (auto simp: distinct_map inj_on_def)
qed

subsection \<open>Properties\<close>

text \<open>
  C6. The decision for a CONNECT request is exactly the session configuration: the authority
  and the Host header, if there is one, name one destination; a host with a rule of its own is
  served on the ports of that rule and in its mode, and never falls back; a host without a rule
  is tunnelled on port 443 when the session permits unmatched hosts, and denied otherwise.
\<close>

theorem connect_authorization_exact:
  assumes "wf_session c"
  shows "authorize_connect_authority hp (session_policy_compile hmac b64url c seed) a hs = Inr (m, d) \<longleftrightarrow>
    parse_authority_text hp a (Some 443) = Inr d \<and>
    (hs = [] \<or> (\<exists>h. hs = [h] \<and> parse_authority_text hp h (Some 443) = Inr d)) \<and>
    ((\<exists>r \<in> set (sc_rules c). hr_host r = d_host d \<and> d_port d \<in> set (hr_ports r) \<and> m = hr_mode r) \<or>
     (\<forall>r \<in> set (sc_rules c). hr_host r \<noteq> d_host d) \<and>
       sc_unmatched c = Tunnel \<and> d_port d = 443 \<and> m = TunnelMode)"
  unfolding authorize_connect_Inr compile_decision [OF assms, where P = "\<lambda>mo ps. d_port d \<in> ps \<and> m = mo"]
  by (simp add: validate_host_header_Inr)

lemma example_wf: "wf_session example_session"
  by (rule validate_session_document_makes_wf [OF plain_hosts_law example_document])

lemma example_authorities:
  "parse_authority_text plain_hosts ''web.com:8443'' (Some 443) = Inr \<lparr>d_host = ''web.com'', d_port = 8443\<rparr>"
  "parse_authority_text plain_hosts ''web.com'' (Some 443) = Inr \<lparr>d_host = ''web.com'', d_port = 443\<rparr>"
  by (simp_all add: eval_simps)

theorem connect_authorization_exact_witness:
  "wf_session example_session \<and>
   authorize_connect_authority plain_hosts (session_policy_compile (\<lambda>k m. m) id example_session ''s'')
     ''web.com:8443'' [''web.com:8443''] = Inr (InterceptMode, \<lparr>d_host = ''web.com'', d_port = 8443\<rparr>)"
  using example_wf
  by (simp add: connect_authorization_exact [OF example_wf] example_authorities)
    (simp add: example_session_def)

text \<open>
  C5. A decrypted request is let through exactly when it is no CONNECT, its scheme, if stated,
  is https, every authority it names (at least one, and at most one Host header) is the
  destination that was CONNECTed to, that destination has a rule with the port, and, where the
  rule restricts paths, the canonical request path matches one of its patterns. The result is
  the credentials of that rule and the canonical path that must be forwarded.
\<close>

theorem intercepted_authorization_exact:
  assumes "wf_session c"
  shows "authorize_intercepted_request hp (session_policy_compile hmac b64url c seed) facts a =
      Inr (creds, path) \<longleftrightarrow>
    \<not> eq_ignore_ascii_case (rf_method facts) ''CONNECT'' \<and>
    (\<forall>scheme. rf_scheme facts = Some scheme \<longrightarrow> eq_ignore_ascii_case scheme ''https'') \<and>
    named_authorities facts \<noteq> [] \<and> length (rf_host_headers facts) \<le> 1 \<and>
    (\<exists>d. parse_authority_text hp a (Some 443) = Inr d \<and>
      (\<forall>n \<in> set (named_authorities facts). parse_authority_text hp n (Some 443) = Inr d) \<and>
      (\<exists>r \<in> set (sc_rules c). hr_host r = d_host d \<and> d_port d \<in> set (hr_ports r) \<and>
        creds = map (compile_credential hmac b64url c seed) (hr_inject r) \<and>
        (case path of None \<Rightarrow> hr_paths r = []
         | Some p \<Rightarrow> canonicalize_request_path (rf_path facts) = Inr p \<and>
             (\<exists>pattern \<in> set (hr_paths r). matches_path_pattern pattern p))))"
proof -
  have d: "distinct (map hr_host (sc_rules c))" using assms by (simp add: wf_session_def)
  have pull: "(\<exists>rule. A \<and> N \<and> L \<and> F \<and> (\<exists>r \<in> set rs. H r \<and> rule = f r) \<and> P rule \<and> Q rule \<and> creds = C rule) \<longleftrightarrow>
      N \<and> L \<and> A \<and> F \<and> (\<exists>r \<in> set rs. H r \<and> P (f r) \<and> creds = C (f r) \<and> Q (f r))"
    for A N L F H f P Q C and rs :: "host_rule list"
    by blast
  show ?thesis
    unfolding authorize_intercepted_Inr compile_lookup [OF d] canonical_authorized_path_Inr pull
      compile_rule_simps by (simp only: ex_simps conj_assoc)
qed

theorem intercepted_authorization_exact_witness:
  "wf_session example_session \<and>
   (\<exists>creds. authorize_intercepted_request plain_hosts
     (session_policy_compile (\<lambda>k m. m) id example_session ''s'')
     \<lparr>rf_method = ''GET'', rf_scheme = None, rf_uri_authority = None, rf_path = ''/v1/%7Ea/x'',
      rf_host_headers = [''web.com'']\<rparr> ''web.com'' = Inr (creds, Some ''/v1/~a/x''))"
proof -
  have c: "canonicalize_request_path ''/v1/%7Ea/x'' = Inr ''/v1/~a/x''" by (simp add: eval_simps)
  have m: "matches_path_pattern ''/v1/~a/**'' ''/v1/~a/x''" by (simp add: eval_simps)
  have g: "\<not> eq_ignore_ascii_case ''GET'' ''CONNECT''" by (simp add: eval_simps)
  show ?thesis
    using example_wf c m g
    by (simp add: intercepted_authorization_exact [OF example_wf] example_authorities
        named_authorities_def) (simp add: example_session_def)
qed

text \<open>The port is read by the integer parser of the library, which takes a sign: \<open>web.com:+443\<close> is accepted.\<close>

lemma signed_port_accepted:
  "parse_authority_text plain_hosts ''web.com:+443'' None = Inr \<lparr>d_host = ''web.com'', d_port = 443\<rparr>"
  by (simp add: eval_simps)

text \<open>
  Reading an authority gives a well-formed destination, and the text of a destination
  reads back as that destination, whatever the default port: what the proxy authorises is what
  it dials, and comparing destinations compares normal forms.
\<close>

theorem authority_roundtrip:
  assumes "host_parse_law hp" and "parse_authority_text hp a dp = Inr d"
  shows "wf_destination d \<and> parse_authority_text hp (authority_text d) dp' = Inr d"
  using parse_authority_wf [OF assms] parse_authority_print by blast

text \<open>
  C27. TLS is intercepted only for the host that was authorised: the server name the client
  sends in its ClientHello is present and normalises to the host of the CONNECT authority, and
  that host has an intercepting rule with the port.
\<close>

theorem tls_interception_exact:
  assumes "wf_session c"
  shows "permits_tls_interception_authority hp (session_policy_compile hmac b64url c seed) a sni \<longleftrightarrow>
    (\<exists>d name. parse_authority_text hp a (Some 443) = Inr d \<and> sni = Some name \<and>
       normalize_dns_name hp name = Inr (d_host d) \<and>
       (\<exists>r \<in> set (sc_rules c). hr_host r = d_host d \<and> d_port d \<in> set (hr_ports r) \<and>
          hr_mode r = InterceptMode))"
proof -
  let ?p = "session_policy_compile hmac b64url c seed"
  have "permits_tls_interception_authority hp ?p a sni \<longleftrightarrow>
      (\<exists>d name. authorize_connect_authority hp ?p a [] = Inr (InterceptMode, d) \<and> sni = Some name \<and>
         normalize_dns_name hp name = Inr (d_host d))"
    by (cases sni; cases "authorize_connect_authority hp ?p a []"; cases "normalize_dns_name hp (the sni)")
      (auto simp: permits_tls_interception_authority_def)
  then show ?thesis
    unfolding authorize_connect_Inr
      compile_decision [OF assms, where P = "\<lambda>mo ps. d \<in> ps \<and> InterceptMode = mo" for d]
    by (auto simp: validate_host_header_Inr eq_commute [of InterceptMode])
qed

theorem tls_interception_exact_witness:
  "wf_session example_session \<and>
   permits_tls_interception_authority plain_hosts
     (session_policy_compile (\<lambda>k m. m) id example_session ''s'') ''web.com:8443'' (Some ''Web.COM.'')"
  using example_wf
  by (simp add: tls_interception_exact [OF example_wf] example_authorities normalize_example)
    (simp add: example_session_def)

end
