(* ===== verification/Std_Path.thy ===== *)
theory Std_Path
  imports Prelude
begin

text \<open>
  What the sources use of \<open>std::path\<close> on Unix: components, joining and the parent. A path is
  its byte string. \<open>components\<close> ignores repeated and trailing separators and a dot that is
  not at the start. Also the metadata of a file, with lemmas on permission masks, and the
  validity test of \<open>String::from_utf8\<close>.
\<close>

unbundle bit_operations_syntax

datatype component = RootDir | CurDir | ParentDir | Normal string

definition is_absolute :: "string \<Rightarrow> bool" where
  "is_absolute path \<longleftrightarrow> prefix ''/'' path"

definition piece_component :: "string \<Rightarrow> component list" where
  "piece_component piece =
     (if piece = [] \<or> piece = ''.'' then []
      else if piece = ''..'' then [ParentDir]
      else [Normal piece])"

definition components :: "string \<Rightarrow> component list" where
  "components path =
     (if is_absolute path then [RootDir] else [])
     @ (if hd (split_on CHR ''/'' path) = ''.'' then [CurDir] else [])
     @ concat (map piece_component (split_on CHR ''/'' path))"

definition path_join :: "string \<Rightarrow> string \<Rightarrow> string" where
  "path_join directory name =
     (if is_absolute name then name
      else if directory = [] \<or> suffix ''/'' directory then directory @ name
      else directory @ ''/'' @ name)"

fun component_text :: "component \<Rightarrow> string" where
  "component_text RootDir = ''/''"
| "component_text CurDir = ''.''"
| "component_text ParentDir = ''..''"
| "component_text (Normal name) = name"

text \<open>A path pushed together from components.\<close>

definition path_of :: "component list \<Rightarrow> string" where
  "path_of cs = foldl (\<lambda>path c. path_join path (component_text c)) [] cs"

text \<open>\<open>Path::parent\<close> and \<open>Path::file_name\<close> on components.\<close>

definition parent_components :: "component list \<Rightarrow> component list option" where
  "parent_components cs = (if cs = [] \<or> last cs = RootDir then None else Some (butlast cs))"

definition file_name :: "string \<Rightarrow> string option" where
  "file_name path = (case rev (components path) of Normal name # _ \<Rightarrow> Some name | _ \<Rightarrow> None)"

lemma is_absolute_join: "is_absolute directory \<Longrightarrow> is_absolute (path_join directory name)"
  by (auto simp: path_join_def is_absolute_def prefix_def)

lemma is_absolute_nonempty: "is_absolute path \<Longrightarrow> path \<noteq> []"
  by (auto simp: is_absolute_def)

text \<open>Joining a plain name to a directory adds exactly that component.\<close>

lemma components_absolute:
  assumes "is_absolute path"
  shows "components path = RootDir # concat (map piece_component (split_on CHR ''/'' path))"
  using assms by (cases path) (auto simp: components_def is_absolute_def)

lemma split_on_join_name:
  assumes "directory \<noteq> []" "\<not> is_absolute name"
  shows "concat (map piece_component (split_on CHR ''/'' (path_join directory name))) =
    concat (map piece_component (split_on CHR ''/'' directory)) @ concat (map piece_component (split_on CHR ''/'' name))"
proof (cases "suffix ''/'' directory")
  case True
  then obtain d where "directory = d @ ''/''" by (auto simp: suffix_def)
  with assms show ?thesis
    by (simp add: path_join_def split_on_append piece_component_def)
next
  case False
  with assms show ?thesis by (simp add: path_join_def split_on_append)
qed

lemma components_join_name:
  assumes "is_absolute directory" "CHR ''/'' \<notin> set name" "name \<noteq> []" "name \<noteq> ''.''" "name \<noteq> ''..''"
  shows "components (path_join directory name) = components directory @ [Normal name]"
proof -
  have "\<not> is_absolute name" using assms(2) by (cases name) (auto simp: is_absolute_def)
  moreover have "split_on CHR ''/'' name = [name]" using assms(2) by (rule split_on_id)
  ultimately show ?thesis
    using assms is_absolute_join [OF assms(1), of name] is_absolute_nonempty [OF assms(1)]
    by (simp add: components_absolute split_on_join_name) (simp add: piece_component_def)
qed

lemmas [eval_simps] = is_absolute_def piece_component_def components_def path_join_def

subsection \<open>Files\<close>

datatype file_kind = RegularFile | Directory | Symlink | SocketFile | OtherKind

record metadata =
  md_kind :: file_kind
  md_uid :: u32
  md_mode :: u32
  md_len :: nat
  md_dev :: u64
  md_ino :: u64

text \<open>\<open>String::from_utf8\<close>: the well-formed byte sequences of the Unicode standard.\<close>

definition utf8_cont :: "char \<Rightarrow> bool" where
  "utf8_cont c \<longleftrightarrow> 0x80 \<le> byte c \<and> byte c \<le> 0xBF"

fun utf8_valid :: "string \<Rightarrow> bool" where
  "utf8_valid [] = True"
| "utf8_valid (a # s) =
     (if byte a < 0x80 then utf8_valid s
      else if 0xC2 \<le> byte a \<and> byte a \<le> 0xDF then
        (case s of b # t \<Rightarrow> utf8_cont b \<and> utf8_valid t | _ \<Rightarrow> False)
      else if 0xE0 \<le> byte a \<and> byte a \<le> 0xEF then
        (case s of b # c # t \<Rightarrow> utf8_cont b \<and> utf8_cont c \<and> (byte a = 0xE0 \<longrightarrow> 0xA0 \<le> byte b) \<and>
            (byte a = 0xED \<longrightarrow> byte b \<le> 0x9F) \<and> utf8_valid t
         | _ \<Rightarrow> False)
      else if 0xF0 \<le> byte a \<and> byte a \<le> 0xF4 then
        (case s of b # c # d # t \<Rightarrow> utf8_cont b \<and> utf8_cont c \<and> utf8_cont d \<and>
            (byte a = 0xF0 \<longrightarrow> 0x90 \<le> byte b) \<and> (byte a = 0xF4 \<longrightarrow> byte b \<le> 0x8F) \<and> utf8_valid t
         | _ \<Rightarrow> False)
      else False)"

lemma mask_zero_iff: "(w AND a = 0 \<and> w AND b = 0) \<longleftrightarrow> w AND (a OR b) = (0 :: u32)"
  by (auto simp: bit_eq_iff bit_simps)

lemma mask_exp_iff: "n < 32 \<Longrightarrow> w AND 2 ^ n \<noteq> 0 \<longleftrightarrow> w AND 2 ^ n = (2 ^ n :: u32)"
  by (auto simp: bit_eq_iff [where ?'a = "32 word"] bit_simps)

lemma mask_bit_iff: "w AND 0x100 \<noteq> 0 \<longleftrightarrow> w AND 0x100 = (0x100 :: u32)"
  using mask_exp_iff [of 8 w] by simp

end
