(* ===== verification/Secret_Store.thy ===== *)
theory Secret_Store
  imports Request_Policy Std_Path
begin

unbundle bit_operations_syntax

text \<open>
  Resolution of secrets: \<open>src/secrets.rs\<close>. The file system is an environment: \<open>fs_lstat\<close> is
  what \<open>symlink_metadata\<close> returns for a path, \<open>fs_open\<close> the metadata and the contents of the
  file that \<open>File::open\<close> reaches, which need not be the same file. Every operation returns
  the list of paths it looked at with its result, so that what is touched before a refusal can
  be stated. A \<open>HashMap\<close> of resolved values is an association list with distinct keys; the
  order in which a \<open>HashSet\<close> of names is visited is the order of first mention.
\<close>

subsection \<open>Files\<close>

record file_system =
  fs_lstat :: "string \<Rightarrow> metadata option"
  fs_open :: "string \<Rightarrow> (metadata \<times> string) option"

subsection \<open>Operations\<close>

datatype secret_store_error = NotEntitled | Unavailable

record secret_store =
  ss_directory :: string
  ss_trusted_operator_uid :: u32
  ss_allowed :: "string set"

definition MAX_SECRET_BYTES :: nat where
  "MAX_SECRET_BYTES = 64 * 1024"

text \<open>
  Permission masks are octal in the source: 077 is 0x3F, 0111 is 0x49, 0400 is 0x100, 0500 is
  0x140, 07000 is 0xE00.
\<close>

definition private_directory :: "metadata \<Rightarrow> u32 \<Rightarrow> bool" where
  "private_directory md trusted_uid \<longleftrightarrow>
     \<not> (md_kind md \<noteq> Directory \<or> md_uid md \<noteq> trusted_uid \<or> md_mode md AND 0x3F \<noteq> 0
        \<or> md_mode md AND 0x140 \<noteq> 0x140 \<or> md_mode md AND 0xE00 \<noteq> 0)"

definition validate_private_directory ::
  "file_system \<Rightarrow> string \<Rightarrow> u32 \<Rightarrow> secret_store_error + unit" where
  "validate_private_directory fs directory trusted_uid =
     and_then (ok_or Unavailable (fs_lstat fs directory)) (\<lambda>md.
     ensure (private_directory md trusted_uid) Unavailable)"

definition validate_secret_file :: "metadata \<Rightarrow> u32 \<Rightarrow> secret_store_error + unit" where
  "validate_secret_file md trusted_uid =
     (if md_kind md \<noteq> RegularFile \<or> md_uid md \<noteq> trusted_uid \<or> md_len md > MAX_SECRET_BYTES
         \<or> md_mode md AND 0x3F \<noteq> 0 \<or> md_mode md AND 0x100 = 0 \<or> md_mode md AND 0x49 \<noteq> 0
         \<or> md_mode md AND 0xE00 \<noteq> 0
      then Inl Unavailable else Inr ())"

text \<open>One final line ending is removed.\<close>

definition strip_line_ending :: "string \<Rightarrow> string" where
  "strip_line_ending bytes =
     (if suffix [CHR 0x0D, CHR 0x0A] bytes then take (length bytes - 2) bytes
      else if suffix [CHR 0x0A] bytes then take (length bytes - 1) bytes
      else bytes)"

definition read_secret :: "file_system \<Rightarrow> string \<Rightarrow> string \<Rightarrow> u32 \<Rightarrow> secret_store_error + string" where
  "read_secret fs directory name trusted_uid =
     (let path = path_join directory name in
      and_then (ok_or Unavailable (fs_lstat fs path)) (\<lambda>md.
      and_then (validate_secret_file md trusted_uid) (\<lambda>_.
      and_then (ok_or Unavailable (fs_open fs path)) (\<lambda>(opened, contents).
      and_then (validate_secret_file opened trusted_uid) (\<lambda>_.
      and_then (ensure (md_dev opened = md_dev md \<and> md_ino opened = md_ino md) Unavailable) (\<lambda>_.
      (let bytes = take (MAX_SECRET_BYTES + 1) contents in
       if length bytes > MAX_SECRET_BYTES then Inl Unavailable
       else
         (let value = strip_line_ending bytes in
          if \<not> utf8_valid value then Inl Unavailable
          else if value = [] \<or> list_ex is_ascii_control value then Inl Unavailable
          else Inr value))))))))"

definition requested_secrets :: "session_config \<Rightarrow> string list" where
  "requested_secrets session =
     remdups (map hi_secret (filter (\<lambda>injection.
       effective_credential_mode session (hi_secret injection) \<noteq> Disabled)
       (concat (map hr_inject (sc_rules session)))))"

text \<open>The loop over the requested names: the paths it looked at and the values.\<close>

fun read_secrets :: "file_system \<Rightarrow> string \<Rightarrow> u32 \<Rightarrow> string list \<Rightarrow> string list \<times> (secret_store_error + (string \<times> string) list)" where
  "read_secrets fs directory uid [] = ([], Inr [])"
| "read_secrets fs directory uid (name # names) =
     (case read_secret fs directory name uid of
        Inl e \<Rightarrow> ([path_join directory name], Inl e)
      | Inr value \<Rightarrow>
          (let (log, rest) = read_secrets fs directory uid names in
           (path_join directory name # log, and_then rest (\<lambda>values. Inr ((name, value) # values)))))"

definition resolve :: "file_system \<Rightarrow> secret_store \<Rightarrow> session_config \<Rightarrow>
    string list \<times> (secret_store_error + (string \<times> string) list)" where
  "resolve fs self session =
     (let requested = requested_secrets session in
      if list_ex (\<lambda>name. name \<notin> ss_allowed self) requested then ([], Inl NotEntitled)
      else if requested = [] then ([], Inr [])
      else (case validate_private_directory fs (ss_directory self) (ss_trusted_operator_uid self) of
          Inl e \<Rightarrow> ([ss_directory self], Inl e)
        | Inr _ \<Rightarrow>
            (let (log, result) = read_secrets fs (ss_directory self) (ss_trusted_operator_uid self) requested in
             (ss_directory self # log, result))))"

definition has_same_values :: "(string \<times> string) list \<Rightarrow> (string \<times> string) list \<Rightarrow> bool" where
  "has_same_values self other \<longleftrightarrow> length self = length other \<and>
     list_all (\<lambda>(name, value). map_of other name = Some value) self"

subsection \<open>What resolution returns\<close>

definition secret_text :: "string \<Rightarrow> bool" where
  "secret_text v \<longleftrightarrow> v \<noteq> [] \<and> length v \<le> MAX_SECRET_BYTES \<and> utf8_valid v \<and> \<not> list_ex is_ascii_control v"

definition secret_file :: "metadata \<Rightarrow> u32 \<Rightarrow> bool" where
  "secret_file md uid \<longleftrightarrow> md_kind md = RegularFile \<and> md_uid md = uid \<and> md_mode md AND 0xE7F = 0 \<and>
     md_mode md AND 0x100 = 0x100"

lemma validate_secret_file_Inr:
  "validate_secret_file md uid = Inr u \<Longrightarrow> secret_file md uid \<and> md_len md \<le> MAX_SECRET_BYTES"
  using mask_zero_iff [of "md_mode md" "0x3F" "0x49"] mask_zero_iff [of "md_mode md" "0x7F" "0xE00"]
    mask_bit_iff [of "md_mode md"]
  by (auto simp: validate_secret_file_def secret_file_def split: if_splits)

lemma read_secret_Inr:
  assumes "read_secret fs directory name uid = Inr value"
  shows "secret_text value" "\<exists>opened contents. fs_open fs (path_join directory name) = Some (opened, contents) \<and>
    secret_file opened uid \<and> value = strip_line_ending contents \<and>
    (\<exists>md. fs_lstat fs (path_join directory name) = Some md \<and> md_ino md = md_ino opened \<and> md_dev md = md_dev opened)"
proof -
  from assms obtain md opened contents where
    r: "fs_lstat fs (path_join directory name) = Some md" "fs_open fs (path_join directory name) = Some (opened, contents)"
      "validate_secret_file opened uid = Inr ()" "md_dev opened = md_dev md" "md_ino opened = md_ino md"
      "length contents \<le> MAX_SECRET_BYTES" "value = strip_line_ending contents"
      "utf8_valid value" "value \<noteq> []" "\<not> list_ex is_ascii_control value"
    by (auto simp: read_secret_def result_simps Let_def split: if_splits)
  then show "secret_text value" by (auto simp: secret_text_def strip_line_ending_def)
  show "\<exists>opened contents. fs_open fs (path_join directory name) = Some (opened, contents) \<and>
    secret_file opened uid \<and> value = strip_line_ending contents \<and>
    (\<exists>md. fs_lstat fs (path_join directory name) = Some md \<and> md_ino md = md_ino opened \<and> md_dev md = md_dev opened)"
    using r validate_secret_file_Inr [OF r(3)] by auto
qed

lemma read_secrets_log: "set (fst (read_secrets fs directory uid names)) \<subseteq> path_join directory ` set names"
  by (induction names) (auto split: sum.splits prod.splits)

lemma read_secrets_Inr:
  "snd (read_secrets fs directory uid names) = Inr vals \<longleftrightarrow>
     list_all2 (\<lambda>name (n, v). n = name \<and> read_secret fs directory name uid = Inr v) names vals"
proof (induction names arbitrary: vals)
  case (Cons name names)
  show ?case
  proof (cases "read_secret fs directory name uid")
    case (Inr v)
    obtain log rest where lr: "read_secrets fs directory uid names = (log, rest)" by fastforce
    with Cons.IH have "rest = Inr vs \<longleftrightarrow> list_all2 (\<lambda>name (n, v). n = name \<and> read_secret fs directory name uid = Inr v) names vs" for vs
      by simp
    with Inr lr show ?thesis by (auto simp: list_all2_Cons1 result_simps)
  qed (auto simp: list_all2_Cons1)
qed auto

lemma has_same_values_iff:
  assumes "distinct (map fst a)" "distinct (map fst b)"
  shows "has_same_values a b \<longleftrightarrow> map_of a = map_of b"
proof
  assume h: "has_same_values a b"
  have sub: "set a \<subseteq> set b"
    using h assms(2) by (auto simp: has_same_values_def list_all_iff map_of_eq_Some_iff)
  have "distinct a" "distinct b" using assms by (auto simp: distinct_map)
  then have "card (set a) = card (set b)" using h by (simp add: has_same_values_def distinct_card)
  with sub have "set a = set b" by (simp add: card_subset_eq)
  with assms show "map_of a = map_of b" by (simp add: map_of_inject_set)
next
  assume m: "map_of a = map_of b"
  with assms have s: "set a = set b" by (simp add: map_of_inject_set)
  moreover have "distinct a" "distinct b" using assms by (auto simp: distinct_map)
  ultimately have "length a = length b" by (metis distinct_card)
  with s assms(2) show "has_same_values a b"
    by (auto simp: has_same_values_def list_all_iff map_of_eq_Some_iff)
qed

text \<open>A valid identifier joined to a directory names an entry of that directory.\<close>

lemma secret_id_confined:
  assumes "valid_secret_id s"
  shows "CHR ''/'' \<notin> set s" "s \<noteq> []" "s \<noteq> ''.''" "s \<noteq> ''..''" "CHR 0x00 \<notin> set s"
  using assms
  by (auto simp: valid_secret_id_def validate_secret_id_def list_all_iff byte_defs byte_def
      split: if_splits)

lemma requested_valid:
  assumes "wf_session c" "s \<in> set (requested_secrets c)"
  shows "valid_secret_id s"
  using assms by (auto simp: requested_secrets_def wf_session_def wf_rule_def valid_injection_def)

subsection \<open>Properties\<close>

text \<open>
  C8. Entitlement is decided before any file is looked at, and resolution never leaves the
  secret directory: a session that names a secret outside the configured set is refused with no
  file access at all; otherwise the only paths looked at are the directory and, for requested
  and permitted identifiers, the entry of that name directly below it.
\<close>

theorem secrets_entitled_before_access:
  assumes "wf_session c" and "is_absolute (ss_directory self)"
  shows "(\<not> set (requested_secrets c) \<subseteq> ss_allowed self \<longrightarrow> resolve fs self c = ([], Inl NotEntitled)) \<and>
    (\<forall>path \<in> set (fst (resolve fs self c)). path = ss_directory self \<or>
      (\<exists>s \<in> set (requested_secrets c) \<inter> ss_allowed self. path = path_join (ss_directory self) s \<and>
         components path = components (ss_directory self) @ [Normal s]))"
proof (cases "set (requested_secrets c) \<subseteq> ss_allowed self")
  case True
  let ?names = "requested_secrets c"
  obtain log res where lr: "read_secrets fs (ss_directory self) (ss_trusted_operator_uid self) ?names = (log, res)"
    by fastforce
  then have "set log \<subseteq> path_join (ss_directory self) ` set ?names"
    using read_secrets_log by (metis fst_conv)
  moreover have "set (fst (resolve fs self c)) \<subseteq> insert (ss_directory self) (set log)"
    using True lr by (auto simp: resolve_def Let_def split: sum.splits if_splits)
  ultimately show ?thesis
    using True secret_id_confined requested_valid [OF assms(1)] components_join_name [OF assms(2)]
    by (auto simp: image_iff subset_iff)
next
  case False
  then have "resolve fs self c = ([], Inl NotEntitled)"
    by (auto simp: resolve_def Let_def list_ex_iff)
  with False show ?thesis by simp
qed

text \<open>
  C38. Resolution yields exactly the values the session uses: one value for every requested
  identifier and no other, each one non-empty UTF-8 text of at most 64 KiB without control
  characters, read from a regular file of the trusted operator that nobody else can read, write
  or execute and that is the very file whose metadata was checked first, in a private directory.
\<close>

theorem resolved_secrets_exact:
  assumes "resolve fs self c = (log, Inr vals)"
  shows "map fst vals = requested_secrets c \<and> set (requested_secrets c) \<subseteq> ss_allowed self \<and>
    (\<forall>(s, v) \<in> set vals. secret_text v \<and>
      (\<exists>md opened contents. fs_lstat fs (path_join (ss_directory self) s) = Some md \<and>
         fs_open fs (path_join (ss_directory self) s) = Some (opened, contents) \<and>
         secret_file opened (ss_trusted_operator_uid self) \<and>
         md_ino md = md_ino opened \<and> md_dev md = md_dev opened \<and> v = strip_line_ending contents)) \<and>
    (vals \<noteq> [] \<longrightarrow> (\<exists>md. fs_lstat fs (ss_directory self) = Some md \<and>
       private_directory md (ss_trusted_operator_uid self)))"
proof -
  let ?d = "ss_directory self" and ?uid = "ss_trusted_operator_uid self" and ?names = "requested_secrets c"
  from assms have allowed: "set ?names \<subseteq> ss_allowed self"
    by (auto simp: resolve_def Let_def list_ex_iff split: if_splits)
  show ?thesis
  proof (cases "?names = []")
    case True
    with assms have "vals = []" by (auto simp: resolve_def Let_def)
    with True show ?thesis by simp
  next
    case False
    with assms allowed have dir: "validate_private_directory fs ?d ?uid = Inr ()"
      and vals: "snd (read_secrets fs ?d ?uid ?names) = Inr vals"
      by (auto simp: resolve_def Let_def list_ex_iff split: if_splits sum.splits prod.splits)
    from vals have all2: "list_all2 (\<lambda>name (n, v). n = name \<and> read_secret fs ?d name ?uid = Inr v) ?names vals"
      by (simp add: read_secrets_Inr)
    then have keys: "map fst vals = ?names"
      by (induction rule: list_all2_induct) auto
    from all2 have "\<forall>(s, v) \<in> set vals. read_secret fs ?d s ?uid = Inr v"
      by (induction rule: list_all2_induct) auto
    then have "\<forall>(s, v) \<in> set vals. secret_text v \<and>
      (\<exists>md opened contents. fs_lstat fs (path_join ?d s) = Some md \<and>
         fs_open fs (path_join ?d s) = Some (opened, contents) \<and> secret_file opened ?uid \<and>
         md_ino md = md_ino opened \<and> md_dev md = md_dev opened \<and> v = strip_line_ending contents)"
      using read_secret_Inr by fast
    with keys allowed dir show ?thesis
      by (auto simp: validate_private_directory_def result_simps)
  qed
qed

definition example_fs :: file_system where
  "example_fs = \<lparr>
     fs_lstat = (\<lambda>path. if path = ''/s''
       then Some \<lparr>md_kind = Directory, md_uid = 7, md_mode = 0x1C0, md_len = 0, md_dev = 1, md_ino = 1\<rparr>
       else if path = ''/s/api.token''
       then Some \<lparr>md_kind = RegularFile, md_uid = 7, md_mode = 0x180, md_len = 3, md_dev = 1, md_ino = 2\<rparr>
       else None),
     fs_open = (\<lambda>path. if path = ''/s/api.token''
       then Some (\<lparr>md_kind = RegularFile, md_uid = 7, md_mode = 0x180, md_len = 3, md_dev = 1, md_ino = 2\<rparr>,
         ''ab'' @ [CHR 0x0A]) else None)\<rparr>"

definition example_store :: secret_store where
  "example_store = \<lparr>ss_directory = ''/s'', ss_trusted_operator_uid = 7, ss_allowed = {''api.token''}\<rparr>"

lemma example_requested: "requested_secrets example_session = [''api.token'']"
  by (simp add: requested_secrets_def example_session_def effective_credential_mode_def)

lemma example_resolve:
  "resolve example_fs example_store example_session = ([''/s'', ''/s/api.token''], Inr [(''api.token'', ''ab'')])"
proof -
  have j: "path_join ''/s'' ''api.token'' = ''/s/api.token''" by (simp add: path_join_def is_absolute_def suffix_to_prefix)
  have "read_secret example_fs ''/s'' ''api.token'' 7 = Inr ''ab''"
    unfolding read_secret_def j
    by (simp add: example_fs_def validate_secret_file_def MAX_SECRET_BYTES_def strip_line_ending_def
        suffix_to_prefix byte_defs byte_def)
  moreover have "validate_private_directory example_fs ''/s'' 7 = Inr ()"
    by (simp add: validate_private_directory_def private_directory_def example_fs_def)
  ultimately show ?thesis
    by (simp add: resolve_def example_requested example_store_def j)
qed

theorem secrets_entitled_before_access_witness:
  "wf_session example_session \<and>
   resolve example_fs (example_store\<lparr>ss_allowed := {}\<rparr>) example_session = ([], Inl NotEntitled)"
  using secrets_entitled_before_access [OF example_wf, of "example_store\<lparr>ss_allowed := {}\<rparr>" example_fs] example_wf
  by (simp add: example_requested) (simp add: example_store_def is_absolute_def)

theorem resolved_secrets_exact_witness:
  "resolve example_fs example_store example_session = ([''/s'', ''/s/api.token''], Inr [(''api.token'', ''ab'')]) \<and>
   secret_text ''ab''"
  using resolved_secrets_exact [OF example_resolve] example_resolve by simp

end
