(* ===== verification/Control_Config.thy ===== *)
theory Control_Config
  imports Session_Validation Std_Path
begin

text \<open>
  Configuration of the daemon and parsing of control requests: \<open>src/config.rs\<close>,
  \<open>src/config/protocol.rs\<close>, \<open>src/config/policy.rs\<close>, \<open>src/config/session_file.rs\<close> and
  \<open>src/config/daemon.rs\<close>. The TOML library is a parameter: the functions \<open>de_*\<close> stand for
  \<open>toml::from_str\<close> at the type they return, with \<open>None\<close> for an error, and \<open>ser\<close> for
  \<open>toml::to_string\<close> of the session table.
\<close>

subsection \<open>Errors\<close>

datatype config_error_kind = Invalid | UnsupportedProtocolVersion

record config_error =
  ce_message :: string
  ce_kind :: config_error_kind

definition config_error_new :: "string \<Rightarrow> config_error" where
  "config_error_new message = \<lparr>ce_message = message, ce_kind = Invalid\<rparr>"

definition unsupported_protocol_version :: config_error where
  "unsupported_protocol_version =
     \<lparr>ce_message = ''unsupported control protocol version; expected version = 2'',
      ce_kind = UnsupportedProtocolVersion\<rparr>"

definition is_unsupported_protocol_version :: "config_error \<Rightarrow> bool" where
  "is_unsupported_protocol_version e \<longleftrightarrow> ce_kind e = UnsupportedProtocolVersion"

definition deserialize :: "(string \<Rightarrow> 'a option) \<Rightarrow> string \<Rightarrow> config_error + 'a" where
  "deserialize de input =
     ok_or (config_error_new ''invalid TOML syntax, field type, or unsupported field (values omitted)'') (de input)"

subsection \<open>Control requests\<close>

datatype control_request =
    Create u16 session_config
  | CreateFromFile u16 string bool
  | Stop u16 string
  | Reload u16 string
  | ReloadAll u16
  | ListSessions u16

datatype 'v raw_control_request =
    RawCreate u16 'v
  | RawStop u16 string
  | RawReload u16 string
  | RawReloadAll u16
  | RawCreateFromFile u16 string bool
  | RawList u16

definition validate_protocol_version :: "u16 \<Rightarrow> config_error + unit" where
  "validate_protocol_version version =
     (if version \<noteq> 2 then Inl unsupported_protocol_version else Inr ())"

definition validate_session_id :: "string \<Rightarrow> config_error + unit" where
  "validate_session_id identifier =
     (if identifier = [] \<or> length identifier > 128
         \<or> \<not> list_all (\<lambda>c. is_ascii_alphanumeric c \<or> c = CHR ''-'' \<or> c = CHR ''_'') identifier
      then Inl (config_error_new ''session_id must be a non-empty opaque identifier'')
      else Inr ())"

record ('v, 'w) toml_lib =
  de_version :: "string \<Rightarrow> u16 option"
  de_request :: "string \<Rightarrow> 'v raw_control_request option"
  ser_session :: "'v \<Rightarrow> string option"
  de_session :: "string \<Rightarrow> 'w raw_session_config option"

definition control_request_from_toml ::
  "('v, 'w) toml_lib \<Rightarrow> host_parser \<Rightarrow> string \<Rightarrow> config_error + control_request" where
  "control_request_from_toml toml hp input =
     and_then (deserialize (de_version toml) input) (\<lambda>version.
     and_then (validate_protocol_version version) (\<lambda>_.
     and_then (deserialize (de_request toml) input) (\<lambda>raw.
     case raw of
       RawCreate version session \<Rightarrow>
         and_then (ok_or (config_error_new
             ''invalid session configuration TOML syntax or value (values omitted)'')
             (ser_session toml session)) (\<lambda>document.
         and_then (map_err config_error_new (from_toml (de_session toml) hp document)) (\<lambda>session.
         Inr (Create version session)))
     | RawStop version session_id \<Rightarrow>
         and_then (validate_session_id session_id) (\<lambda>_. Inr (Stop version session_id))
     | RawReload version session_id \<Rightarrow>
         and_then (validate_session_id session_id) (\<lambda>_. Inr (Reload version session_id))
     | RawReloadAll version \<Rightarrow> Inr (ReloadAll version)
     | RawCreateFromFile version name require_ephemeral \<Rightarrow>
         and_then (map_err config_error_new (validate_session_config_name name)) (\<lambda>_.
         Inr (CreateFromFile version name require_ephemeral))
     | RawList version \<Rightarrow> Inr (ListSessions version))))"

text \<open>\<open>SessionFile::from_toml\<close>.\<close>

definition session_file_from_toml ::
  "(string \<Rightarrow> 'w raw_session_config option) \<Rightarrow> host_parser \<Rightarrow> string \<Rightarrow> config_error + session_config" where
  "session_file_from_toml de hp input = map_err config_error_new (from_toml de hp input)"

subsection \<open>Daemon configuration\<close>

datatype session_create_mode = Inline | FileOnly

record daemon_settings =
  ds_control_socket :: string
  ds_socket_dir :: string
  ds_trusted_operator_uid :: u32
  ds_max_sessions :: nat
  ds_max_connections_per_session :: nat
  ds_shutdown_grace_seconds :: u64
  ds_control_read_timeout_ms :: u64
  ds_max_provisioning_requests :: nat
  ds_io_timeout_ms :: u64
  ds_session_config_dir :: "string option"
  ds_create_mode :: session_create_mode

record ca_config =
  ca_certificate :: string
  ca_private_key :: string

record secret_store_config =
  sst_directory :: string
  sst_allowed :: "string set"

record daemon_config =
  dc_daemon :: daemon_settings
  dc_ca :: ca_config
  dc_secrets :: secret_store_config

text \<open>
  The raw document has the fields of the validated one, with the entitlements as a list. serde
  fills in a missing limit with its default.
\<close>

record raw_daemon_config =
  rd_daemon :: daemon_settings
  rd_ca :: ca_config
  rd_secrets_directory :: string
  rd_secrets_allowed :: "string list"

definition DEFAULT_MAX_SESSIONS :: nat where "DEFAULT_MAX_SESSIONS = 64"
definition DEFAULT_MAX_CONNECTIONS_PER_SESSION :: nat where "DEFAULT_MAX_CONNECTIONS_PER_SESSION = 128"
definition DEFAULT_SHUTDOWN_GRACE_SECONDS :: u64 where "DEFAULT_SHUTDOWN_GRACE_SECONDS = 5"
definition DEFAULT_CONTROL_READ_TIMEOUT_MS :: u64 where "DEFAULT_CONTROL_READ_TIMEOUT_MS = 5000"
definition DEFAULT_MAX_PROVISIONING_REQUESTS :: nat where "DEFAULT_MAX_PROVISIONING_REQUESTS = 8"
definition DEFAULT_IO_TIMEOUT_MS :: u64 where "DEFAULT_IO_TIMEOUT_MS = 30000"

definition resolve_config_path :: "string \<Rightarrow> string \<Rightarrow> string" where
  "resolve_config_path path directory =
     (if path = [] \<or> is_absolute path then path else path_join directory path)"

definition resolve_paths :: "raw_daemon_config \<Rightarrow> string \<Rightarrow> raw_daemon_config" where
  "resolve_paths raw directory =
     (let d = rd_daemon raw; c = rd_ca raw; r = (\<lambda>path. resolve_config_path path directory) in
      raw\<lparr>rd_daemon := d\<lparr>ds_control_socket := r (ds_control_socket d), ds_socket_dir := r (ds_socket_dir d),
            ds_session_config_dir := map_option r (ds_session_config_dir d)\<rparr>,
          rd_ca := c\<lparr>ca_certificate := r (ca_certificate c), ca_private_key := r (ca_private_key c)\<rparr>,
          rd_secrets_directory := r (rd_secrets_directory raw)\<rparr>)"

definition required_path :: "string \<Rightarrow> string \<Rightarrow> config_error + string" where
  "required_path path field =
     (if path = [] then Inl (config_error_new (field @ '' must not be empty'')) else Inr path)"

definition validate_session_config_dir :: "string \<Rightarrow> config_error + unit" where
  "validate_session_config_dir path =
     (if \<not> is_absolute path \<or> path = [] \<or> CHR 0x00 \<in> set path
         \<or> list_ex (\<lambda>piece. piece = ''.'' \<or> piece = ''..'') (split_on CHR ''/'' path)
         \<or> list_ex (\<lambda>c. case c of RootDir \<Rightarrow> False | Normal _ \<Rightarrow> False | _ \<Rightarrow> True) (components path)
         \<or> length (components path) < 2
      then Inl (config_error_new
        ''daemon.session_config_dir must be an absolute directory path without dot components'')
      else Inr ())"

fun validate_allowed_secrets :: "string set \<Rightarrow> string list \<Rightarrow> config_error + string set" where
  "validate_allowed_secrets allowed [] = Inr allowed"
| "validate_allowed_secrets allowed (secret # raw) =
     and_then (map_err (\<lambda>_. config_error_new ''secrets.allowed must contain valid secret identifiers'')
         (validate_secret_name secret)) (\<lambda>_.
       if secret \<in> allowed
       then Inl (config_error_new ''secrets.allowed must not contain duplicate secret identifiers'')
       else validate_allowed_secrets (insert secret allowed) raw)"

definition session_config_dir_for :: "session_create_mode \<Rightarrow> string option \<Rightarrow> config_error + string option" where
  "session_config_dir_for mode directory =
     (case (mode, directory) of
        (Inline, None) \<Rightarrow> Inr None
      | (Inline, Some _) \<Rightarrow> Inl (config_error_new
          ''daemon.session_config_dir requires daemon.create_mode = \"file_only\"'')
      | (FileOnly, None) \<Rightarrow> Inl (config_error_new
          ''daemon.session_config_dir is required when daemon.create_mode is \"file_only\"'')
      | (FileOnly, Some path) \<Rightarrow> and_then (validate_session_config_dir path) (\<lambda>_. Inr (Some path)))"

definition from_toml_in_directory ::
  "(string \<Rightarrow> raw_daemon_config option) \<Rightarrow> string \<Rightarrow> string option \<Rightarrow> config_error + daemon_config" where
  "from_toml_in_directory de input config_directory =
     and_then (deserialize de input) (\<lambda>parsed.
     (let raw = (case config_directory of Some directory \<Rightarrow> resolve_paths parsed directory | None \<Rightarrow> parsed);
          d = rd_daemon raw in
      and_then (session_config_dir_for (ds_create_mode d) (ds_session_config_dir d)) (\<lambda>session_config_dir.
      and_then (required_path (ds_control_socket d) ''daemon.control_socket'') (\<lambda>control_socket.
      and_then (required_path (ds_socket_dir d) ''daemon.socket_dir'') (\<lambda>socket_dir.
      (let daemon = d\<lparr>ds_control_socket := control_socket, ds_socket_dir := socket_dir,
             ds_session_config_dir := session_config_dir\<rparr> in
       and_then (ensure (ds_max_sessions daemon \<noteq> 0)
           (config_error_new ''daemon.max_sessions must be greater than zero'')) (\<lambda>_.
       and_then (ensure (ds_max_connections_per_session daemon \<noteq> 0)
           (config_error_new ''daemon.max_connections_per_session must be greater than zero'')) (\<lambda>_.
       and_then (ensure (ds_control_read_timeout_ms daemon \<noteq> 0)
           (config_error_new ''daemon.control_read_timeout_ms must be greater than zero'')) (\<lambda>_.
       and_then (ensure (ds_max_provisioning_requests daemon \<noteq> 0)
           (config_error_new ''daemon.max_provisioning_requests must be greater than zero'')) (\<lambda>_.
       and_then (ensure (ds_io_timeout_ms daemon \<noteq> 0)
           (config_error_new ''daemon.io_timeout_ms must be greater than zero'')) (\<lambda>_.
       and_then (required_path (ca_certificate (rd_ca raw)) ''ca.certificate'') (\<lambda>certificate.
       and_then (required_path (ca_private_key (rd_ca raw)) ''ca.private_key'') (\<lambda>private_key.
       and_then (required_path (rd_secrets_directory raw) ''secrets.directory'') (\<lambda>directory.
       and_then (validate_allowed_secrets {} (rd_secrets_allowed raw)) (\<lambda>allowed.
       Inr \<lparr>dc_daemon = daemon, dc_ca = \<lparr>ca_certificate = certificate, ca_private_key = private_key\<rparr>,
         dc_secrets = \<lparr>sst_directory = directory, sst_allowed = allowed\<rparr>\<rparr>)))))))))))))))"

text \<open>
  \<open>DaemonConfig::load\<close>: \<open>contents\<close> is what reading the file at \<open>path\<close> gives and \<open>cwd\<close> the
  current directory, both \<open>None\<close> on failure.
\<close>

definition daemon_config_load :: "(string \<Rightarrow> raw_daemon_config option) \<Rightarrow> string option \<Rightarrow> string option \<Rightarrow>
    string \<Rightarrow> config_error + daemon_config" where
  "daemon_config_load de contents cwd path =
     and_then (ok_or (config_error_new ''could not read daemon configuration file'') contents) (\<lambda>input.
     (let parent = (case parent_components (components path) of
            None \<Rightarrow> [CurDir] | Some cs \<Rightarrow> if cs = [] then [CurDir] else cs) in
      and_then (if RootDir \<in> set parent then Inr parent
          else and_then (ok_or (config_error_new ''could not resolve daemon configuration directory'') cwd)
            (\<lambda>c. Inr (components c @ parent))) (\<lambda>absolute_parent.
      (let config_directory = path_of (filter (\<lambda>c. c \<noteq> CurDir) absolute_parent) in
       from_toml_in_directory de input (Some config_directory)))))"

subsection \<open>Accepted requests and configurations\<close>

definition valid_session_id :: "string \<Rightarrow> bool" where
  "valid_session_id identifier \<longleftrightarrow> validate_session_id identifier = Inr ()"

definition wf_request :: "control_request \<Rightarrow> bool" where
  "wf_request r \<longleftrightarrow>
     (case r of
        Create v session \<Rightarrow> wf_session session
      | CreateFromFile v name e \<Rightarrow> suffix ''.toml'' name \<and> components name = map Normal (split_on CHR ''/'' name)
      | Stop v s \<Rightarrow> valid_session_id s
      | Reload v s \<Rightarrow> valid_session_id s
      | ReloadAll v \<Rightarrow> True
      | ListSessions v \<Rightarrow> True)"

lemma components_plain:
  assumes "name \<noteq> []" "\<forall>c \<in> set (split_on CHR ''/'' name). c \<noteq> [] \<and> c \<noteq> ''.'' \<and> c \<noteq> ''..''"
  shows "components name = map Normal (split_on CHR ''/'' name)"
proof -
  have "piece_component c = [Normal c]" if "c \<in> set (split_on CHR ''/'' name)" for c
    using assms(2) that by (simp add: piece_component_def)
  then have "concat (map piece_component (split_on CHR ''/'' name)) = concat (map (\<lambda>c. [Normal c]) (split_on CHR ''/'' name))"
    by (intro arg_cong [where f = concat] map_cong refl)
  moreover have "\<not> is_absolute name"
  proof
    assume "is_absolute name"
    then have "[] \<in> set (split_on CHR ''/'' name)" by (auto simp: is_absolute_def prefix_def)
    with assms(2) show False by blast
  qed
  moreover have "hd (split_on CHR ''/'' name) \<noteq> ''.''"
    using assms(2) hd_in_set [of "split_on CHR ''/'' name"] by simp
  ultimately show ?thesis by (simp add: components_def)
qed

lemma config_name_confined:
  assumes "validate_session_config_name name = Inr ()"
  shows "suffix ''.toml'' name \<and> components name = map Normal (split_on CHR ''/'' name)"
proof -
  have "name \<noteq> []" "suffix ''.toml'' name"
    "\<forall>c \<in> set (split_on CHR ''/'' name). c \<noteq> [] \<and> c \<noteq> ''.'' \<and> c \<noteq> ''..''"
    using assms unfolding validate_session_config_name_def
    by (simp_all add: list_ex_iff split: if_split_asm)
  then show ?thesis using components_plain by blast
qed

lemma deserialize_Inr [result_simps]: "deserialize de input = Inr x \<longleftrightarrow> de input = Some x"
  by (simp add: deserialize_def result_simps)

lemma control_request_Inr:
  assumes "host_parse_law hp" "control_request_from_toml toml hp input = Inr r"
  shows "de_version toml input = Some 2" "wf_request r"
proof -
  from assms(2) obtain version raw where v: "de_version toml input = Some version" "version = 2"
    and raw: "de_request toml input = Some raw"
    by (auto simp: control_request_from_toml_def result_simps validate_protocol_version_def split: if_splits)
  then show "de_version toml input = Some 2" by simp
  show "wf_request r"
    using assms raw v validate_session_document_makes_wf [OF assms(1)]
    by (cases raw)
      (auto simp: control_request_from_toml_def result_simps validate_protocol_version_def wf_request_def
        valid_session_id_def from_toml_def config_name_confined)
qed

definition wf_daemon :: "daemon_config \<Rightarrow> bool" where
  "wf_daemon c \<longleftrightarrow>
     (let d = dc_daemon c in
      (\<forall>path \<in> {ds_control_socket d, ds_socket_dir d, ca_certificate (dc_ca c), ca_private_key (dc_ca c),
         sst_directory (dc_secrets c)}. is_absolute path) \<and>
      ds_max_sessions d > 0 \<and> ds_max_connections_per_session d > 0 \<and> ds_control_read_timeout_ms d \<noteq> 0 \<and>
      ds_max_provisioning_requests d > 0 \<and> ds_io_timeout_ms d \<noteq> 0 \<and>
      (ds_create_mode d = FileOnly \<longleftrightarrow> ds_session_config_dir d \<noteq> None) \<and>
      (\<forall>dir. ds_session_config_dir d = Some dir \<longrightarrow> is_absolute dir \<and> ParentDir \<notin> set (components dir)) \<and>
      (\<forall>s \<in> sst_allowed (dc_secrets c). valid_secret_id s))"

lemma resolve_config_path_absolute:
  "is_absolute directory \<Longrightarrow> resolve_config_path path directory \<noteq> [] \<Longrightarrow> is_absolute (resolve_config_path path directory)"
  by (auto simp: resolve_config_path_def is_absolute_join)

lemma validate_allowed_secrets_Inr:
  "validate_allowed_secrets allowed raw = Inr out \<Longrightarrow> out = allowed \<union> set raw \<and> (\<forall>s \<in> set raw. valid_secret_id s)"
  by (induction raw arbitrary: allowed)
    (auto simp: result_simps validate_secret_name_def valid_secret_id_def split: if_splits)

lemma required_path_Inr [result_simps]: "required_path path field = Inr p \<longleftrightarrow> p = path \<and> path \<noteq> []"
  by (auto simp: required_path_def)

lemma session_config_dir_for_Inr:
  "session_config_dir_for mode directory = Inr out \<Longrightarrow> out = directory \<and> (mode = FileOnly \<longleftrightarrow> directory \<noteq> None) \<and>
     (\<forall>dir. directory = Some dir \<longrightarrow> is_absolute dir \<and> ParentDir \<notin> set (components dir))"
  by (cases mode; cases directory)
    (auto simp: session_config_dir_for_def validate_session_config_dir_def result_simps list_ex_iff
      split: if_splits)

lemma from_toml_in_directory_wf:
  assumes "from_toml_in_directory de input (Some directory) = Inr c" "is_absolute directory"
  shows "wf_daemon c"
proof -
  from assms(1) obtain raw where raw: "de input = Some raw"
    by (auto simp: from_toml_in_directory_def result_simps)
  let ?raw = "resolve_paths raw directory"
  have abs: "ds_control_socket (rd_daemon ?raw) \<noteq> [] \<longrightarrow> is_absolute (ds_control_socket (rd_daemon ?raw))"
    "ds_socket_dir (rd_daemon ?raw) \<noteq> [] \<longrightarrow> is_absolute (ds_socket_dir (rd_daemon ?raw))"
    "ca_certificate (rd_ca ?raw) \<noteq> [] \<longrightarrow> is_absolute (ca_certificate (rd_ca ?raw))"
    "ca_private_key (rd_ca ?raw) \<noteq> [] \<longrightarrow> is_absolute (ca_private_key (rd_ca ?raw))"
    "rd_secrets_directory ?raw \<noteq> [] \<longrightarrow> is_absolute (rd_secrets_directory ?raw)"
    using resolve_config_path_absolute [OF assms(2)] by (simp_all add: resolve_paths_def Let_def)
  obtain session_dir allowed where
    c: "session_config_dir_for (ds_create_mode (rd_daemon ?raw)) (ds_session_config_dir (rd_daemon ?raw)) = Inr session_dir"
      "validate_allowed_secrets {} (rd_secrets_allowed ?raw) = Inr allowed"
      "dc_daemon c = (rd_daemon ?raw)\<lparr>ds_session_config_dir := session_dir\<rparr>"
      "dc_ca c = \<lparr>ca_certificate = ca_certificate (rd_ca ?raw), ca_private_key = ca_private_key (rd_ca ?raw)\<rparr>"
      "dc_secrets c = \<lparr>sst_directory = rd_secrets_directory ?raw, sst_allowed = allowed\<rparr>"
      "ds_max_sessions (rd_daemon ?raw) \<noteq> 0" "ds_max_connections_per_session (rd_daemon ?raw) \<noteq> 0"
      "ds_control_read_timeout_ms (rd_daemon ?raw) \<noteq> 0" "ds_max_provisioning_requests (rd_daemon ?raw) \<noteq> 0"
      "ds_io_timeout_ms (rd_daemon ?raw) \<noteq> 0"
      "ds_control_socket (rd_daemon ?raw) \<noteq> []" "ds_socket_dir (rd_daemon ?raw) \<noteq> []"
      "ca_certificate (rd_ca ?raw) \<noteq> []" "ca_private_key (rd_ca ?raw) \<noteq> []" "rd_secrets_directory ?raw \<noteq> []"
    using assms(1) raw by (auto simp: from_toml_in_directory_def Let_def result_simps)
  show ?thesis
    using abs c session_config_dir_for_Inr [OF c(1)] validate_allowed_secrets_Inr [OF c(2)]
    by (auto simp: wf_daemon_def Let_def)
qed

lemma path_of_absolute: "is_absolute (path_of (RootDir # cs))"
proof -
  have "is_absolute p \<Longrightarrow> is_absolute (foldl (\<lambda>path c. path_join path (component_text c)) p cs)" for p
    by (induction cs arbitrary: p) (auto simp: is_absolute_join)
  then show ?thesis by (simp add: path_of_def path_join_def is_absolute_def)
qed

lemma components_root: "RootDir \<in> set (components path) \<Longrightarrow> \<exists>cs. components path = RootDir # cs"
  by (auto simp: components_def piece_component_def split: if_splits)

subsection \<open>Properties\<close>

text \<open>
  A control request is acted on only in its protocol version and only with valid
  contents: any other version is refused as unsupported, whatever the rest of the request says;
  an inline policy is well formed, a file name is a relative path of plain components that
  ends in \<open>.toml\<close>, a session identifier is one.
\<close>

theorem control_request_wf:
  assumes "host_parse_law hp"
  shows "(\<forall>r. control_request_from_toml toml hp input = Inr r \<longrightarrow> de_version toml input = Some 2 \<and> wf_request r) \<and>
    (\<forall>v. de_version toml input = Some v \<longrightarrow> v \<noteq> 2 \<longrightarrow>
       (\<exists>e. control_request_from_toml toml hp input = Inl e \<and> is_unsupported_protocol_version e))"
  using control_request_Inr [OF assms]
  by (auto simp: control_request_from_toml_def deserialize_def validate_protocol_version_def
      is_unsupported_protocol_version_def unsupported_protocol_version_def)

definition example_toml :: "u16 \<Rightarrow> (unit, unit) toml_lib" where
  "example_toml v = \<lparr>de_version = (\<lambda>_. Some v), de_request = (\<lambda>_. Some (RawCreate v ())),
     ser_session = (\<lambda>_. Some []), de_session = (\<lambda>_. Some example_raw)\<rparr>"

text \<open>
  A daemon configuration that loads is usable: every configured path is absolute, every
  limit and timeout that must be positive is, the directory of session files is given exactly
  when sessions are created from files and has no parent component, and every permitted secret
  is a valid identifier.
\<close>

theorem daemon_config_load_wf:
  assumes "\<forall>c. cwd = Some c \<longrightarrow> is_absolute c"
    and "daemon_config_load de contents cwd path = Inr config"
  shows "wf_daemon config"
proof -
  define parent where "parent = (case parent_components (components path) of
      None \<Rightarrow> [CurDir] | Some cs \<Rightarrow> if cs = [] then [CurDir] else cs)"
  from assms(2) obtain input where i: "contents = Some input"
    by (auto simp: daemon_config_load_def result_simps)
  obtain cs where cs: "from_toml_in_directory de input (Some (path_of (filter (\<lambda>c. c \<noteq> CurDir) cs))) = Inr config"
    "cs = parent \<and> RootDir \<in> set parent \<or> (\<exists>c. cwd = Some c \<and> cs = components c @ parent)"
    using assms(2) i unfolding daemon_config_load_def parent_def [symmetric] Let_def
    by (cases "RootDir \<in> set parent") (auto simp: and_then_Inr_iff ok_or_Inr_iff)
  have "\<exists>rest. cs = RootDir # rest"
  proof (cases "RootDir \<in> set parent \<and> cs = parent")
    case True
    then obtain p where p: "parent = butlast (components path)" "RootDir \<in> set (components path)"
      by (auto simp: parent_def parent_components_def split: if_splits dest: in_set_butlastD)
    with True components_root [OF p(2)] show ?thesis by (auto split: if_splits)
  next
    case False
    then obtain c where "cwd = Some c" "cs = components c @ parent" using cs(2) by blast
    with assms(1) show ?thesis by (simp add: components_absolute)
  qed
  then obtain rest where "filter (\<lambda>c. c \<noteq> CurDir) cs = RootDir # rest" by fastforce
  with cs(1) show ?thesis using from_toml_in_directory_wf path_of_absolute by metis
qed

end
