(* ===== verification/Telemetry.thy ===== *)
theory Telemetry
  imports Prelude
begin

text \<open>
  Process-local counters: \<open>Metrics\<close> of \<open>src/telemetry.rs\<close>. Every counter is an \<open>AtomicU64\<close>,
  one atomic read-modify-write per operation, so an operation is a function on the record of
  64-bit words. Operations that report the new value return it with the new state; the
  additions and subtractions wrap.
\<close>

record metrics =
  active_sessions :: u64
  accepted_connections :: u64
  active_connections :: u64
  denied_requests :: u64
  upstream_failures :: u64
  interception_errors :: u64
  forced_shutdowns :: u64

definition metrics_default :: metrics where
  "metrics_default = \<lparr>active_sessions = 0, accepted_connections = 0, active_connections = 0,
     denied_requests = 0, upstream_failures = 0, interception_errors = 0, forced_shutdowns = 0\<rparr>"

text \<open>\<open>snapshot\<close> copies every counter.\<close>

definition snapshot :: "metrics \<Rightarrow> metrics" where
  "snapshot m = \<lparr>active_sessions = active_sessions m, accepted_connections = accepted_connections m,
     active_connections = active_connections m, denied_requests = denied_requests m,
     upstream_failures = upstream_failures m, interception_errors = interception_errors m,
     forced_shutdowns = forced_shutdowns m\<rparr>"

definition session_started :: "metrics \<Rightarrow> u64 \<times> metrics" where
  "session_started m = (active_sessions m + 1, m\<lparr>active_sessions := active_sessions m + 1\<rparr>)"

definition session_stopped :: "metrics \<Rightarrow> u64 \<times> metrics" where
  "session_stopped m = (active_sessions m - 1, m\<lparr>active_sessions := active_sessions m - 1\<rparr>)"

definition connection_started :: "metrics \<Rightarrow> metrics" where
  "connection_started m = m\<lparr>accepted_connections := accepted_connections m + 1,
     active_connections := active_connections m + 1\<rparr>"

definition connection_stopped :: "metrics \<Rightarrow> metrics" where
  "connection_stopped m = m\<lparr>active_connections := active_connections m - 1\<rparr>"

definition denied_request :: "metrics \<Rightarrow> u64 \<times> metrics" where
  "denied_request m = (denied_requests m + 1, m\<lparr>denied_requests := denied_requests m + 1\<rparr>)"

definition upstream_failure :: "metrics \<Rightarrow> u64 \<times> metrics" where
  "upstream_failure m = (upstream_failures m + 1, m\<lparr>upstream_failures := upstream_failures m + 1\<rparr>)"

definition interception_error :: "metrics \<Rightarrow> u64 \<times> metrics" where
  "interception_error m = (interception_errors m + 1, m\<lparr>interception_errors := interception_errors m + 1\<rparr>)"

definition forced_shutdown :: "metrics \<Rightarrow> u64 \<times> metrics" where
  "forced_shutdown m = (forced_shutdowns m + 1, m\<lparr>forced_shutdowns := forced_shutdowns m + 1\<rparr>)"

lemmas metrics_defs = session_started_def session_stopped_def connection_started_def
  connection_stopped_def denied_request_def upstream_failure_def interception_error_def
  forced_shutdown_def

text \<open>A snapshot is faithful, and the active gauges return to their value after a start and a stop.\<close>

lemma snapshot_id: "snapshot m = m"
  by (simp add: snapshot_def)

lemma session_start_stop: "snd (session_stopped (snd (session_started m))) = m"
  by (simp add: metrics_defs)

lemma connection_start_stop:
  "connection_stopped (connection_started m) = m\<lparr>accepted_connections := accepted_connections m + 1\<rparr>"
  by (simp add: metrics_defs)

end
