(* ===== verification/Session_Manager.thy ===== *)
theory Session_Manager
  imports Secret_Store Control_Config Telemetry
begin

text \<open>
  The session registry: \<open>src/control/session.rs\<close>, with the parts of \<open>ProxyRuntime\<close>
  (\<open>src/proxy_runtime/rama.rs\<close>) that the registry works with. The registry is behind a mutex; a
  critical section is a function on \<open>session_registry\<close>, and an operation with several critical
  sections is that many functions. How they interleave is
  the step relation of \<open>Session_Steps\<close>.

  A runtime is its handle: the generation of its listener, its socket, its seed, the policy
  generation that new connections get, and the weak references to the generations that
  connections may still hold; \<open>alive\<close> says which of them are still referenced.
\<close>

subsection \<open>Runtimes\<close>

record generation =
  pg_policy :: session_policy
  pg_secrets :: "(string \<times> string) list"

record runtime =
  rt_listener_generation :: u64
  rt_socket :: string
  rt_seed :: string
  rt_retired :: bool
  rt_current :: generation
  rt_generations :: "nat list"
  rt_next :: nat

definition MAX_POLICY_GENERATIONS :: nat where
  "MAX_POLICY_GENERATIONS = 8"

definition runtime_start :: "hmac_fun \<Rightarrow> encoder \<Rightarrow> session_config \<Rightarrow> (string \<times> string) list \<Rightarrow> string \<Rightarrow>
    string \<Rightarrow> u64 \<Rightarrow> runtime" where
  "runtime_start hmac b64url session secrets seed socket_path listener_generation =
     \<lparr>rt_listener_generation = listener_generation, rt_socket = socket_path, rt_seed = seed, rt_retired = False,
      rt_current = \<lparr>pg_policy = session_policy_compile hmac b64url session seed, pg_secrets = secrets\<rparr>,
      rt_generations = [0], rt_next = 1\<rparr>"

text \<open>\<open>replace_generation\<close>: the second component is the runtime afterwards, also on failure.\<close>

definition replace_generation :: "hmac_fun \<Rightarrow> encoder \<Rightarrow> (nat \<Rightarrow> bool) \<Rightarrow> runtime \<Rightarrow> session_config \<Rightarrow>
    (string \<times> string) list \<Rightarrow> bool \<times> runtime" where
  "replace_generation hmac b64url alive self session secrets =
     (let generations = filter alive (rt_generations self) in
      if length generations \<ge> MAX_POLICY_GENERATIONS
      then (False, self\<lparr>rt_generations := generations\<rparr>)
      else (True, self\<lparr>rt_current := \<lparr>pg_policy = session_policy_compile hmac b64url session (rt_seed self),
          pg_secrets = secrets\<rparr>,
        rt_generations := generations @ [rt_next self], rt_next := Suc (rt_next self)\<rparr>))"

definition retire :: "runtime \<Rightarrow> runtime" where
  "retire self = self\<lparr>rt_retired := True\<rparr>"

subsection \<open>The registry\<close>

datatype session_lifecycle = Running | Stopping

record session_info =
  si_id :: string
  si_socket :: string
  si_persistent :: bool
  si_state :: session_lifecycle
  si_generation :: u64
  si_draining_generations :: nat

record managed_session =
  ms_info :: session_info
  ms_configuration :: session_config
  ms_secrets :: "(string \<times> string) list"
  ms_config_source :: "string option"
  ms_runtime :: "runtime option"
  ms_retired_runtimes :: "runtime list"
  ms_listener_gate :: u64
  ms_listener_generation :: u64

record session_registry =
  rg_accepting_sessions :: bool
  rg_sessions :: "string \<rightharpoonup> managed_session"
  rg_provisioning :: "string set"

datatype session_error = AtCapacity | RuntimeError | ShuttingDown | InternalError

definition registry_new :: session_registry where
  "registry_new = \<lparr>rg_accepting_sessions = True, rg_sessions = Map.empty, rg_provisioning = {}\<rparr>"

text \<open>\<open>new_session_id\<close>: sixteen random bytes in lower-case hexadecimal.\<close>

definition hex_digit :: "nat \<Rightarrow> char" where
  "hex_digit n = (if n < 10 then char_of (48 + n) else char_of (87 + n))"

definition new_session_id :: "u8 list \<Rightarrow> string" where
  "new_session_id random =
     concat (map (\<lambda>b. [hex_digit (unat (drop_bit 4 b)), hex_digit (unat (b AND 0x0F))]) random)"

text \<open>The socket path of a session below \<open>socket_dir\<close>; \<open>cwd\<close> is the current directory.\<close>

definition absolute_socket_path :: "string option \<Rightarrow> string \<Rightarrow> string option" where
  "absolute_socket_path cwd path =
     (if is_absolute path then Some path else map_option (\<lambda>c. path_join c path) cwd)"

definition session_socket_name :: "string \<Rightarrow> session_config \<Rightarrow> string" where
  "session_socket_name sid session = (case sc_socket_name session of Some n \<Rightarrow> n | None \<Rightarrow> sid @ ''.sock'')"

text \<open>\<open>create\<close>: reserve an identifier, give it back, or turn it into a session.\<close>

definition create_reserve :: "nat \<Rightarrow> string \<Rightarrow> session_registry \<Rightarrow> session_error + session_registry" where
  "create_reserve max_sessions sid registry =
     (if \<not> rg_accepting_sessions registry then Inl ShuttingDown
      else if card (dom (rg_sessions registry)) + card (rg_provisioning registry) \<ge> max_sessions then Inl AtCapacity
      else if rg_sessions registry sid \<noteq> None \<or> sid \<in> rg_provisioning registry then Inl InternalError
      else Inr (registry\<lparr>rg_provisioning := insert sid (rg_provisioning registry)\<rparr>))"

definition create_release :: "string \<Rightarrow> session_registry \<Rightarrow> session_registry" where
  "create_release sid registry = registry\<lparr>rg_provisioning := rg_provisioning registry - {sid}\<rparr>"

definition create_commit :: "string \<Rightarrow> session_config \<Rightarrow> (string \<times> string) list \<Rightarrow> string option \<Rightarrow> runtime \<Rightarrow>
    session_registry \<Rightarrow> (session_error + session_info) \<times> session_registry" where
  "create_commit sid session secrets config_source runtime registry =
     (let info = \<lparr>si_id = sid, si_socket = rt_socket runtime, si_persistent = sc_persistent session,
            si_state = Running, si_generation = 1, si_draining_generations = 0\<rparr>;
          released = create_release sid registry in
      if \<not> rg_accepting_sessions released then (Inl ShuttingDown, released)
      else (Inr info, released\<lparr>rg_sessions := (rg_sessions released)(sid \<mapsto>
        \<lparr>ms_info = info, ms_configuration = session, ms_secrets = secrets, ms_config_source = config_source,
         ms_runtime = Some runtime, ms_retired_runtimes = [], ms_listener_gate = 1,
         ms_listener_generation = 1\<rparr>)\<rparr>))"

definition reject_new_sessions :: "session_registry \<Rightarrow> session_registry" where
  "reject_new_sessions registry = registry\<lparr>rg_accepting_sessions := False\<rparr>"

text \<open>
  \<open>stop\<close>, \<open>remove\<close> and \<open>runtime_exit\<close> mark a session and take its runtimes in one section,
  shut the runtimes down, and remove the session in another.
\<close>

definition update_session :: "string \<Rightarrow> managed_session \<Rightarrow> session_registry \<Rightarrow> session_registry" where
  "update_session sid s registry = registry\<lparr>rg_sessions := (rg_sessions registry)(sid \<mapsto> s)\<rparr>"

definition take_runtimes :: "managed_session \<Rightarrow> runtime list \<times> managed_session" where
  "take_runtimes s =
     (ms_retired_runtimes s @ (case ms_runtime s of None \<Rightarrow> [] | Some r \<Rightarrow> [r]),
      s\<lparr>ms_info := (ms_info s)\<lparr>si_state := Stopping\<rparr>, ms_retired_runtimes := [], ms_runtime := None\<rparr>)"

datatype mark_result = Absent | AlreadyStopping | Retained | Taken "runtime list"

definition stop_mark :: "string \<Rightarrow> session_registry \<Rightarrow> mark_result \<times> session_registry" where
  "stop_mark sid registry =
     (case rg_sessions registry sid of
        None \<Rightarrow> (Absent, registry)
      | Some s \<Rightarrow>
          if si_state (ms_info s) = Stopping then (AlreadyStopping, registry)
          else (let (runtimes, s') = take_runtimes s in (Taken runtimes, update_session sid s' registry)))"

definition remove_mark :: "string \<Rightarrow> session_registry \<Rightarrow> mark_result \<times> session_registry" where
  "remove_mark sid registry =
     (case rg_sessions registry sid of
        None \<Rightarrow> (Absent, registry)
      | Some s \<Rightarrow>
          if si_state (ms_info s) = Stopping \<and> ms_runtime s = None then (AlreadyStopping, registry)
          else (let (runtimes, s') = take_runtimes s in (Taken runtimes, update_session sid s' registry)))"

definition runtime_exit_mark :: "string \<Rightarrow> u64 \<Rightarrow> session_registry \<Rightarrow> mark_result \<times> session_registry" where
  "runtime_exit_mark sid listener_generation registry =
     (case rg_sessions registry sid of
        None \<Rightarrow> (Absent, registry)
      | Some s \<Rightarrow>
          if ms_listener_generation s \<noteq> listener_generation then
            (let retired = filter (\<lambda>r. rt_listener_generation r \<noteq> listener_generation) (ms_retired_runtimes s) in
             (Retained, update_session sid (s\<lparr>ms_retired_runtimes := retired,
               ms_info := (ms_info s)\<lparr>si_draining_generations := length retired\<rparr>\<rparr>) registry))
          else if si_state (ms_info s) = Stopping \<and> ms_runtime s = None then (AlreadyStopping, registry)
          else (let (runtimes, s') = take_runtimes s in (Taken runtimes, update_session sid s' registry)))"

definition remove_session :: "string \<Rightarrow> session_registry \<Rightarrow> bool \<times> session_registry" where
  "remove_session sid registry =
     (rg_sessions registry sid \<noteq> None, registry\<lparr>rg_sessions := (rg_sessions registry)(sid := None)\<rparr>)"

text \<open>\<open>list\<close>: drop the retired runtimes that have finished, then report, ordered by identifier.\<close>

definition prune_retired :: "(runtime \<Rightarrow> bool) \<Rightarrow> managed_session \<Rightarrow> managed_session" where
  "prune_retired is_finished s =
     (let retired = filter (\<lambda>r. \<not> is_finished r) (ms_retired_runtimes s) in
      s\<lparr>ms_retired_runtimes := retired, ms_info := (ms_info s)\<lparr>si_draining_generations := length retired\<rparr>\<rparr>)"

definition list_sessions :: "(runtime \<Rightarrow> bool) \<Rightarrow> session_registry \<Rightarrow> session_info list \<times> session_registry" where
  "list_sessions is_finished registry =
     (let sessions = (\<lambda>sid. map_option (prune_retired is_finished) (rg_sessions registry sid)) in
      (sort_key si_id (map (\<lambda>sid. ms_info (the (sessions sid))) (sorted_list_of_set (dom sessions))),
       registry\<lparr>rg_sessions := sessions\<rparr>))"

text \<open>\<open>reload.rs\<close>: the listeners of a session that may still be draining.\<close>

definition MAX_RETIRED_LISTENERS :: nat where
  "MAX_RETIRED_LISTENERS = 8"

text \<open>
  \<open>shutdown_all\<close>: refuse new sessions and note the identifiers; mark each session in a section of
  its own; shut down the runtimes; clear. The identifiers come out of a hash map in any order:
  \<open>ids\<close> is that order.
\<close>

definition shutdown_begin :: "session_registry \<Rightarrow> session_registry" where
  "shutdown_begin registry = registry\<lparr>rg_accepting_sessions := False, rg_provisioning := {}\<rparr>"

definition shutdown_mark :: "string \<Rightarrow> session_registry \<Rightarrow> runtime list option \<times> session_registry" where
  "shutdown_mark sid registry =
     (case rg_sessions registry sid of
        None \<Rightarrow> (None, registry)
      | Some s \<Rightarrow> (let (runtimes, s') = take_runtimes s in (Some runtimes, update_session sid s' registry)))"

definition shutdown_clear :: "session_registry \<Rightarrow> session_registry" where
  "shutdown_clear registry = registry\<lparr>rg_sessions := Map.empty\<rparr>"

fun shutdown_mark_all :: "string list \<Rightarrow> runtime list \<Rightarrow> nat \<Rightarrow> session_registry \<Rightarrow>
    runtime list \<times> nat \<times> session_registry" where
  "shutdown_mark_all [] runtimes session_count registry = (runtimes, session_count, registry)"
| "shutdown_mark_all (sid # ids) runtimes session_count registry =
     (case shutdown_mark sid registry of
        (None, registry) \<Rightarrow> shutdown_mark_all ids runtimes session_count registry
      | (Some taken, registry) \<Rightarrow> shutdown_mark_all ids (runtimes @ taken) (Suc session_count) registry)"

text \<open>\<open>shutdown_all\<close> with nothing else running: the runtimes shut down, and the gauge counted down.\<close>

definition shutdown_all :: "string list \<Rightarrow> session_registry \<Rightarrow> runtime list \<times> nat \<times> session_registry" where
  "shutdown_all ids registry =
     (let (runtimes, session_count, registry) = shutdown_mark_all ids [] 0 (shutdown_begin registry) in
      (runtimes, session_count, shutdown_clear registry))"

subsection \<open>Invariant\<close>

text \<open>
  A session is stored under its own identifier; it has a current runtime exactly while it is
  running, whose generation is the one the gate admits, and at most eight retired listeners, all
  of earlier generations.
\<close>

definition session_ok :: "string \<Rightarrow> managed_session \<Rightarrow> bool" where
  "session_ok sid s \<longleftrightarrow> si_id (ms_info s) = sid \<and>
     (si_state (ms_info s) = Running \<longleftrightarrow> ms_runtime s \<noteq> None) \<and>
     (\<forall>r. ms_runtime s = Some r \<longrightarrow> rt_listener_generation r = ms_listener_generation s \<and>
        rt_socket r = si_socket (ms_info s) \<and> \<not> rt_retired r) \<and>
     ms_listener_gate s = ms_listener_generation s \<and>
     length (ms_retired_runtimes s) \<le> MAX_RETIRED_LISTENERS \<and>
     (\<forall>r \<in> set (ms_retired_runtimes s). rt_retired r \<and> rt_listener_generation r < ms_listener_generation s)"

definition registry_inv :: "nat \<Rightarrow> session_registry \<Rightarrow> bool" where
  "registry_inv max_sessions r \<longleftrightarrow> finite (dom (rg_sessions r)) \<and> finite (rg_provisioning r) \<and>
     dom (rg_sessions r) \<inter> rg_provisioning r = {} \<and>
     card (dom (rg_sessions r)) + card (rg_provisioning r) \<le> max_sessions \<and>
     (\<forall>sid s. rg_sessions r sid = Some s \<longrightarrow> session_ok sid s)"

lemma registry_inv_insert:
  assumes "registry_inv max_sessions r" "sid \<notin> dom (rg_sessions r)"
    "card (dom (rg_sessions r)) + card (insert sid (rg_provisioning r)) \<le> max_sessions"
  shows "registry_inv max_sessions (r\<lparr>rg_provisioning := insert sid (rg_provisioning r)\<rparr>)"
  using assms by (simp add: registry_inv_def Int_insert_right)

lemma create_reserve_inv:
  assumes "create_reserve max_sessions sid r = Inr r'" "registry_inv max_sessions r"
  shows "registry_inv max_sessions r'" "rg_sessions r' = rg_sessions r" "rg_accepting_sessions r"
    "rg_accepting_sessions r'" "rg_provisioning r' = insert sid (rg_provisioning r)" "sid \<notin> rg_provisioning r"
    "sid \<notin> dom (rg_sessions r)"
proof -
  have r': "r' = r\<lparr>rg_provisioning := insert sid (rg_provisioning r)\<rparr>" "sid \<notin> dom (rg_sessions r)"
    "sid \<notin> rg_provisioning r" "card (dom (rg_sessions r)) + card (rg_provisioning r) < max_sessions"
    "rg_accepting_sessions r"
    using assms(1) by (auto simp: create_reserve_def split: if_splits)
  moreover have "finite (rg_provisioning r)" using assms(2) by (simp add: registry_inv_def)
  ultimately show "registry_inv max_sessions r'" using registry_inv_insert [OF assms(2), of sid] by simp
  show "rg_sessions r' = rg_sessions r" "rg_accepting_sessions r"
    "rg_accepting_sessions r'" "rg_provisioning r' = insert sid (rg_provisioning r)" "sid \<notin> rg_provisioning r"
    "sid \<notin> dom (rg_sessions r)" using r' by simp_all
qed

lemma create_release_inv:
  "registry_inv max_sessions r \<Longrightarrow> registry_inv max_sessions (create_release sid r)"
  using card_Diff1_le [of "rg_provisioning r" sid] by (auto simp: create_release_def registry_inv_def)

text \<open>A commit moves the identifier from the reservations to the sessions.\<close>

definition committed :: "string \<Rightarrow> session_config \<Rightarrow> (string \<times> string) list \<Rightarrow> string option \<Rightarrow> runtime \<Rightarrow> managed_session" where
  "committed sid session secrets source rt =
     \<lparr>ms_info = \<lparr>si_id = sid, si_socket = rt_socket rt, si_persistent = sc_persistent session,
        si_state = Running, si_generation = 1, si_draining_generations = 0\<rparr>,
      ms_configuration = session, ms_secrets = secrets, ms_config_source = source,
      ms_runtime = Some rt, ms_retired_runtimes = [], ms_listener_gate = 1, ms_listener_generation = 1\<rparr>"

lemma create_commit_Inr:
  "create_commit sid session secrets source rt r = (Inr info, r') \<longleftrightarrow> rg_accepting_sessions r \<and>
     info = ms_info (committed sid session secrets source rt) \<and>
     r' = r\<lparr>rg_provisioning := rg_provisioning r - {sid},
            rg_sessions := (rg_sessions r)(sid \<mapsto> committed sid session secrets source rt)\<rparr>"
  by (auto simp: create_commit_def create_release_def committed_def Let_def)

lemma committed_ok:
  "rt_listener_generation rt = 1 \<Longrightarrow> \<not> rt_retired rt \<Longrightarrow> session_ok sid (committed sid session secrets source rt)"
  by (simp add: session_ok_def committed_def)

lemma create_commit_inv:
  assumes "create_commit sid session secrets source rt r = (Inr info, r')" "registry_inv max_sessions r"
    and "sid \<in> rg_provisioning r" "rt_listener_generation rt = 1" "\<not> rt_retired rt"
  shows "registry_inv max_sessions r'" "card (dom (rg_sessions r')) = Suc (card (dom (rg_sessions r)))"
    "rg_provisioning r' = rg_provisioning r - {sid}" "rg_accepting_sessions r'"
proof -
  have p: "card (rg_provisioning r) = Suc (card (rg_provisioning r - {sid}))"
    using assms(2,3) by (metis card_Suc_Diff1 registry_inv_def)
  have n: "sid \<notin> dom (rg_sessions r)" using assms(2,3) by (auto simp: registry_inv_def)
  have r': "r' = r\<lparr>rg_provisioning := rg_provisioning r - {sid},
      rg_sessions := (rg_sessions r)(sid \<mapsto> committed sid session secrets source rt)\<rparr>" "rg_accepting_sessions r"
    using assms(1) by (simp_all add: create_commit_Inr)
  show "rg_provisioning r' = rg_provisioning r - {sid}" "rg_accepting_sessions r'" using r' by simp_all
  show "card (dom (rg_sessions r')) = Suc (card (dom (rg_sessions r)))"
    using r'(1) n assms(2) by (simp add: registry_inv_def)
  then show "registry_inv max_sessions r'"
    using assms(2) r'(1) n p committed_ok [OF assms(4,5)] by (auto simp: registry_inv_def)
qed

lemma create_commit_refused:
  "create_commit sid session secrets source rt r = (Inl e, r') \<Longrightarrow>
   r' = create_release sid r \<and> \<not> rg_accepting_sessions r"
  by (auto simp: create_commit_def create_release_def Let_def split: if_splits)

lemma update_session_inv:
  assumes "registry_inv max_sessions r" "rg_sessions r sid \<noteq> None" "session_ok sid s"
  shows "registry_inv max_sessions (update_session sid s r)"
    "dom (rg_sessions (update_session sid s r)) = dom (rg_sessions r)"
    "rg_provisioning (update_session sid s r) = rg_provisioning r"
    "rg_accepting_sessions (update_session sid s r) = rg_accepting_sessions r"
proof -
  show d: "dom (rg_sessions (update_session sid s r)) = dom (rg_sessions r)"
    using assms(2) by (auto simp: update_session_def)
  show "registry_inv max_sessions (update_session sid s r)"
    using assms d by (auto simp: registry_inv_def update_session_def)
qed (simp_all add: update_session_def)

text \<open>Marking a session, or dropping a drained listener, updates that session and nothing else.\<close>

lemma take_runtimes_ok: "session_ok sid s \<Longrightarrow> session_ok sid (snd (take_runtimes s))"
  by (simp add: session_ok_def take_runtimes_def)

lemma drop_retired_ok:
  assumes "session_ok sid s"
  shows "session_ok sid (s\<lparr>ms_retired_runtimes := filter P (ms_retired_runtimes s),
      ms_info := (ms_info s)\<lparr>si_draining_generations := n\<rparr>\<rparr>)"
  using assms le_trans [OF length_filter_le [of P "ms_retired_runtimes s"]] by (simp add: session_ok_def)

lemma remove_session_inv:
  assumes "remove_session sid r = (present, r')" "registry_inv max_sessions r"
  shows "registry_inv max_sessions r'"
    "card (dom (rg_sessions r')) + (if present then 1 else 0) = card (dom (rg_sessions r))"
    "rg_provisioning r' = rg_provisioning r" "rg_accepting_sessions r' = rg_accepting_sessions r"
proof -
  have d: "dom (rg_sessions r') = dom (rg_sessions r) - {sid}" "present \<longleftrightarrow> sid \<in> dom (rg_sessions r)"
    and r': "rg_provisioning r' = rg_provisioning r" "rg_accepting_sessions r' = rg_accepting_sessions r"
    using assms(1) by (auto simp: remove_session_def split: if_splits)
  then show "rg_provisioning r' = rg_provisioning r" "rg_accepting_sessions r' = rg_accepting_sessions r" by auto
  have fin: "finite (dom (rg_sessions r))" using assms(2) by (simp add: registry_inv_def)
  then show "card (dom (rg_sessions r')) + (if present then 1 else 0) = card (dom (rg_sessions r))"
    using d by (cases present) (auto simp: card_Suc_Diff1 simp del: card_Diff_insert)
  have "card (dom (rg_sessions r')) \<le> card (dom (rg_sessions r))" using d(1) fin by (simp add: card_mono)
  then show "registry_inv max_sessions r'"
    using assms d r' by (auto simp: registry_inv_def remove_session_def split: if_splits)
qed

lemma prune_retired_ok: "session_ok sid s \<Longrightarrow> session_ok sid (prune_retired is_finished s)"
  unfolding prune_retired_def Let_def by (rule drop_retired_ok)

lemma list_sessions_inv:
  assumes "list_sessions is_finished r = (infos, r')" "registry_inv max_sessions r"
  shows "registry_inv max_sessions r'" "dom (rg_sessions r') = dom (rg_sessions r)"
    "rg_provisioning r' = rg_provisioning r" "rg_accepting_sessions r' = rg_accepting_sessions r"
proof -
  have s: "rg_sessions r' = (\<lambda>sid. map_option (prune_retired is_finished) (rg_sessions r sid))"
    and r': "rg_provisioning r' = rg_provisioning r" "rg_accepting_sessions r' = rg_accepting_sessions r"
    using assms(1) by (auto simp: list_sessions_def Let_def)
  show d: "dom (rg_sessions r') = dom (rg_sessions r)" by (auto simp: s dom_def)
  show "rg_provisioning r' = rg_provisioning r" "rg_accepting_sessions r' = rg_accepting_sessions r"
    using r' by auto
  show "registry_inv max_sessions r'"
    using assms(2) d r' prune_retired_ok by (auto simp: registry_inv_def s)
qed


subsection \<open>Identifiers\<close>

lemma hex_digit_inj: "m < 16 \<Longrightarrow> n < 16 \<Longrightarrow> hex_digit m = hex_digit n \<longleftrightarrow> m = n"
  by (auto simp: hex_digit_def byte_eq_iff split: if_splits)

lemma hex_digit_alphanumeric: "n < 16 \<Longrightarrow> is_ascii_alphanumeric (hex_digit n)"
  by (auto simp: hex_digit_def byte_defs)

lemma low_nibble: "unat (b AND 0x0F :: u8) = unat b mod 16"
proof -
  have "b AND 0x0F = take_bit 4 b" by (simp add: take_bit_eq_mask mask_eq_exp_minus_1)
  then have "unat (b AND 0x0F) = take_bit 4 (unat b)" by (simp only: unsigned_take_bit_eq)
  then show ?thesis by (simp add: take_bit_eq_mod)
qed

lemma high_nibble: "unat (drop_bit 4 b :: u8) = unat b div 16"
proof -
  have "unat (drop_bit 4 b) = drop_bit 4 (unat b)" by (rule unat_drop_bit_eq)
  then show ?thesis by (simp only: drop_bit_eq_div) simp
qed

lemma high_nibble_less: "unat (b :: u8) div 16 < 16"
  using unsigned_less [of b, where 'a = nat] by (simp add: less_mult_imp_div_less)

lemma nibbles_inj:
  assumes "unat (a :: u8) div 16 = unat b div 16" "unat a mod 16 = unat b mod 16"
  shows "a = b"
  using assms by (metis div_mult_mod_eq word_unat_eq_iff)

lemma new_session_id_Cons:
  "new_session_id (b # bs) = hex_digit (unat b div 16) # hex_digit (unat b mod 16) # new_session_id bs"
  by (simp add: new_session_id_def low_nibble high_nibble)

lemma new_session_id_inj:
  "length a = length b \<Longrightarrow> new_session_id a = new_session_id b \<longleftrightarrow> a = b"
proof (induction a b rule: list_induct2)
  case (Cons x xs y ys)
  then show ?case
    using nibbles_inj [of x y] high_nibble_less [of x] high_nibble_less [of y]
    by (auto simp: new_session_id_Cons hex_digit_inj)
qed simp

lemma new_session_id_length: "length (new_session_id bs) = 2 * length bs"
  by (induction bs) (simp_all add: new_session_id_Cons, simp add: new_session_id_def)

lemma new_session_id_alphanumeric: "list_all is_ascii_alphanumeric (new_session_id bs)"
  by (induction bs)
    (simp_all add: new_session_id_Cons hex_digit_alphanumeric high_nibble_less, simp add: new_session_id_def)

subsection \<open>Shutdown\<close>

lemma shutdown_mark_all_eq:
  assumes "distinct ids" "set ids \<subseteq> dom (rg_sessions r)"
  shows "\<exists>r'. shutdown_mark_all ids rts n r =
      (rts @ concat (map (\<lambda>sid. fst (take_runtimes (the (rg_sessions r sid)))) ids), n + length ids, r') \<and>
    rg_accepting_sessions r' = rg_accepting_sessions r \<and> rg_provisioning r' = rg_provisioning r"
  using assms
proof (induction ids arbitrary: rts n r)
  case (Cons sid ids)
  then obtain s where s: "rg_sessions r sid = Some s" by auto
  let ?r = "update_session sid (snd (take_runtimes s)) r"
  have "concat (map (\<lambda>sid. fst (take_runtimes (the (rg_sessions ?r sid)))) ids) =
      concat (map (\<lambda>sid. fst (take_runtimes (the (rg_sessions r sid)))) ids)"
    using Cons.prems(1) by (intro arg_cong [where f = concat] map_cong) (auto simp: update_session_def)
  moreover have "set ids \<subseteq> dom (rg_sessions ?r)" using Cons.prems(2) by (auto simp: update_session_def)
  moreover have "rg_accepting_sessions ?r = rg_accepting_sessions r" "rg_provisioning ?r = rg_provisioning r"
    by (simp_all add: update_session_def)
  ultimately show ?case
    using Cons.IH [of ?r "rts @ fst (take_runtimes s)" "Suc n"] Cons.prems(1) s
    by (simp add: shutdown_mark_def case_prod_beta)
qed simp

text \<open>
  Session identifiers: an identifier made from sixteen random bytes is 32 characters long, is
  accepted wherever a request names a session, and two identifiers are equal only if they come
  from the same bytes, so no randomness is lost.
\<close>

theorem session_id_faithful:
  assumes "length a = 16" "length b = 16"
  shows "length (new_session_id a) = 32 \<and> validate_session_id (new_session_id a) = Inr () \<and>
    (new_session_id a = new_session_id b \<longleftrightarrow> a = b)"
proof -
  have "validate_session_id (new_session_id a) = Inr ()"
    using assms(1) new_session_id_length [of a] new_session_id_alphanumeric [of a]
    by (auto simp: validate_session_id_def list_all_iff)
  then show ?thesis using assms new_session_id_inj [of a b] by (simp add: new_session_id_length)
qed

text \<open>
  Shutdown is complete: whatever the order in which the sessions are visited, every current
  and every retired runtime of every session is shut down exactly once, the gauge goes down by
  the number of sessions, and the registry is left empty, without reservations and closed to new
  sessions.
\<close>

theorem shutdown_all_complete:
  assumes "distinct ids" "set ids = dom (rg_sessions registry)"
  shows "shutdown_all ids registry =
    (concat (map (\<lambda>sid. ms_retired_runtimes (the (rg_sessions registry sid)) @
        (case ms_runtime (the (rg_sessions registry sid)) of None \<Rightarrow> [] | Some rt \<Rightarrow> [rt])) ids),
     card (dom (rg_sessions registry)),
     \<lparr>rg_accepting_sessions = False, rg_sessions = Map.empty, rg_provisioning = {}\<rparr>)"
proof -
  have "length ids = card (dom (rg_sessions registry))" using assms by (metis distinct_card)
  then show ?thesis
    using shutdown_mark_all_eq [of ids "shutdown_begin registry" "[]" 0] assms
    by (auto simp: shutdown_all_def shutdown_begin_def shutdown_clear_def take_runtimes_def)
qed

definition example_runtime :: "u64 \<Rightarrow> runtime" where
  "example_runtime n = runtime_start (\<lambda>k m. m) (\<lambda>m. m) example_session [(''api.token'', ''s3cret'')] ''seed''
     ''/run/baffle/a.sock'' n"

definition example_managed :: "string \<Rightarrow> managed_session" where
  "example_managed sid = (committed sid example_session [(''api.token'', ''s3cret'')] (Some ''a.toml'') (example_runtime 1))"

lemma example_managed_ok: "session_ok sid (example_managed sid)"
  by (simp add: example_managed_def example_runtime_def runtime_start_def committed_ok)

text \<open>
  Listing: the report has one entry for each session, in strictly increasing order of the
  identifiers, whose entry is what the registry holds of it, with the number of listeners that
  are still draining.
\<close>

theorem list_sessions_exact:
  assumes "registry_inv max_sessions registry" "list_sessions is_finished registry = (infos, registry')"
  shows "sorted_wrt (<) (map si_id infos) \<and> set (map si_id infos) = dom (rg_sessions registry) \<and>
    (\<forall>info \<in> set infos. \<exists>s. rg_sessions registry (si_id info) = Some s \<and>
      info = (ms_info s)\<lparr>si_draining_generations := length (filter (\<lambda>r. \<not> is_finished r) (ms_retired_runtimes s))\<rparr>)"
proof -
  let ?f = "\<lambda>sid. ms_info (prune_retired is_finished (the (rg_sessions registry sid)))"
  let ?ids = "sorted_list_of_set (dom (rg_sessions registry))"
  have fin: "finite (dom (rg_sessions registry))" using assms(1) by (simp add: registry_inv_def)
  have id: "si_id (?f sid) = sid" if "sid \<in> dom (rg_sessions registry)" for sid
    using that assms(1) by (auto simp: registry_inv_def session_ok_def prune_retired_def Let_def)
  have keys: "map si_id (map ?f ?ids) = ?ids" using id fin by (auto simp: comp_def intro!: map_idI)
  have d: "dom (\<lambda>sid. map_option (prune_retired is_finished) (rg_sessions registry sid)) = dom (rg_sessions registry)"
    by (auto simp: dom_def)
  have "infos = sort_key si_id (map ?f ?ids)"
    using assms(2) fin
    by (auto simp: list_sessions_def Let_def d intro!: arg_cong [where f = "sort_key si_id"])
  also have "\<dots> = map ?f ?ids" by (rule sort_key_id_if_sorted) (simp only: keys sorted_sorted_list_of_set)
  finally have infos: "infos = map ?f ?ids" .
  with keys have "map si_id infos = ?ids" by simp
  moreover have "\<exists>s. rg_sessions registry (si_id info) = Some s \<and>
      info = (ms_info s)\<lparr>si_draining_generations := length (filter (\<lambda>r. \<not> is_finished r) (ms_retired_runtimes s))\<rparr>"
    if "info \<in> set infos" for info
  proof -
    from that fin obtain sid where "sid \<in> dom (rg_sessions registry)" "info = ?f sid" by (auto simp: infos)
    with id [of sid] show ?thesis by (auto simp: prune_retired_def Let_def)
  qed
  ultimately show ?thesis using fin by simp
qed

end
