(* ===== verification/Import_Compose.thy ===== *)
theory Import_Compose
  imports Control_Config
begin

unbundle bit_operations_syntax

text \<open>
  Session configuration files: \<open>src/control/file_config.rs\<close>. A session is composed from a root
  file and the files it imports, all below one trusted directory.

  The file system is the environment \<open>config_dir\<close>: what opening a directory or a file gives,
  by its components below the store's directory, with \<open>O_NOFOLLOW\<close> already in effect. The TOML
  library is \<open>toml_view\<close>: the keys of the document that the code looks at, and the text of the
  document without its imports. The stack of files being composed is an argument, as pushes and
  pops are balanced; the rest of \<open>Composition\<close> is a record that is passed along.
\<close>

subsection \<open>Errors\<close>

datatype file_error_kind = FileNotFound | FileUnavailable | FileInvalid

record file_error =
  fe_kind :: file_error_kind
  fe_detail :: string

definition file_invalid :: "string \<Rightarrow> file_error" where
  "file_invalid detail = \<lparr>fe_kind = FileInvalid, fe_detail = detail\<rparr>"

definition create_code :: "file_error \<Rightarrow> string" where
  "create_code e = (case fe_kind e of
       FileNotFound \<Rightarrow> ''config_file_not_found''
     | FileUnavailable \<Rightarrow> ''config_file_unavailable''
     | FileInvalid \<Rightarrow> ''config_file_invalid'')"

definition reload_reason :: "file_error \<Rightarrow> string" where
  "reload_reason e = (case fe_kind e of
       FileNotFound \<Rightarrow> ''configuration_not_found''
     | FileUnavailable \<Rightarrow> ''configuration_unavailable''
     | FileInvalid \<Rightarrow> ''configuration_invalid'')"

definition quoted :: "string \<Rightarrow> string" where
  "quoted s = [CHR 0x60] @ s @ [CHR 0x60]"

definition invalid_file :: "string \<Rightarrow> string \<Rightarrow> file_error" where
  "invalid_file name detail = file_invalid (''session configuration '' @ quoted name @ '' '' @ detail)"

definition unavailable_file :: "string \<Rightarrow> file_error" where
  "unavailable_file name = \<lparr>fe_kind = FileUnavailable,
     fe_detail = ''session configuration '' @ quoted name @ '' could not be read safely''\<rparr>"

datatype io_kind = NotFoundIo | OtherIo

definition classify_config_file_io :: "io_kind \<Rightarrow> string \<Rightarrow> file_error" where
  "classify_config_file_io error name =
     (case error of
        NotFoundIo \<Rightarrow> \<lparr>fe_kind = FileNotFound,
          fe_detail = ''session configuration '' @ quoted name @ '' was not found''\<rparr>
      | OtherIo \<Rightarrow> unavailable_file name)"

subsection \<open>Reading a file\<close>

definition MAX_SESSION_CONFIG_BYTES :: nat where "MAX_SESSION_CONFIG_BYTES = 256 * 1024"
definition MAX_SESSION_IMPORT_DEPTH :: nat where "MAX_SESSION_IMPORT_DEPTH = 32"
definition MAX_SESSION_IMPORT_FILES :: nat where "MAX_SESSION_IMPORT_FILES = 128"

record config_dir =
  cd_open_dir :: "string list \<Rightarrow> io_kind + metadata"
  cd_open_file :: "string list \<Rightarrow> io_kind + metadata \<times> string"

definition trusted_owner :: "u32 \<Rightarrow> u32 \<Rightarrow> bool" where
  "trusted_owner owner_uid trusted_uid \<longleftrightarrow> owner_uid = trusted_uid \<or> owner_uid = 0"

text \<open>
  Octal permission masks: 022 is 0x12, 0100 is 0x40, 0111 is 0x49, 0444 is 0x124, 01000 is 0x200,
  07022 is 0xE12.
\<close>

definition validate_config_directory_metadata :: "metadata \<Rightarrow> u32 \<Rightarrow> bool \<Rightarrow> io_error + unit" where
  "validate_config_directory_metadata md trusted_uid allow_sticky_parent =
     (if md_kind md \<noteq> Directory \<or> \<not> trusted_owner (md_uid md) trusted_uid
      then Inl (Custom PermissionDeniedKind ''unsafe session configuration directory'')
      else if md_mode md AND 0x12 \<noteq> 0 \<and> \<not> (allow_sticky_parent \<and> md_mode md AND 0x200 \<noteq> 0)
      then Inl (Custom PermissionDeniedKind ''writable session configuration directory'')
      else if \<not> (if md_uid md = trusted_uid then md_mode md AND 0x40 \<noteq> 0 else md_mode md AND 0x49 \<noteq> 0)
      then Inl (Custom PermissionDeniedKind ''untraversable session configuration directory'')
      else Inr ())"

definition read_config_file :: "config_dir \<Rightarrow> u32 \<Rightarrow> string \<Rightarrow> string list \<Rightarrow> file_error + string" where
  "read_config_file env trusted_uid name path =
     and_then (map_err (\<lambda>e. classify_config_file_io e name) (cd_open_file env path)) (\<lambda>(md, contents).
     if md_kind md \<noteq> RegularFile \<or> \<not> trusted_owner (md_uid md) trusted_uid
        \<or> md_mode md AND 0xE12 \<noteq> 0 \<or> md_mode md AND 0x124 = 0
     then Inl (unavailable_file name)
     else if md_len md > MAX_SESSION_CONFIG_BYTES
     then Inl (invalid_file name ''exceeds the 256 KiB size limit'')
     else
       (let bytes = take (MAX_SESSION_CONFIG_BYTES + 1) contents in
        if length bytes > MAX_SESSION_CONFIG_BYTES
        then Inl (invalid_file name ''exceeds the 256 KiB size limit'')
        else if \<not> utf8_valid bytes then Inl (invalid_file name ''must contain UTF-8 text'')
        else Inr bytes))"

text \<open>The walk of \<open>read_snapshot\<close>; \<open>walked\<close> are the components opened so far.\<close>

fun read_components :: "config_dir \<Rightarrow> u32 \<Rightarrow> string \<Rightarrow> string list \<Rightarrow> string list \<Rightarrow> file_error + string" where
  "read_components env trusted_uid name walked [] = Inl (invalid_file name ''has an empty path'')"
| "read_components env trusted_uid name walked (component # rest) =
     (if CHR 0x00 \<in> set component then Inl (invalid_file name ''contains an invalid path component'')
      else if rest \<noteq> [] then
        and_then (map_err (\<lambda>e. classify_config_file_io e name) (cd_open_dir env (walked @ [component]))) (\<lambda>md.
        and_then (map_err (\<lambda>_. unavailable_file name)
          (validate_config_directory_metadata md trusted_uid False)) (\<lambda>_.
        read_components env trusted_uid name (walked @ [component]) rest))
      else read_config_file env trusted_uid name (walked @ [component]))"

definition read_snapshot :: "config_dir \<Rightarrow> u32 \<Rightarrow> string \<Rightarrow> file_error + string" where
  "read_snapshot env trusted_uid name =
     read_components env trusted_uid name [] (split_on CHR ''/'' name)"

subsection \<open>Import names\<close>

fun import_components :: "string list \<Rightarrow> string list \<Rightarrow> string list option" where
  "import_components parts [] = Some parts"
| "import_components parts (component # rest) =
     (if component = [] then None
      else if component = ''.'' then import_components parts rest
      else if component = ''..'' then
        (if parts = [] then None else import_components (butlast parts) rest)
      else import_components (parts @ [component]) rest)"

definition resolve_import_name :: "string \<Rightarrow> string \<Rightarrow> file_error + string" where
  "resolve_import_name importing_name import =
     (let invalid = file_invalid ([CHR 0x60] @ ''imports'' @ [CHR 0x60] @ '' in '' @ quoted importing_name @
        '' must contain relative TOML file paths within the session configuration directory'') in
      if import = [] \<or> length import > MAX_SESSION_CONFIG_NAME_BYTES \<or> prefix ''/'' import
         \<or> list_ex (\<lambda>c. c = CHR 0x5C \<or> c = CHR '':'') import \<or> has_control import
      then Inl invalid
      else
        (let start = (case rsplit_once CHR ''/'' importing_name of
               Some (parent, _) \<Rightarrow> split_on CHR ''/'' parent | None \<Rightarrow> []) in
         and_then (ok_or invalid (import_components start (split_on CHR ''/'' import))) (\<lambda>parts.
         (let name = join_with CHR ''/'' parts in
          and_then (map_err (\<lambda>_. invalid) (validate_session_config_name name)) (\<lambda>_. Inr name)))))"

subsection \<open>Composition\<close>

datatype import_field = NoImports | ImportArray "string option list" | ImportOther

text \<open>
  What the code looks up in a parsed document: whether it is a table, which keys it has, its
  imports (an array element is \<open>None\<close> when it is no string) and the text of the document once
  the imports are removed.
\<close>

record file_document =
  fd_is_table :: bool
  fd_has_persistent :: bool
  fd_has_socket_name :: bool
  fd_imports :: import_field
  fd_has_unmatched :: bool
  fd_policy_text :: "string option"

record 'w compose_env =
  ce_dir :: config_dir
  ce_trusted_uid :: u32
  ce_document :: "string \<Rightarrow> file_document option"
  ce_session :: "string \<Rightarrow> 'w raw_session_config option"
  ce_hosts :: host_parser

record root_settings =
  rs_persistent :: bool
  rs_socket_name :: "string option"

record composition =
  co_loaded :: "string set"
  co_hosts :: "string set"
  co_rules :: "host_rule list"
  co_imported_unmatched :: "unmatched_host_policy option"
  co_root_unmatched :: "unmatched_host_policy option"
  co_imported_credential_default :: "credential_mode option"
  co_root_credential_default :: "credential_mode option"
  co_credential_modes :: "(string \<times> credential_mode) list"
  co_root :: "root_settings option"

definition composition_default :: composition where
  "composition_default = \<lparr>co_loaded = {}, co_hosts = {}, co_rules = [], co_imported_unmatched = None,
     co_root_unmatched = None, co_imported_credential_default = None, co_root_credential_default = None,
     co_credential_modes = [], co_root = None\<rparr>"

definition import_list :: "string \<Rightarrow> import_field \<Rightarrow> file_error + string list" where
  "import_list name field =
     (case field of
        NoImports \<Rightarrow> Inr []
      | ImportArray imports \<Rightarrow> traverse (ok_or (file_invalid (quoted ''imports'' @ '' in '' @ quoted name @
          '' must contain only relative path strings''))) imports
      | ImportOther \<Rightarrow> Inl (file_invalid (quoted ''imports'' @ '' in '' @ quoted name @
          '' must be an array of relative path strings'')))"

text \<open>A setting of the root or of an imported file must agree with what was set before.\<close>

definition agree :: "'a option \<Rightarrow> 'a \<Rightarrow> file_error \<Rightarrow> file_error + 'a option" where
  "agree current new err = (case current of
       Some c \<Rightarrow> if c \<noteq> new then Inl err else Inr (Some new)
     | None \<Rightarrow> Inr (Some new))"

definition merge_unmatched :: "string \<Rightarrow> bool \<Rightarrow> bool \<Rightarrow> session_config \<Rightarrow> composition \<Rightarrow> file_error + composition" where
  "merge_unmatched name is_root explicit_unmatched policy c =
     (let err = file_invalid (''conflicting '' @ quoted ''unmatched'' @ '' settings in the import graph at '' @
        quoted name @ ''; imported values must agree'') in
      if \<not> explicit_unmatched then Inr c
      else if is_root then and_then (agree (co_root_unmatched c) (sc_unmatched policy) err) (\<lambda>u.
        Inr (c\<lparr>co_root_unmatched := u\<rparr>))
      else and_then (agree (co_imported_unmatched c) (sc_unmatched policy) err) (\<lambda>u.
        Inr (c\<lparr>co_imported_unmatched := u\<rparr>)))"

definition merge_default :: "string \<Rightarrow> bool \<Rightarrow> session_config \<Rightarrow> composition \<Rightarrow> file_error + composition" where
  "merge_default name is_root policy c =
     (let err = file_invalid (''conflicting credential default modes in the import graph at '' @
        quoted name @ ''; imported values must agree'') in
      case sc_default_credential_mode policy of
        None \<Rightarrow> Inr c
      | Some mode \<Rightarrow>
          if is_root then and_then (agree (co_root_credential_default c) mode err) (\<lambda>m.
            Inr (c\<lparr>co_root_credential_default := m\<rparr>))
          else and_then (agree (co_imported_credential_default c) mode err) (\<lambda>m.
            Inr (c\<lparr>co_imported_credential_default := m\<rparr>)))"

fun merge_modes :: "(string \<times> credential_mode) list \<Rightarrow> composition \<Rightarrow> file_error + composition" where
  "merge_modes [] c = Inr c"
| "merge_modes ((secret, mode) # modes) c =
     (case map_of (co_credential_modes c) secret of
        Some existing \<Rightarrow>
          if existing \<noteq> mode then Inl (file_invalid (''conflicting mode for credential '' @ quoted secret @
            '' in the import graph''))
          else merge_modes modes (c\<lparr>co_credential_modes := bt_insert secret mode (co_credential_modes c)\<rparr>)
      | None \<Rightarrow> merge_modes modes (c\<lparr>co_credential_modes := bt_insert secret mode (co_credential_modes c)\<rparr>))"

fun merge_rules :: "host_rule list \<Rightarrow> composition \<Rightarrow> file_error + composition" where
  "merge_rules [] c = Inr c"
| "merge_rules (rule # rules) c =
     (if hr_host rule \<in> co_hosts c
      then Inl (file_invalid (''host rule '' @ quoted (hr_host rule) @
        '' is defined more than once in the import graph; define it in one file only''))
      else merge_rules rules
        (c\<lparr>co_hosts := insert (hr_host rule) (co_hosts c), co_rules := co_rules c @ [rule]\<rparr>))"

definition credential_mode_name :: "credential_mode \<Rightarrow> string" where
  "credential_mode_name mode = (case mode of
     Inject \<Rightarrow> ''inject'' | Substitute \<Rightarrow> ''substitute'' | Disabled \<Rightarrow> ''disabled'')"

definition finish_root :: "bool \<Rightarrow> session_config \<Rightarrow> composition \<Rightarrow> file_error + composition" where
  "finish_root is_root policy c =
     (if \<not> is_root then Inr c
      else
        (let root_unmatched = (case co_root_unmatched c of None \<Rightarrow> Deny | Some u \<Rightarrow> u);
             root_mode = (case co_root_credential_default c of None \<Rightarrow> Inject | Some m \<Rightarrow> m) in
         if (case co_imported_unmatched c of None \<Rightarrow> False | Some i \<Rightarrow> i \<noteq> root_unmatched)
         then Inl (file_invalid (''imported '' @ quoted ''unmatched'' @
           '' settings conflict with the root file's effective value '' @
           quoted (case root_unmatched of Deny \<Rightarrow> ''deny'' | Tunnel \<Rightarrow> ''tunnel'') @
           ''; set the same value in the root file''))
         else if (case co_imported_credential_default c of None \<Rightarrow> False | Some i \<Rightarrow> i \<noteq> root_mode)
         then Inl (file_invalid (''imported credential default modes conflict with the root file's effective value '' @
           quoted (credential_mode_name root_mode) @ ''; set the same value in the root file''))
         else Inr (c\<lparr>co_root := Some \<lparr>rs_persistent = sc_persistent policy, rs_socket_name = sc_socket_name policy\<rparr>\<rparr>)))"

text \<open>The part of \<open>compose_file_contents\<close> after the imports: the policy of the file itself.\<close>

definition compose_policy :: "'w compose_env \<Rightarrow> string \<Rightarrow> bool \<Rightarrow> file_document \<Rightarrow> composition \<Rightarrow> file_error + composition" where
  "compose_policy env name is_root doc c =
     and_then (ok_or (file_invalid (''session configuration '' @ quoted name @ '' could not be decoded''))
       (fd_policy_text doc)) (\<lambda>policy_text.
     and_then (map_err (\<lambda>e. file_invalid (''session configuration '' @ quoted name @ '': '' @ ce_message e))
       (session_file_from_toml (ce_session env) (ce_hosts env) policy_text)) (\<lambda>policy.
     and_then (merge_unmatched name is_root (fd_has_unmatched doc) policy c) (\<lambda>c.
     and_then (merge_default name is_root policy c) (\<lambda>c.
     and_then (merge_modes (sc_credential_modes policy) c) (\<lambda>c.
     and_then (merge_rules (sc_rules policy) c) (\<lambda>c.
     finish_root is_root policy c))))))"

text \<open>The part before the imports: read, parse and check one file.\<close>

definition load_document :: "'w compose_env \<Rightarrow> string \<Rightarrow> bool \<Rightarrow> file_error + file_document \<times> string list" where
  "load_document env name is_root =
     and_then (read_snapshot (ce_dir env) (ce_trusted_uid env) name) (\<lambda>contents.
     and_then (ok_or (file_invalid (''session configuration '' @ quoted name @ '' has invalid TOML syntax or values''))
       (ce_document env contents)) (\<lambda>doc.
     and_then (ensure (fd_is_table doc)
       (file_invalid (''session configuration '' @ quoted name @ '' must contain a TOML table''))) (\<lambda>_.
     and_then (ensure (is_root \<or> \<not> (fd_has_persistent doc \<or> fd_has_socket_name doc))
       (file_invalid (''imported session configuration '' @ quoted name @ '' cannot set '' @ quoted ''persistent'' @
         '' or '' @ quoted ''socket_name'' @ ''; set lifecycle and identity fields in the root file''))) (\<lambda>_.
     and_then (import_list name (fd_imports doc)) (\<lambda>imports. Inr (doc, imports))))))"

lemma and_then_cong [fundef_cong]:
  "r = r' \<Longrightarrow> (\<And>x. r' = Inr x \<Longrightarrow> f x = g x) \<Longrightarrow> and_then r f = and_then r' g"
  by (cases r') auto

function (sequential)
  compose_file :: "'w compose_env \<Rightarrow> string list \<Rightarrow> string \<Rightarrow> bool \<Rightarrow> composition \<Rightarrow> file_error + composition" and
  compose_imports :: "'w compose_env \<Rightarrow> string list \<Rightarrow> string \<Rightarrow> string list \<Rightarrow> composition \<Rightarrow> file_error + composition"
where
  "compose_file env stack name is_root c =
     (if name \<in> set stack
      then Inl (file_invalid (''session configuration import cycle includes '' @ quoted name))
      else if name \<in> co_loaded c then Inr c
      else if length stack \<ge> MAX_SESSION_IMPORT_DEPTH
      then Inl (file_invalid ''session configuration import depth exceeds 32 files'')
      else if length stack + card (co_loaded c) \<ge> MAX_SESSION_IMPORT_FILES
      then Inl (file_invalid ''session configuration imports exceed 128 unique files'')
      else
        and_then (load_document env name is_root) (\<lambda>(doc, imports).
        and_then (compose_imports env (stack @ [name]) name imports c) (\<lambda>c.
        and_then (compose_policy env name is_root doc c) (\<lambda>c.
        Inr (c\<lparr>co_loaded := insert name (co_loaded c)\<rparr>)))))"
| "compose_imports env stack name [] c = Inr c"
| "compose_imports env stack name (import # imports) c =
     and_then (resolve_import_name name import) (\<lambda>imported_name.
     and_then (compose_file env stack imported_name False c) (\<lambda>c.
     compose_imports env stack name imports c))"
  by pat_completeness auto
termination
  by (relation "measures [\<lambda>x. case x of Inl (env, stack, _) \<Rightarrow> MAX_SESSION_IMPORT_DEPTH - length stack
      | Inr (env, stack, _) \<Rightarrow> MAX_SESSION_IMPORT_DEPTH - length stack,
    \<lambda>x. case x of Inl _ \<Rightarrow> 0 | Inr (_, _, _, imports, _) \<Rightarrow> Suc (length imports)]") auto

declare compose_file.simps [simp del]

definition read_session :: "'w compose_env \<Rightarrow> string \<Rightarrow> file_error + session_config" where
  "read_session env name =
     and_then (compose_file env [] name True composition_default) (\<lambda>c.
     and_then (ok_or (file_invalid ''the root session configuration was not loaded'') (co_root c)) (\<lambda>root.
     Inr \<lparr>sc_persistent = rs_persistent root, sc_socket_name = rs_socket_name root,
       sc_unmatched = (case co_root_unmatched c of None \<Rightarrow> Deny | Some u \<Rightarrow> u),
       sc_default_credential_mode = co_root_credential_default c,
       sc_credential_modes = co_credential_modes c, sc_rules = co_rules c\<rparr>))"

subsection \<open>Invariant of a composition\<close>

definition comp_wf :: "composition \<Rightarrow> bool" where
  "comp_wf c \<longleftrightarrow> distinct (map hr_host (co_rules c)) \<and> co_hosts c = hr_host ` set (co_rules c) \<and>
     (\<forall>r \<in> set (co_rules c). wf_rule r) \<and> bt_wf (co_credential_modes c) \<and>
     (\<forall>(s, m) \<in> set (co_credential_modes c). valid_secret_id s) \<and>
     (\<forall>root n. co_root c = Some root \<longrightarrow> rs_socket_name root = Some n \<longrightarrow> validate_socket_name n = Inr n)"

lemma bt_insert_set: "set (bt_insert k v m) \<subseteq> insert (k, v) (set m)"
  by (induction k v m rule: bt_insert.induct) auto

lemma merge_modes_wf:
  assumes "merge_modes modes c = Inr c'" "comp_wf c" "\<forall>(s, m) \<in> set modes. valid_secret_id s"
  shows "comp_wf c' \<and> co_loaded c' = co_loaded c"
  using assms
proof (induction modes c rule: merge_modes.induct)
  case (2 secret mode modes c)
  have "comp_wf (c\<lparr>co_credential_modes := bt_insert secret mode (co_credential_modes c)\<rparr>)"
    using "2.prems"(2,3) bt_insert_set [of secret mode "co_credential_modes c"]
    by (auto simp: comp_wf_def bt_insert_wf)
  with 2 show ?case by (auto split: option.splits if_splits)
qed simp

lemma merge_rules_wf:
  assumes "merge_rules rules c = Inr c'" "comp_wf c" "\<forall>r \<in> set rules. wf_rule r"
  shows "comp_wf c' \<and> co_loaded c' = co_loaded c"
  using assms
proof (induction rules c rule: merge_rules.induct)
  case (2 rule rules c)
  then have "comp_wf (c\<lparr>co_hosts := insert (hr_host rule) (co_hosts c), co_rules := co_rules c @ [rule]\<rparr>)"
    by (auto simp: comp_wf_def split: if_splits)
  with 2 show ?case by (auto split: if_splits)
qed simp

lemma merge_unmatched_wf:
  "merge_unmatched name is_root e policy c = Inr c' \<Longrightarrow> comp_wf c \<Longrightarrow> comp_wf c' \<and> co_loaded c' = co_loaded c"
  by (auto simp: merge_unmatched_def result_simps comp_wf_def Let_def split: if_splits)

lemma merge_default_wf:
  "merge_default name is_root policy c = Inr c' \<Longrightarrow> comp_wf c \<Longrightarrow> comp_wf c' \<and> co_loaded c' = co_loaded c"
  by (auto simp: merge_default_def result_simps comp_wf_def Let_def split: if_splits option.splits)

lemma finish_root_wf:
  "finish_root is_root policy c = Inr c' \<Longrightarrow> comp_wf c \<Longrightarrow> wf_session policy \<Longrightarrow>
   comp_wf c' \<and> co_loaded c' = co_loaded c"
  by (auto simp: finish_root_def comp_wf_def wf_session_def Let_def split: if_splits)

lemma compose_policy_wf:
  assumes "host_parse_law (ce_hosts env)" "compose_policy env name is_root doc c = Inr c'" "comp_wf c"
  shows "comp_wf c' \<and> co_loaded c' = co_loaded c"
proof -
  from assms(2) obtain policy_text policy c1 c2 c3 c4 where
    s: "session_file_from_toml (ce_session env) (ce_hosts env) policy_text = Inr policy"
      "merge_unmatched name is_root (fd_has_unmatched doc) policy c = Inr c1"
      "merge_default name is_root policy c1 = Inr c2" "merge_modes (sc_credential_modes policy) c2 = Inr c3"
      "merge_rules (sc_rules policy) c3 = Inr c4" "finish_root is_root policy c4 = Inr c'"
    by (auto simp: compose_policy_def result_simps)
  have wf: "wf_session policy"
    using s(1) validate_session_document_makes_wf [OF assms(1)]
    by (auto simp: session_file_from_toml_def from_toml_def result_simps)
  have c2: "comp_wf c2" "co_loaded c2 = co_loaded c"
    using merge_unmatched_wf [OF s(2) assms(3)] merge_default_wf [OF s(3)] by auto
  have c3: "comp_wf c3" "co_loaded c3 = co_loaded c2"
    using merge_modes_wf [OF s(4) c2(1)] wf by (auto simp: wf_session_def)
  have "comp_wf c4 \<and> co_loaded c4 = co_loaded c3"
    using merge_rules_wf [OF s(5) c3(1)] wf by (simp add: wf_session_def)
  with finish_root_wf [OF s(6) _ wf] c2 c3 show ?thesis by simp
qed

lemma resolve_import_name_valid:
  "resolve_import_name importing import = Inr name \<Longrightarrow> validate_session_config_name name = Inr ()"
  by (auto simp: resolve_import_name_def Let_def and_then_Inr_iff map_err_Inr_iff ok_or_Inr_iff split: if_splits)

text \<open>
  Well-formedness, the file budget and the names of the files that were read are kept by the
  composition of a file and of a list of imports.
\<close>

definition comp_inv :: "string list \<Rightarrow> composition \<Rightarrow> bool" where
  "comp_inv stack c \<longleftrightarrow> comp_wf c \<and> finite (co_loaded c) \<and>
     length stack + card (co_loaded c) \<le> MAX_SESSION_IMPORT_FILES \<and>
     (\<forall>n \<in> co_loaded c. validate_session_config_name n = Inr ())"

lemma compose_invariant:
  fixes env :: "'w compose_env"
  assumes "host_parse_law (ce_hosts env)"
  shows "compose_file env stack name is_root c = Inr c' \<Longrightarrow> comp_inv stack c \<Longrightarrow>
      validate_session_config_name name = Inr () \<Longrightarrow>
      comp_inv stack c' \<and> co_loaded c \<subseteq> co_loaded c' \<and> name \<in> co_loaded c'"
    and "compose_imports env stack name paths c = Inr c' \<Longrightarrow> comp_inv stack c \<Longrightarrow>
      comp_inv stack c' \<and> co_loaded c \<subseteq> co_loaded c'"
  using assms
proof (induction env stack name is_root c and env stack name paths c arbitrary: c' and c'
    rule: compose_file_compose_imports.induct)
  case (1 env stack name is_root c)
  show ?case
  proof (cases "name \<in> co_loaded c")
    case True
    with 1(2,3) show ?thesis by (auto simp: compose_file.simps split: if_splits)
  next
    case False
    from 1(2) False obtain doc paths c1 c2 where
      guards: "name \<notin> set stack" "\<not> MAX_SESSION_IMPORT_DEPTH \<le> length stack"
        "\<not> MAX_SESSION_IMPORT_FILES \<le> length stack + card (co_loaded c)"
      and s: "load_document env name is_root = Inr (doc, paths)"
        "compose_imports env (stack @ [name]) name paths c = Inr c1"
        "compose_policy env name is_root doc c1 = Inr c2" "c' = c2\<lparr>co_loaded := insert name (co_loaded c2)\<rparr>"
      by (auto simp: compose_file.simps and_then_Inr_iff split: if_splits)
    have "comp_inv (stack @ [name]) c" using 1(3) guards by (simp add: comp_inv_def)
    with 1(1) [OF guards(1) False guards(2,3) s(1) refl s(2) _ 1(5)]
    have c1: "comp_inv (stack @ [name]) c1" "co_loaded c \<subseteq> co_loaded c1" by auto
    then have c2: "comp_wf c2" "co_loaded c2 = co_loaded c1"
      using compose_policy_wf [OF 1(5) s(3)] by (auto simp: comp_inv_def)
    have "card (insert name (co_loaded c1)) \<le> Suc (card (co_loaded c1))" by (rule card_insert_le_m1) simp_all
    with c1 c2 s(4) 1(4) show ?thesis by (auto simp: comp_inv_def comp_wf_def)
  qed
next
  case (2 env stack name c)
  then show ?case by simp
next
  case (3 env stack name path paths c)
  then show ?case by (fastforce simp: and_then_Inr_iff dest: resolve_import_name_valid)
qed

lemma comp_inv_default: "comp_inv [] composition_default"
  by (simp add: comp_inv_def comp_wf_def composition_default_def)

text \<open>After the root file, what imported files set agrees with the effective root settings.\<close>

lemma compose_root_agrees:
  assumes "compose_file env [] name True composition_default = Inr c" "co_root c = Some root"
  shows "co_imported_unmatched c = Some u \<Longrightarrow> u = (case co_root_unmatched c of None \<Rightarrow> Deny | Some v \<Rightarrow> v)"
    "co_imported_credential_default c = Some m \<Longrightarrow>
       m = (case co_root_credential_default c of None \<Rightarrow> Inject | Some v \<Rightarrow> v)"
proof -
  from assms(1) obtain doc c1 c2 where
    p: "compose_policy env name True doc c1 = Inr c2" "c = c2\<lparr>co_loaded := insert name (co_loaded c2)\<rparr>"
    by (auto simp: compose_file.simps and_then_Inr_iff composition_default_def split: if_splits)
  then obtain policy c3 where "finish_root True policy c3 = Inr c2"
    by (auto simp: compose_policy_def and_then_Inr_iff)
  with p(2) show "co_imported_unmatched c = Some u \<Longrightarrow> u = (case co_root_unmatched c of None \<Rightarrow> Deny | Some v \<Rightarrow> v)"
    "co_imported_credential_default c = Some m \<Longrightarrow>
       m = (case co_root_credential_default c of None \<Rightarrow> Inject | Some v \<Rightarrow> v)"
    by (auto simp: finish_root_def Let_def split: if_splits)
qed

lemma read_config_file_Inr:
  "read_config_file env uid name path = Inr contents \<Longrightarrow>
     \<exists>md. cd_open_file env path = Inr (md, contents) \<and> md_kind md = RegularFile \<and>
       trusted_owner (md_uid md) uid \<and> md_mode md AND 0xE12 = 0 \<and>
       length contents \<le> MAX_SESSION_CONFIG_BYTES \<and> utf8_valid contents"
  by (auto simp: read_config_file_def result_simps Let_def split: if_splits)

definition safe_config_directory :: "metadata \<Rightarrow> u32 \<Rightarrow> bool" where
  "safe_config_directory md uid \<longleftrightarrow> md_kind md = Directory \<and> trusted_owner (md_uid md) uid \<and> md_mode md AND 0x12 = 0"

lemma validate_config_directory_Inr:
  "validate_config_directory_metadata md uid False = Inr u \<Longrightarrow> safe_config_directory md uid"
  by (auto simp: validate_config_directory_metadata_def safe_config_directory_def split: if_splits)

lemma read_components_Inr:
  "read_components env uid name walked parts = Inr contents \<Longrightarrow>
   parts \<noteq> [] \<and> read_config_file env uid name (walked @ parts) = Inr contents \<and>
   (\<forall>pre. strict_prefix pre parts \<longrightarrow> pre \<noteq> [] \<longrightarrow>
      (\<exists>md. cd_open_dir env (walked @ pre) = Inr md \<and> safe_config_directory md uid))"
proof (induction env uid name walked parts rule: read_components.induct)
  case (2 env uid name walked component rest)
  show ?case
  proof (cases "rest = []")
    case True
    then have "strict_prefix pre [component] \<Longrightarrow> pre = []" for pre
      by (auto simp: strict_prefix_def prefix_Cons)
    with True 2 show ?thesis by (auto split: if_splits)
  next
    case False
    with "2.prems" obtain md where md: "cd_open_dir env (walked @ [component]) = Inr md"
      "validate_config_directory_metadata md uid False = Inr ()"
      "read_components env uid name (walked @ [component]) rest = Inr contents" "CHR 0x00 \<notin> set component"
      by (auto simp: result_simps split: if_splits)
    note IH = "2.IH" [OF md(4) False md(3)]
    have "\<exists>md. cd_open_dir env (walked @ pre) = Inr md \<and> safe_config_directory md uid"
      if pre: "strict_prefix pre (component # rest)" "pre \<noteq> []" for pre
    proof (cases "pre = [component]")
      case True
      with md validate_config_directory_Inr show ?thesis by auto
    next
      case False
      with pre obtain pre' where "pre = component # pre'" "pre' \<noteq> []" "strict_prefix pre' rest"
        by (auto simp: strict_prefix_def prefix_Cons)
      with IH show ?thesis by auto
    qed
    with IH show ?thesis by auto
  qed
qed simp

subsection \<open>Properties\<close>

text \<open>
  C39. A session composed from files is well formed as a whole: the rules of all files
  together have distinct hosts, every credential has one mode, and the unmatched policy and the
  default credential mode that any imported file sets are the effective ones of the session.
\<close>

theorem composed_session_wf:
  fixes env :: "'w compose_env"
  assumes "host_parse_law (ce_hosts env)" and "validate_session_config_name name = Inr ()"
    and "read_session env name = Inr s"
  shows "wf_session s \<and>
    (\<exists>c. compose_file env [] name True composition_default = Inr c \<and> sc_rules s = co_rules c \<and>
      (\<forall>u. co_imported_unmatched c = Some u \<longrightarrow> sc_unmatched s = u) \<and>
      (\<forall>m. co_imported_credential_default c = Some m \<longrightarrow>
         (case sc_default_credential_mode s of None \<Rightarrow> Inject | Some d \<Rightarrow> d) = m))"
proof -
  from assms(3) obtain c root where c: "compose_file env [] name True composition_default = Inr c"
    "co_root c = Some root"
    and s: "s = \<lparr>sc_persistent = rs_persistent root, sc_socket_name = rs_socket_name root,
       sc_unmatched = (case co_root_unmatched c of None \<Rightarrow> Deny | Some u \<Rightarrow> u),
       sc_default_credential_mode = co_root_credential_default c,
       sc_credential_modes = co_credential_modes c, sc_rules = co_rules c\<rparr>"
    by (auto simp: read_session_def result_simps)
  have "comp_wf c"
    using compose_invariant(1) [OF assms(1) c(1) comp_inv_default assms(2)] by (simp add: comp_inv_def)
  then have "wf_session s" using c(2) by (auto simp: s comp_wf_def wf_session_def)
  with c compose_root_agrees [OF c] show ?thesis by (auto simp: s)
qed


text \<open>
  C40. Only trusted files are read: a snapshot is UTF-8 text of at most 256 KiB from a regular
  file that belongs to the trusted user or to root and that no one else can write, reached
  through directories below the session directory that no one else can write either.
\<close>

theorem snapshot_trusted:
  assumes "read_snapshot env uid name = Inr contents"
  shows "utf8_valid contents \<and> length contents \<le> MAX_SESSION_CONFIG_BYTES \<and>
    (\<exists>md. cd_open_file env (split_on CHR ''/'' name) = Inr (md, contents) \<and> md_kind md = RegularFile \<and>
       (md_uid md = uid \<or> md_uid md = 0) \<and> md_mode md AND 0x12 = 0) \<and>
    (\<forall>pre. strict_prefix pre (split_on CHR ''/'' name) \<longrightarrow> pre \<noteq> [] \<longrightarrow>
       (\<exists>md. cd_open_dir env pre = Inr md \<and> safe_config_directory md uid))"
proof -
  note r = read_components_Inr [OF assms [unfolded read_snapshot_def]]
  then obtain md where md: "cd_open_file env (split_on CHR ''/'' name) = Inr (md, contents)" "md_kind md = RegularFile"
    "trusted_owner (md_uid md) uid" "md_mode md AND 0xE12 = 0"
    "length contents \<le> MAX_SESSION_CONFIG_BYTES" "utf8_valid contents"
    using read_config_file_Inr by fastforce
  have "md_mode md AND 0x12 = 0"
    using md(4) mask_zero_iff [of "md_mode md" "0x12" "0xE00"] by simp
  with md r show ?thesis by (auto simp: trusted_owner_def)
qed

definition example_dir :: config_dir where
  "example_dir = \<lparr>cd_open_dir = (\<lambda>_. Inl NotFoundIo),
     cd_open_file = (\<lambda>p. if p = [''r.toml''] then
         Inr (\<lparr>md_kind = RegularFile, md_uid = 0, md_mode = 0x1A4, md_len = 1, md_dev = 1, md_ino = 1\<rparr>, ''r'')
       else Inl NotFoundIo)\<rparr>"

definition example_compose :: "unit compose_env" where
  "example_compose = \<lparr>ce_dir = example_dir, ce_trusted_uid = 7,
     ce_document = (\<lambda>_. Some \<lparr>fd_is_table = True, fd_has_persistent = True, fd_has_socket_name = True,
       fd_imports = NoImports, fd_has_unmatched = False, fd_policy_text = Some []\<rparr>),
     ce_session = (\<lambda>_. Some example_raw), ce_hosts = plain_hosts\<rparr>"

lemma example_snapshot: "read_snapshot example_dir 7 ''r.toml'' = Inr ''r''"
  by (simp add: read_snapshot_def example_dir_def read_config_file_def trusted_owner_def
      MAX_SESSION_CONFIG_BYTES_def byte_def)

lemma example_name: "validate_session_config_name ''r.toml'' = Inr ()"
  by (simp add: validate_session_config_name_def MAX_SESSION_CONFIG_NAME_BYTES_def
      MAX_SESSION_CONFIG_COMPONENT_BYTES_def suffix_to_prefix is_ascii_control_def byte_def)

lemma example_compose_file:
  "\<exists>c. compose_file example_compose [] ''r.toml'' True composition_default = Inr c \<and> co_root c \<noteq> None"
proof -
  have l: "\<exists>doc. load_document example_compose ''r.toml'' True = Inr (doc, []) \<and>
      \<not> fd_has_unmatched doc \<and> fd_policy_text doc = Some []"
    by (simp add: load_document_def example_compose_def example_snapshot import_list_def)
  have "session_file_from_toml (ce_session example_compose) (ce_hosts example_compose) [] = Inr example_session"
    using example_document by (simp add: session_file_from_toml_def from_toml_def example_compose_def)
  then have "\<exists>c. compose_policy example_compose ''r.toml'' True doc composition_default = Inr c \<and> co_root c \<noteq> None"
    if "\<not> fd_has_unmatched doc" "fd_policy_text doc = Some []" for doc
    using that
    by (simp add: compose_policy_def merge_unmatched_def merge_default_def composition_default_def agree_def
        example_session_def finish_root_def)
  moreover from l obtain doc where doc: "load_document example_compose ''r.toml'' True = Inr (doc, [])"
    "\<not> fd_has_unmatched doc" "fd_policy_text doc = Some []" by blast
  ultimately obtain c where c: "compose_policy example_compose ''r.toml'' True doc composition_default = Inr c"
    "co_root c \<noteq> None" by blast
  have "co_loaded composition_default = {}" by (simp add: composition_default_def)
  with doc(1) c show ?thesis
    by (simp add: compose_file.simps MAX_SESSION_IMPORT_DEPTH_def MAX_SESSION_IMPORT_FILES_def)
qed

lemma example_compose_law: "host_parse_law (ce_hosts example_compose)"
  using plain_hosts_law by (simp add: example_compose_def)

theorem composed_session_wf_witness:
  "\<exists>s. read_session example_compose ''r.toml'' = Inr s \<and> wf_session s"
proof -
  obtain s where s: "read_session example_compose ''r.toml'' = Inr s"
    using example_compose_file by (auto simp: read_session_def)
  with composed_session_wf [OF example_compose_law example_name s] show ?thesis by blast
qed


theorem snapshot_trusted_witness:
  "read_snapshot example_dir 7 ''r.toml'' = Inr ''r'' \<and> utf8_valid ''r''"
  using example_snapshot snapshot_trusted [OF example_snapshot] by blast

end
