(* ===== verification/Session_Reload.thy ===== *)
theory Session_Reload
  imports Session_Manager Import_Compose "HOL-Library.Multiset"
begin

text \<open>
  Reloading a session from its configuration file: \<open>src/control/reload.rs\<close>. A reload holds the
  session's own lock throughout and the registry lock only in short critical sections, each a
  function here; \<open>reload_locked\<close> composes them, with an argument \<open>others\<close> for what other tasks do
  to the registry between two sections. The relation \<open>interference\<close> says what that can be while
  the session's lock is held.
\<close>

subsection \<open>Results\<close>

datatype reload_status = Reloaded | Unchanged | Failed

record reload_result =
  rr_id :: string
  rr_status :: reload_status
  rr_socket :: string
  rr_reason :: "string option"
  rr_detail :: "string option"

definition reloaded :: "string \<Rightarrow> string \<Rightarrow> reload_result" where
  "reloaded sid socket = \<lparr>rr_id = sid, rr_status = Reloaded, rr_socket = socket, rr_reason = None, rr_detail = None\<rparr>"

definition unchanged :: "string \<Rightarrow> string \<Rightarrow> reload_result" where
  "unchanged sid socket = \<lparr>rr_id = sid, rr_status = Unchanged, rr_socket = socket, rr_reason = None, rr_detail = None\<rparr>"

definition failed :: "string \<Rightarrow> string \<Rightarrow> string \<Rightarrow> reload_result" where
  "failed sid socket reason =
     \<lparr>rr_id = sid, rr_status = Failed, rr_socket = socket, rr_reason = Some reason, rr_detail = None\<rparr>"

definition failed_with_detail :: "string \<Rightarrow> string \<Rightarrow> string \<Rightarrow> string \<Rightarrow> reload_result" where
  "failed_with_detail sid socket reason detail =
     \<lparr>rr_id = sid, rr_status = Failed, rr_socket = socket, rr_reason = Some reason, rr_detail = Some detail\<rparr>"

lemmas reload_results = reloaded_def unchanged_def failed_def failed_with_detail_def

subsection \<open>Rules with the same effect\<close>

definition lower_header :: "header_injection \<Rightarrow> header_injection" where
  "lower_header injection = injection\<lparr>hi_header := to_ascii_lowercase (hi_header injection)\<rparr>"

definition canonical_rule :: "host_rule \<Rightarrow> host_rule" where
  "canonical_rule rule = rule\<lparr>hr_ports := sort (hr_ports rule), hr_paths := sort (hr_paths rule),
     hr_inject := sort_key hi_header (map lower_header (hr_inject rule))\<rparr>"

definition canonical :: "host_rule list \<Rightarrow> host_rule list" where
  "canonical rules = sort_key hr_host (map canonical_rule rules)"

definition same_effective_rules :: "host_rule list \<Rightarrow> host_rule list \<Rightarrow> bool" where
  "same_effective_rules left right \<longleftrightarrow> canonical left = canonical right"

subsection \<open>The sections of a reload\<close>

text \<open>
  The surroundings of a reload: the configuration store if there is one, the secret store and
  the file system it reads, the directory of the sockets, the working directory, which runtimes
  have finished at each section, which policy generations are referenced, and whether a listener
  can be bound at a path.
\<close>

record 'w reload_env =
  re_configs :: "'w compose_env option"
  re_fs :: file_system
  re_store :: secret_store
  re_socket_dir :: string
  re_cwd :: "string option"
  re_hmac :: hmac_fun
  re_b64url :: encoder
  re_finished :: "nat \<Rightarrow> runtime \<Rightarrow> bool"
  re_alive :: "nat \<Rightarrow> bool"
  re_bind :: "string \<Rightarrow> bool"

record reload_start =
  rs_source :: string
  rs_secrets :: "(string \<times> string) list"
  rs_socket :: string
  rs_keep :: bool

record reload_candidate =
  rc_session :: session_config
  rc_secrets :: "(string \<times> string) list"
  rc_target :: string

definition reload_inspect :: "(runtime \<Rightarrow> bool) \<Rightarrow> string \<Rightarrow> session_registry \<Rightarrow>
    (reload_result + reload_start) \<times> session_registry" where
  "reload_inspect is_finished sid registry =
     (case rg_sessions registry sid of
        None \<Rightarrow> (Inl (failed sid '''' ''session_unavailable''), registry)
      | Some session \<Rightarrow>
          (let session = prune_retired is_finished session;
               registry' = update_session sid session registry;
               socket = si_socket (ms_info session) in
           if si_state (ms_info session) \<noteq> Running \<or> \<not> rg_accepting_sessions registry
           then (Inl (failed sid socket ''session_stopping''), registry')
           else (case ms_config_source session of
               None \<Rightarrow> (Inl (failed sid socket ''inline_session''), registry')
             | Some source \<Rightarrow> (Inr \<lparr>rs_source = source, rs_secrets = ms_secrets session, rs_socket = socket,
                 rs_keep = sc_persistent (ms_configuration session)\<rparr>, registry'))))"

definition load_candidate :: "'w reload_env \<Rightarrow> string \<Rightarrow> reload_start \<Rightarrow> reload_result + reload_candidate" where
  "load_candidate env sid start =
     and_then (ok_or (failed sid (rs_socket start) ''configuration_unavailable'') (re_configs env)) (\<lambda>configs.
     and_then (map_err (\<lambda>e. failed_with_detail sid (rs_socket start) (reload_reason e) (fe_detail e))
         (read_session configs (rs_source start))) (\<lambda>session.
     (let candidate = session\<lparr>sc_persistent := rs_keep start\<rparr> in
      and_then (map_err (\<lambda>_. failed sid (rs_socket start) ''credentials_unavailable'')
         (snd (resolve (re_fs env) (re_store env) candidate))) (\<lambda>secrets.
      and_then (ok_or (failed sid (rs_socket start) ''listener_unavailable'')
         (absolute_socket_path (re_cwd env) (path_join (re_socket_dir env) (session_socket_name sid candidate)))) (\<lambda>target.
      Inr \<lparr>rc_session = candidate, rc_secrets = secrets, rc_target = target\<rparr>)))))"

text \<open>Two paths are equal as paths when their components are.\<close>

definition same_path :: "string \<Rightarrow> string \<Rightarrow> bool" where
  "same_path a b \<longleftrightarrow> components a = components b"

definition configuration_unchanged :: "session_config \<Rightarrow> session_config \<Rightarrow> bool" where
  "configuration_unchanged candidate current \<longleftrightarrow>
     sc_unmatched candidate = sc_unmatched current \<and>
     same_effective_rules (sc_rules candidate) (sc_rules current) \<and>
     sc_default_credential_mode candidate = sc_default_credential_mode current \<and>
     sc_credential_modes candidate = sc_credential_modes current"

definition reload_compare :: "string \<Rightarrow> reload_start \<Rightarrow> reload_candidate \<Rightarrow> session_registry \<Rightarrow> reload_result + unit" where
  "reload_compare sid start cand registry =
     (case rg_sessions registry sid of
        None \<Rightarrow> Inl (failed sid (rs_socket start) ''session_unavailable'')
      | Some session \<Rightarrow>
          if configuration_unchanged (rc_session cand) (ms_configuration session)
             \<and> same_path (rc_target cand) (rs_socket start) \<and> has_same_values (rs_secrets start) (rc_secrets cand)
          then Inl (unchanged sid (rs_socket start)) else Inr ())"

definition saturating_add :: "u64 \<Rightarrow> u64 \<Rightarrow> u64" where
  "saturating_add a b = (if a + b < a then - 1 else a + b)"

definition checked_add :: "u64 \<Rightarrow> u64 \<Rightarrow> u64 option" where
  "checked_add a b = (if a + b < a then None else Some (a + b))"

text \<open>The same socket: replace the policy generation of the running listener.\<close>

definition reload_in_place :: "'w reload_env \<Rightarrow> string \<Rightarrow> reload_start \<Rightarrow> reload_candidate \<Rightarrow> session_registry \<Rightarrow>
    reload_result \<times> session_registry" where
  "reload_in_place env sid start cand registry =
     (if \<not> rg_accepting_sessions registry then (failed sid (rs_socket start) ''session_stopping'', registry)
      else (case rg_sessions registry sid of
          None \<Rightarrow> (failed sid (rs_socket start) ''session_unavailable'', registry)
        | Some session \<Rightarrow>
            (case ms_runtime session of
               None \<Rightarrow> (failed sid (rs_socket start) ''session_stopping'', registry)
             | Some runtime \<Rightarrow>
                 (case replace_generation (re_hmac env) (re_b64url env) (re_alive env) runtime
                     (rc_session cand) (rc_secrets cand) of
                    (False, runtime) \<Rightarrow> (failed sid (rs_socket start) ''generation_limit'',
                      update_session sid (session\<lparr>ms_runtime := Some runtime\<rparr>) registry)
                  | (True, runtime) \<Rightarrow> (reloaded sid (rs_socket start),
                      update_session sid (session\<lparr>ms_runtime := Some runtime, ms_configuration := rc_session cand,
                        ms_secrets := rc_secrets cand,
                        ms_info := (ms_info session)\<lparr>si_generation := saturating_add (si_generation (ms_info session)) 1,
                          si_draining_generations := length (ms_retired_runtimes session)\<rparr>\<rparr>) registry)))))"

text \<open>Another socket: the seed and generation for a new listener, and whether the old one can be retired.\<close>

definition reload_listener :: "(runtime \<Rightarrow> bool) \<Rightarrow> string \<Rightarrow> reload_start \<Rightarrow> session_registry \<Rightarrow>
    (reload_result + string \<times> u64 \<times> bool) \<times> session_registry" where
  "reload_listener is_finished sid start registry =
     (if \<not> rg_accepting_sessions registry then (Inl (failed sid (rs_socket start) ''session_stopping''), registry)
      else (case rg_sessions registry sid of
          None \<Rightarrow> (Inl (failed sid (rs_socket start) ''session_unavailable''), registry)
        | Some session \<Rightarrow>
            (let session = session\<lparr>ms_retired_runtimes := filter (\<lambda>r. \<not> is_finished r) (ms_retired_runtimes session)\<rparr>;
                 registry' = update_session sid session registry in
             (case ms_runtime session of
                None \<Rightarrow> (Inl (failed sid (rs_socket start) ''session_stopping''), registry')
              | Some runtime \<Rightarrow>
                  (case checked_add (ms_listener_generation session) 1 of
                     None \<Rightarrow> (Inl (failed sid (rs_socket start) ''generation_limit''), registry')
                   | Some n \<Rightarrow> (Inr (rt_seed runtime, n,
                       length (ms_retired_runtimes session) < MAX_RETIRED_LISTENERS), registry'))))))"

definition reload_swap :: "string \<Rightarrow> reload_start \<Rightarrow> reload_candidate \<Rightarrow> runtime \<Rightarrow> u64 \<Rightarrow> session_registry \<Rightarrow>
    reload_result \<times> session_registry" where
  "reload_swap sid start cand replacement n registry =
     (if \<not> rg_accepting_sessions registry then (failed sid (rs_socket start) ''session_stopping'', registry)
      else (case rg_sessions registry sid of
          None \<Rightarrow> (failed sid (rs_socket start) ''session_unavailable'', registry)
        | Some session \<Rightarrow>
            if si_state (ms_info session) \<noteq> Running then (failed sid (rs_socket start) ''session_stopping'', registry)
            else (case ms_runtime session of
                None \<Rightarrow> (failed sid (rs_socket start) ''session_stopping'', registry)
              | Some old_runtime \<Rightarrow>
                  (let retired = ms_retired_runtimes session @ [retire old_runtime] in
                   (reloaded sid (rc_target cand),
                    update_session sid (session\<lparr>ms_runtime := Some replacement, ms_configuration := rc_session cand,
                      ms_secrets := rc_secrets cand, ms_listener_generation := n, ms_listener_gate := n,
                      ms_retired_runtimes := retired,
                      ms_info := (ms_info session)\<lparr>si_socket := rc_target cand,
                        si_generation := saturating_add (si_generation (ms_info session)) 1,
                        si_draining_generations := length retired\<rparr>\<rparr>) registry)))))"

definition start_replacement :: "'w reload_env \<Rightarrow> reload_candidate \<Rightarrow> string \<Rightarrow> u64 \<Rightarrow> runtime" where
  "start_replacement env cand seed n =
     runtime_start (re_hmac env) (re_b64url env) (rc_session cand) (rc_secrets cand) seed (rc_target cand) n"

definition reload_listener_path :: "'w reload_env \<Rightarrow> (nat \<Rightarrow> session_registry \<Rightarrow> session_registry) \<Rightarrow> string \<Rightarrow>
    reload_start \<Rightarrow> reload_candidate \<Rightarrow> session_registry \<Rightarrow> reload_result \<times> session_registry" where
  "reload_listener_path env others sid start cand registry =
     (case reload_listener (re_finished env 1) sid start registry of
        (Inl result, registry) \<Rightarrow> (result, registry)
      | (Inr (seed, n, can_retire), registry) \<Rightarrow>
          if \<not> can_retire then (failed sid (rs_socket start) ''generation_limit'', registry)
          else if \<not> re_bind env (rc_target cand)
          then (failed sid (rs_socket start) ''listener_unavailable'', registry)
          else reload_swap sid start cand (start_replacement env cand seed n) n (others 2 registry))"

definition reload_locked :: "'w reload_env \<Rightarrow> (nat \<Rightarrow> session_registry \<Rightarrow> session_registry) \<Rightarrow> string \<Rightarrow>
    session_registry \<Rightarrow> reload_result \<times> session_registry" where
  "reload_locked env others sid registry =
     (case reload_inspect (re_finished env 0) sid registry of
        (Inl result, registry) \<Rightarrow> (result, registry)
      | (Inr start, registry) \<Rightarrow>
          (case load_candidate env sid start of
             Inl result \<Rightarrow> (result, registry)
           | Inr cand \<Rightarrow>
               (let registry = others 0 registry in
                (case reload_compare sid start cand registry of
                   Inl result \<Rightarrow> (result, registry)
                 | Inr _ \<Rightarrow>
                     (let registry = others 1 registry in
                      if same_path (rc_target cand) (rs_socket start)
                      then reload_in_place env sid start cand registry
                      else reload_listener_path env others sid start cand registry)))))"

text \<open>\<open>reload\<close> itself, and \<open>reload_all\<close>: the running sessions that come from a file, in order.\<close>

definition reload :: "'w reload_env \<Rightarrow> (nat \<Rightarrow> session_registry \<Rightarrow> session_registry) \<Rightarrow> string \<Rightarrow>
    session_registry \<Rightarrow> (unit + reload_result) \<times> session_registry" where
  "reload env others sid registry =
     (case rg_sessions registry sid of
        None \<Rightarrow> (Inl (), registry)
      | Some _ \<Rightarrow> (let (result, registry) = reload_locked env others sid (others 3 registry) in (Inr result, registry)))"

definition reloadable :: "session_registry \<Rightarrow> (string \<times> string) list" where
  "reloadable registry =
     sort_key fst (map (\<lambda>s. (si_id (ms_info s), si_socket (ms_info s)))
       (filter (\<lambda>s. ms_config_source s \<noteq> None \<and> si_state (ms_info s) = Running)
         (map (\<lambda>sid. the (rg_sessions registry sid)) (sorted_list_of_set (dom (rg_sessions registry))))))"

fun reload_each :: "(string \<Rightarrow> session_registry \<Rightarrow> (unit + reload_result) \<times> session_registry) \<Rightarrow>
    (string \<times> string) list \<Rightarrow> session_registry \<Rightarrow> reload_result list \<times> session_registry" where
  "reload_each reload_one [] registry = ([], registry)"
| "reload_each reload_one ((sid, socket) # sessions) registry =
     (let (outcome, registry) = reload_one sid registry;
          result = (case outcome of Inr r \<Rightarrow> r | Inl _ \<Rightarrow> failed sid socket ''session_unavailable'');
          (results, registry) = reload_each reload_one sessions registry in
      (result # results, registry))"

definition reload_all :: "(string \<Rightarrow> session_registry \<Rightarrow> (unit + reload_result) \<times> session_registry) \<Rightarrow>
    session_registry \<Rightarrow> reload_result list \<times> session_registry" where
  "reload_all reload_one registry = reload_each reload_one (reloadable registry) registry"

subsection \<open>Interference\<close>

text \<open>
  While a task holds the lock of session \<open>sid\<close>, other tasks can drop finished listeners of that
  session (a list request does) and can close the registry to new sessions; nothing else of the
  session changes.
\<close>

definition pruned :: "managed_session \<Rightarrow> managed_session \<Rightarrow> bool" where
  "pruned s s' \<longleftrightarrow> (\<exists>P n. s' = s\<lparr>ms_retired_runtimes := filter P (ms_retired_runtimes s),
     ms_info := (ms_info s)\<lparr>si_draining_generations := n\<rparr>\<rparr>)"

definition interference :: "string \<Rightarrow> session_registry \<Rightarrow> session_registry \<Rightarrow> bool" where
  "interference sid r r' \<longleftrightarrow> (rg_accepting_sessions r' \<longrightarrow> rg_accepting_sessions r) \<and>
     rel_option pruned (rg_sessions r sid) (rg_sessions r' sid)"

lemma pruned_filter:
  "pruned s (s\<lparr>ms_retired_runtimes := filter P (ms_retired_runtimes s), ms_info := (ms_info s)\<lparr>si_draining_generations := n\<rparr>\<rparr>)"
  unfolding pruned_def by blast

lemma pruned_refl: "pruned s s"
  unfolding pruned_def by (rule exI [of _ "\<lambda>_. True"], rule exI [of _ "si_draining_generations (ms_info s)"]) simp

lemma pruned_trans:
  assumes "pruned s t" "pruned t u"
  shows "pruned s u"
proof -
  from assms(1) obtain P n where t: "t = s\<lparr>ms_retired_runtimes := filter P (ms_retired_runtimes s),
      ms_info := (ms_info s)\<lparr>si_draining_generations := n\<rparr>\<rparr>" by (auto simp: pruned_def)
  from assms(2) obtain Q m where "u = t\<lparr>ms_retired_runtimes := filter Q (ms_retired_runtimes t),
      ms_info := (ms_info t)\<lparr>si_draining_generations := m\<rparr>\<rparr>" by (auto simp: pruned_def)
  then show ?thesis
    unfolding pruned_def t by (intro exI [of _ "\<lambda>x. P x \<and> Q x"] exI [of _ m]) (simp add: filter_filter)
qed

lemma pruned_simps:
  assumes "pruned s t"
  shows "ms_configuration t = ms_configuration s" "ms_secrets t = ms_secrets s"
    "ms_config_source t = ms_config_source s" "ms_runtime t = ms_runtime s"
    "ms_listener_gate t = ms_listener_gate s" "ms_listener_generation t = ms_listener_generation s"
    "si_id (ms_info t) = si_id (ms_info s)" "si_socket (ms_info t) = si_socket (ms_info s)"
    "si_state (ms_info t) = si_state (ms_info s)" "si_generation (ms_info t) = si_generation (ms_info s)"
    "si_persistent (ms_info t) = si_persistent (ms_info s)"
    "length (ms_retired_runtimes t) \<le> length (ms_retired_runtimes s)"
    "set (ms_retired_runtimes t) \<subseteq> set (ms_retired_runtimes s)"
  using assms by (auto simp: pruned_def)

lemma pruned_ok: "session_ok sid s \<Longrightarrow> pruned s t \<Longrightarrow> session_ok sid t"
  unfolding pruned_def using drop_retired_ok by blast

lemma prune_retired_pruned: "pruned s (prune_retired is_finished s)"
  unfolding prune_retired_def Let_def by (rule pruned_filter)

lemma interference_refl: "interference sid r r"
  by (simp add: interference_def option.rel_refl pruned_refl)

lemma interference_Some:
  assumes "interference sid r r'" "rg_sessions r sid = Some s"
  shows "\<exists>t. rg_sessions r' sid = Some t \<and> pruned s t"
  using assms by (auto simp: interference_def rel_option_iff split: option.splits)

lemma interference_trans: "interference sid r r' \<Longrightarrow> interference sid r' r'' \<Longrightarrow> interference sid r r''"
  unfolding interference_def by (auto simp: rel_option_iff split: option.splits intro: pruned_trans)

text \<open>The sections of other operations are such interference.\<close>

lemma update_session_simps [simp]:
  "rg_sessions (update_session sid s r) sid = Some s"
  "sid' \<noteq> sid \<Longrightarrow> rg_sessions (update_session sid s r) sid' = rg_sessions r sid'"
  "rg_accepting_sessions (update_session sid s r) = rg_accepting_sessions r"
  "rg_provisioning (update_session sid s r) = rg_provisioning r"
  by (simp_all add: update_session_def)

lemma interference_list: "list_sessions is_finished r = (infos, r') \<Longrightarrow> interference sid r r'"
  by (auto simp: interference_def list_sessions_def Let_def option.rel_map prune_retired_pruned
      intro!: option.rel_refl_strong)

lemma interference_reject: "interference sid r (reject_new_sessions r)"
  by (simp add: interference_def reject_new_sessions_def option.rel_refl pruned_refl)

lemma interference_shutdown_begin: "interference sid r (shutdown_begin r)"
  by (simp add: interference_def shutdown_begin_def option.rel_refl pruned_refl)

lemma interference_reserve: "create_reserve max_sessions sid' r = Inr r' \<Longrightarrow> interference sid r r'"
  by (auto simp: interference_def create_reserve_def option.rel_refl pruned_refl split: if_splits)

lemma interference_release: "interference sid r (create_release sid' r)"
  by (simp add: interference_def create_release_def option.rel_refl pruned_refl)

lemma interference_commit:
  "sid' \<noteq> sid \<Longrightarrow> create_commit sid' session secrets source rt r = (result, r') \<Longrightarrow> interference sid r r'"
  by (auto simp: interference_def create_commit_def create_release_def Let_def option.rel_refl pruned_refl
      split: if_splits)

lemma interference_update: "sid' \<noteq> sid \<Longrightarrow> interference sid r (update_session sid' s r)"
  by (simp add: interference_def option.rel_refl pruned_refl)

lemma interference_remove: "sid' \<noteq> sid \<Longrightarrow> interference sid r (snd (remove_session sid' r))"
  by (simp add: interference_def remove_session_def option.rel_refl pruned_refl)

subsection \<open>What a reload does to its session\<close>

text \<open>
  Nothing that clients of the session can notice has changed: only finished listeners, and
  references to policy generations that no connection holds, may be gone.
\<close>

definition undisturbed :: "managed_session \<Rightarrow> managed_session \<Rightarrow> bool" where
  "undisturbed s s' \<longleftrightarrow> ms_configuration s' = ms_configuration s \<and> ms_secrets s' = ms_secrets s \<and>
     ms_config_source s' = ms_config_source s \<and> ms_listener_gate s' = ms_listener_gate s \<and>
     ms_listener_generation s' = ms_listener_generation s \<and>
     map_option (\<lambda>r. r\<lparr>rt_generations := []\<rparr>) (ms_runtime s') = map_option (\<lambda>r. r\<lparr>rt_generations := []\<rparr>) (ms_runtime s) \<and>
     (ms_info s')\<lparr>si_draining_generations := 0\<rparr> = (ms_info s)\<lparr>si_draining_generations := 0\<rparr> \<and>
     set (ms_retired_runtimes s') \<subseteq> set (ms_retired_runtimes s)"

text \<open>
  The session now runs configuration \<open>c\<close> with \<open>secrets\<close>: new connections get the policy compiled
  from \<open>c\<close> under the old seed, on the old listener or on a newer one, the old one being retired.
\<close>

definition switched :: "'w reload_env \<Rightarrow> session_config \<Rightarrow> (string \<times> string) list \<Rightarrow> managed_session \<Rightarrow> managed_session \<Rightarrow> bool" where
  "switched env c secrets s s' \<longleftrightarrow> ms_configuration s' = c \<and> ms_secrets s' = secrets \<and>
     ms_config_source s' = ms_config_source s \<and> si_persistent (ms_info s') = si_persistent (ms_info s) \<and>
     si_generation (ms_info s') = saturating_add (si_generation (ms_info s)) 1 \<and>
     (\<exists>old new. ms_runtime s = Some old \<and> ms_runtime s' = Some new \<and> rt_seed new = rt_seed old \<and>
        rt_current new = \<lparr>pg_policy = session_policy_compile (re_hmac env) (re_b64url env) c (rt_seed old),
          pg_secrets = secrets\<rparr> \<and>
        (rt_listener_generation new = rt_listener_generation old \<and> rt_socket new = rt_socket old \<or>
         rt_listener_generation old < rt_listener_generation new \<and> retire old \<in> set (ms_retired_runtimes s')))"

lemma pruned_undisturbed: "pruned s t \<Longrightarrow> undisturbed s t"
  by (auto simp: pruned_def undisturbed_def)

lemma undisturbed_trans: "undisturbed s t \<Longrightarrow> undisturbed t u \<Longrightarrow> undisturbed s u"
  unfolding undisturbed_def by (elim conjE) (intro conjI; simp?; blast)

lemma undisturbed_pruned: "pruned s t \<Longrightarrow> undisturbed t u \<Longrightarrow> undisturbed s u"
  using undisturbed_trans [OF pruned_undisturbed] .

lemma switched_pruned: "pruned s t \<Longrightarrow> switched env c secrets t u \<Longrightarrow> switched env c secrets s u"
  using pruned_simps [of s t] by (simp add: switched_def)

definition kept :: "string \<Rightarrow> managed_session \<Rightarrow> reload_result \<Rightarrow> session_registry \<Rightarrow> bool" where
  "kept sid s result r' \<longleftrightarrow> rr_status result \<noteq> Reloaded \<and> rr_id result = sid \<and>
     (\<exists>s'. rg_sessions r' sid = Some s' \<and> session_ok sid s' \<and> undisturbed s s' \<and>
       rr_socket result = si_socket (ms_info s'))"

definition changed :: "'w reload_env \<Rightarrow> reload_candidate \<Rightarrow> string \<Rightarrow> managed_session \<Rightarrow> reload_result \<Rightarrow> session_registry \<Rightarrow> bool" where
  "changed env cand sid s result r' \<longleftrightarrow> rr_status result = Reloaded \<and> rr_id result = sid \<and>
     (\<exists>s'. rg_sessions r' sid = Some s' \<and> session_ok sid s' \<and> switched env (rc_session cand) (rc_secrets cand) s s' \<and>
       rr_socket result = si_socket (ms_info s'))"

lemma kept_pruned: "pruned s t \<Longrightarrow> kept sid t result r \<Longrightarrow> kept sid s result r"
  unfolding kept_def using undisturbed_pruned by blast

lemma changed_pruned: "pruned s t \<Longrightarrow> changed env cand sid t result r \<Longrightarrow> changed env cand sid s result r"
  unfolding changed_def using switched_pruned by blast

lemma kept_failed:
  assumes "rg_sessions r sid = Some t" "session_ok sid t" "socket = si_socket (ms_info t)"
  shows "kept sid t (failed sid socket reason) r" "kept sid t (failed_with_detail sid socket reason d) r"
    "kept sid t (unchanged sid socket) r"
  using assms pruned_undisturbed [OF pruned_refl] by (auto simp: kept_def reload_results)

lemma inspect_outcome:
  assumes "rg_sessions r sid = Some s" "session_ok sid s" "reload_inspect is_finished sid r = (out, r')"
  shows "\<exists>t. rg_sessions r' sid = Some t \<and> pruned s t \<and>
    (case out of Inl result \<Rightarrow> kept sid t result r'
     | Inr start \<Rightarrow> ms_config_source s = Some (rs_source start) \<and> rs_secrets start = ms_secrets s \<and>
         rs_socket start = si_socket (ms_info s) \<and> rs_keep start = sc_persistent (ms_configuration s))"
proof -
  let ?t = "prune_retired is_finished s"
  have p: "pruned s ?t" and ok: "session_ok sid ?t" using prune_retired_pruned prune_retired_ok [OF assms(2)] by auto
  note k = kept_failed [OF _ ok refl]
  have "rg_sessions r' sid = Some ?t" using assms(1,3)
    by (auto simp: reload_inspect_def Let_def split: if_splits option.splits)
  with assms(1,3) p k [of r'] pruned_simps [OF p] show ?thesis
    by (auto simp: reload_inspect_def Let_def split: if_splits option.splits intro!: exI [of _ ?t])
qed

lemma compare_outcome:
  assumes "rg_sessions r sid = Some t" "session_ok sid t" "rs_socket start = si_socket (ms_info t)"
    and "reload_compare sid start cand r = Inl result"
  shows "kept sid t result r"
  using assms kept_failed [OF assms(1-3)] by (auto simp: reload_compare_def split: if_splits)

lemma in_place_outcome:
  assumes "rg_sessions r sid = Some t" "session_ok sid t" "rs_socket start = si_socket (ms_info t)"
    and "reload_in_place env sid start cand r = (result, r')"
  shows "kept sid t result r' \<or> changed env cand sid t result r'"
proof (cases "rg_accepting_sessions r \<and> ms_runtime t \<noteq> None")
  case False
  then show ?thesis using assms kept_failed [OF assms(1-3)] by (auto simp: reload_in_place_def split: if_splits)
next
  case True
  then obtain old where old: "ms_runtime t = Some old" by auto
  let ?gs = "filter (re_alive env) (rt_generations old)"
  have o: "rt_socket old = si_socket (ms_info t)" "rt_listener_generation old = ms_listener_generation t"
    "\<not> rt_retired old" using assms(2) old by (auto simp: session_ok_def)
  show ?thesis
  proof (cases "length ?gs \<ge> MAX_POLICY_GENERATIONS")
    case True
    let ?t = "t\<lparr>ms_runtime := Some (old\<lparr>rt_generations := ?gs\<rparr>)\<rparr>"
    have "session_ok sid ?t" "undisturbed t ?t" using assms(2) old by (auto simp: session_ok_def undisturbed_def)
    then have "kept sid t result r'"
      using assms(1,3,4) True old \<open>rg_accepting_sessions r \<and> ms_runtime t \<noteq> None\<close>
      by (auto simp: reload_in_place_def replace_generation_def Let_def kept_def failed_def)
    then show ?thesis ..
  next
    case False
    let ?new = "old\<lparr>rt_current := \<lparr>pg_policy = session_policy_compile (re_hmac env) (re_b64url env) (rc_session cand) (rt_seed old),
          pg_secrets = rc_secrets cand\<rparr>, rt_generations := ?gs @ [rt_next old], rt_next := Suc (rt_next old)\<rparr>"
    let ?t = "t\<lparr>ms_runtime := Some ?new, ms_configuration := rc_session cand, ms_secrets := rc_secrets cand,
        ms_info := (ms_info t)\<lparr>si_generation := saturating_add (si_generation (ms_info t)) 1,
          si_draining_generations := length (ms_retired_runtimes t)\<rparr>\<rparr>"
    have "session_ok sid ?t" "switched env (rc_session cand) (rc_secrets cand) t ?t"
      using assms(2) old by (auto simp: session_ok_def switched_def)
    then have "changed env cand sid t result r'"
      using assms(1,3,4) False old o \<open>rg_accepting_sessions r \<and> ms_runtime t \<noteq> None\<close>
      by (auto simp: reload_in_place_def replace_generation_def Let_def changed_def reloaded_def)
    then show ?thesis ..
  qed
qed

text \<open>The listener section leaves a pruned session, and promises a larger generation and room to retire.\<close>

lemma checked_add_one: "checked_add a 1 = Some n \<longleftrightarrow> n = a + 1 \<and> a < n"
proof -
  have "a + 1 < a \<longleftrightarrow> \<not> a < a + 1"
    using linorder_less_linear [of a "a + 1"] by auto
  then show ?thesis by (auto simp: checked_add_def)
qed

lemma listener_outcome:
  assumes "rg_sessions r sid = Some s" "session_ok sid s" "rs_socket start = si_socket (ms_info s)"
    and "reload_listener is_finished sid start r = (out, r')"
  shows "\<exists>t. rg_sessions r' sid = Some t \<and> pruned s t \<and>
    (case out of Inl result \<Rightarrow> kept sid t result r'
     | Inr (seed, n, can_retire) \<Rightarrow> (\<exists>old. ms_runtime t = Some old \<and> seed = rt_seed old) \<and>
         ms_listener_generation t < n \<and>
         (can_retire \<longrightarrow> length (ms_retired_runtimes t) < MAX_RETIRED_LISTENERS))"
proof (cases "rg_accepting_sessions r")
  case False
  then show ?thesis using assms kept_failed(1) [OF assms(1-3)] pruned_refl [of s]
    by (auto simp: reload_listener_def)
next
  case True
  let ?t = "s\<lparr>ms_retired_runtimes := filter (\<lambda>r. \<not> is_finished r) (ms_retired_runtimes s)\<rparr>"
  have p: "pruned s ?t" unfolding pruned_def
    by (rule exI [of _ "\<lambda>r. \<not> is_finished r"], rule exI [of _ "si_draining_generations (ms_info s)"]) simp
  have r': "rg_sessions r' sid = Some ?t"
    using assms(1,4) True by (auto simp: reload_listener_def Let_def split: option.splits)
  have k: "kept sid ?t (failed sid (rs_socket start) reason) r'" for reason
    using kept_failed(1) [OF r' pruned_ok [OF assms(2) p]] assms(3) by simp
  show ?thesis
    using assms(1,4) True p r' k
    by (auto simp: reload_listener_def Let_def checked_add_one split: option.splits intro!: exI [of _ ?t])
qed

lemma swap_outcome:
  assumes "rg_sessions r sid = Some t" "session_ok sid t" "rs_socket start = si_socket (ms_info t)"
    and old: "ms_runtime t = Some old" and n: "ms_listener_generation t < n"
    and room: "length (ms_retired_runtimes t) < MAX_RETIRED_LISTENERS"
    and swap: "reload_swap sid start cand (start_replacement env cand (rt_seed old) n) n r = (result, r')"
  shows "kept sid t result r' \<or> changed env cand sid t result r'"
proof (cases "rg_accepting_sessions r \<and> si_state (ms_info t) = Running")
  case False
  then show ?thesis using assms(1) swap kept_failed(1) [OF assms(1-3)]
    by (auto simp: reload_swap_def split: if_splits)
next
  case True
  let ?retired = "ms_retired_runtimes t @ [retire old]"
  let ?t = "t\<lparr>ms_runtime := Some (start_replacement env cand (rt_seed old) n), ms_configuration := rc_session cand,
      ms_secrets := rc_secrets cand, ms_listener_generation := n, ms_listener_gate := n, ms_retired_runtimes := ?retired,
      ms_info := (ms_info t)\<lparr>si_socket := rc_target cand, si_generation := saturating_add (si_generation (ms_info t)) 1,
        si_draining_generations := length ?retired\<rparr>\<rparr>"
  have o: "rt_listener_generation old = ms_listener_generation t" using assms(2) old by (auto simp: session_ok_def)
  have ok: "session_ok sid ?t"
    using assms(2) True n room o
    by (auto simp: session_ok_def start_replacement_def runtime_start_def retire_def intro: less_trans)
  have "switched env (rc_session cand) (rc_secrets cand) t ?t"
    using old n o by (simp add: switched_def start_replacement_def runtime_start_def)
  with ok have "changed env cand sid t result r'"
    using True assms(1) old swap by (auto simp: reload_swap_def changed_def reloaded_def Let_def)
  then show ?thesis ..
qed

lemma listener_path_outcome:
  assumes "rg_sessions r sid = Some s" "session_ok sid s" "rs_socket start = si_socket (ms_info s)"
    and others: "\<And>k r. interference sid r (others k r)"
    and run: "reload_listener_path env others sid start cand r = (result, r')"
  shows "kept sid s result r' \<or> changed env cand sid s result r'"
proof -
  obtain out r1 where l: "reload_listener (re_finished env 1) sid start r = (out, r1)" by fastforce
  from listener_outcome [OF assms(1-3) l] obtain t where t: "rg_sessions r1 sid = Some t" "pruned s t"
    and out: "case out of Inl result \<Rightarrow> kept sid t result r1
     | Inr (seed, n, can_retire) \<Rightarrow> (\<exists>old. ms_runtime t = Some old \<and> seed = rt_seed old) \<and>
         ms_listener_generation t < n \<and>
         (can_retire \<longrightarrow> length (ms_retired_runtimes t) < MAX_RETIRED_LISTENERS)" by blast
  have ok: "session_ok sid t" using pruned_ok [OF assms(2) t(2)] .
  have socket: "rs_socket start = si_socket (ms_info t)" using assms(3) pruned_simps(8) [OF t(2)] by simp
  have "kept sid t result r' \<or> changed env cand sid t result r'"
  proof (cases out)
    case (Inl e)
    then show ?thesis using run l out by (simp add: reload_listener_path_def)
  next
    case (Inr x)
    then obtain n can old where x: "out = Inr (rt_seed old, n, can)" "ms_runtime t = Some old"
      "ms_listener_generation t < n" "can \<Longrightarrow> length (ms_retired_runtimes t) < MAX_RETIRED_LISTENERS"
      using out by (cases x) auto
    show ?thesis
    proof (cases "can \<and> re_bind env (rc_target cand)")
      case False
      then show ?thesis using run l x(1) kept_failed(1) [OF t(1) ok socket]
        by (auto simp: reload_listener_path_def split: if_splits)
    next
      case True
      from interference_Some [OF others t(1), of 2] obtain u where
        u: "rg_sessions (others 2 r1) sid = Some u" "pruned t u" by blast
      note ps = pruned_simps [OF u(2)]
      from run l x(1) True have "reload_swap sid start cand (start_replacement env cand (rt_seed old) n) n (others 2 r1) =
          (result, r')" by (simp add: reload_listener_path_def)
      moreover have "length (ms_retired_runtimes u) < MAX_RETIRED_LISTENERS" using x(4) True ps(12) by simp
      ultimately have "kept sid u result r' \<or> changed env cand sid u result r'"
        using swap_outcome [OF u(1) pruned_ok [OF ok u(2)], of start old n cand env] socket x(2,3) ps by simp
      then show ?thesis using kept_pruned [OF u(2)] changed_pruned [OF u(2)] by blast
    qed
  qed
  then show ?thesis using kept_pruned [OF t(2)] changed_pruned [OF t(2)] by blast
qed

lemma load_candidate_Inr:
  "load_candidate env sid start = Inr cand \<longleftrightarrow>
     (\<exists>configs session. re_configs env = Some configs \<and> read_session configs (rs_source start) = Inr session \<and>
        rc_session cand = session\<lparr>sc_persistent := rs_keep start\<rparr> \<and>
        snd (resolve (re_fs env) (re_store env) (rc_session cand)) = Inr (rc_secrets cand) \<and>
        absolute_socket_path (re_cwd env) (path_join (re_socket_dir env) (session_socket_name sid (rc_session cand))) =
          Some (rc_target cand))"
  by (cases cand) (auto simp: load_candidate_def result_simps Let_def)

lemma load_candidate_kept:
  assumes "rg_sessions r sid = Some t" "session_ok sid t" "rs_socket start = si_socket (ms_info t)"
    and "load_candidate env sid start = Inl result"
  shows "kept sid t result r"
  using assms(4) kept_failed [OF assms(1-3)]
  by (auto simp: load_candidate_def Let_def Inl_simps)

lemma reload_locked_outcome:
  assumes "rg_sessions r sid = Some s" "session_ok sid s"
    and others: "\<And>k r. interference sid r (others k r)"
    and run: "reload_locked env others sid r = (result, r')"
  shows "kept sid s result r' \<or>
    (\<exists>start cand. ms_config_source s = Some (rs_source start) \<and> rs_keep start = sc_persistent (ms_configuration s) \<and>
       load_candidate env sid start = Inr cand \<and> changed env cand sid s result r')"
proof -
  obtain out r1 where i: "reload_inspect (re_finished env 0) sid r = (out, r1)" by fastforce
  from inspect_outcome [OF assms(1,2) i] obtain t where t: "rg_sessions r1 sid = Some t" "pruned s t"
    and out: "case out of Inl result \<Rightarrow> kept sid t result r1
     | Inr start \<Rightarrow> ms_config_source s = Some (rs_source start) \<and> rs_secrets start = ms_secrets s \<and>
         rs_socket start = si_socket (ms_info s) \<and> rs_keep start = sc_persistent (ms_configuration s)" by blast
  have ok: "session_ok sid t" using pruned_ok [OF assms(2) t(2)] .
  show ?thesis
  proof (cases out)
    case (Inl e)
    then show ?thesis using run i out kept_pruned [OF t(2)] by (simp add: reload_locked_def)
  next
    case (Inr start)
    then have st: "ms_config_source s = Some (rs_source start)" "rs_keep start = sc_persistent (ms_configuration s)"
      "rs_socket start = si_socket (ms_info t)" using out pruned_simps(8) [OF t(2)] by simp_all
    show ?thesis
    proof (cases "load_candidate env sid start")
      case (Inl e)
      then show ?thesis using run i Inr kept_pruned [OF t(2)] load_candidate_kept [OF t(1) ok st(3) Inl]
        by (simp add: reload_locked_def)
    next
      case c: (Inr cand)
      let ?r2 = "others 0 r1"
      let ?r3 = "others 1 ?r2"
      from interference_Some [OF others t(1)] obtain u where
        u: "rg_sessions ?r2 sid = Some u" "pruned t u" by blast
      from interference_Some [OF others u(1)] obtain v where
        v: "rg_sessions ?r3 sid = Some v" "pruned u v" by blast
      have p: "pruned s u" "pruned s v" using pruned_trans t(2) u(2) v(2) by blast+
      have uok: "session_ok sid u" "session_ok sid v" using pruned_ok [OF assms(2)] p by auto
      have sock: "rs_socket start = si_socket (ms_info u)" "rs_socket start = si_socket (ms_info v)"
        using st(3) pruned_simps(8) [OF u(2)] pruned_simps(8) [OF v(2)] by simp_all
      show ?thesis
      proof (cases "reload_compare sid start cand ?r2")
        case (Inl e)
        then show ?thesis
          using run i Inr c kept_pruned [OF p(1)] compare_outcome [OF u(1) uok(1) sock(1) Inl]
          by (simp add: reload_locked_def)
      next
        case cmp: (Inr _)
        with run i Inr c have "(if same_path (rc_target cand) (rs_socket start) then reload_in_place env sid start cand ?r3
            else reload_listener_path env others sid start cand ?r3) = (result, r')"
          by (simp add: reload_locked_def Let_def split: if_splits)
        then have "kept sid v result r' \<or> changed env cand sid v result r'"
          using in_place_outcome [OF v(1) uok(2) sock(2), of env cand]
            listener_path_outcome [OF v(1) uok(2) sock(2), of others env cand, OF others]
          by (cases "same_path (rc_target cand) (rs_socket start)") auto
        then show ?thesis using kept_pruned [OF p(2)] changed_pruned [OF p(2)] st c by blast
      qed
    qed
  qed
qed

text \<open>
  C11. A reload is all or nothing. Whatever other tasks do between its critical sections, a reload
  that does not report success leaves the session as it was: configuration, secrets, policy,
  listener, socket and generation are untouched. A reload that reports success has replaced them
  together, with the session of the file the session was created from, its lifetime excepted,
  the secrets resolved for it, and a policy compiled under the seed the session has had from the
  beginning. The reported socket is the session's in both cases, and the invariant of a session
  holds afterwards, so no more than eight listeners are ever draining.
\<close>

theorem reload_all_or_nothing:
  assumes "rg_sessions r sid = Some s" "session_ok sid s"
    and "\<And>k r. interference sid r (others k r)"
    and "reload_locked env others sid r = (result, r')"
  shows "\<exists>s'. rg_sessions r' sid = Some s' \<and> session_ok sid s' \<and> rr_id result = sid \<and>
    rr_socket result = si_socket (ms_info s') \<and>
    (if rr_status result = Reloaded
     then \<exists>configs source session secrets. re_configs env = Some configs \<and> ms_config_source s = Some source \<and>
       read_session configs source = Inr session \<and>
       snd (resolve (re_fs env) (re_store env) (ms_configuration s')) = Inr secrets \<and>
       switched env (session\<lparr>sc_persistent := sc_persistent (ms_configuration s)\<rparr>) secrets s s'
     else undisturbed s s')"
  using reload_locked_outcome [OF assms]
proof
  assume "kept sid s result r'"
  then show ?thesis by (auto simp: kept_def)
next
  assume "\<exists>start cand. ms_config_source s = Some (rs_source start) \<and> rs_keep start = sc_persistent (ms_configuration s) \<and>
       load_candidate env sid start = Inr cand \<and> changed env cand sid s result r'"
  then obtain start cand s' where c: "ms_config_source s = Some (rs_source start)"
    "rs_keep start = sc_persistent (ms_configuration s)" "load_candidate env sid start = Inr cand"
    "rr_status result = Reloaded" "rr_id result = sid" "rg_sessions r' sid = Some s'" "session_ok sid s'"
    "switched env (rc_session cand) (rc_secrets cand) s s'" "rr_socket result = si_socket (ms_info s')"
    by (auto simp: changed_def)
  moreover have "ms_configuration s' = rc_session cand" using c(8) by (simp add: switched_def)
  ultimately show ?thesis by (auto simp: load_candidate_Inr)
qed

definition example_reload :: "unit reload_env" where
  "example_reload = \<lparr>re_configs = Some example_compose, re_fs = example_fs, re_store = example_store,
     re_socket_dir = ''/run'', re_cwd = None, re_hmac = (\<lambda>k m. m), re_b64url = (\<lambda>m. m),
     re_finished = (\<lambda>_ _. False), re_alive = (\<lambda>_. True), re_bind = (\<lambda>_. True)\<rparr>"

definition example_running :: session_registry where
  "example_running = \<lparr>rg_accepting_sessions = True,
     rg_sessions = [''a'' \<mapsto> (example_managed ''a'')\<lparr>ms_config_source := Some ''r.toml''\<rparr>], rg_provisioning = {}\<rparr>"

lemma example_read_session: "read_session example_compose ''r.toml'' = Inr example_session"
proof -
  have l: "\<exists>doc. load_document example_compose ''r.toml'' True = Inr (doc, []) \<and>
      \<not> fd_has_unmatched doc \<and> fd_policy_text doc = Some []"
    by (simp add: load_document_def example_compose_def example_snapshot import_list_def)
  then obtain doc where doc: "load_document example_compose ''r.toml'' True = Inr (doc, [])"
    "\<not> fd_has_unmatched doc" "fd_policy_text doc = Some []" by blast
  have "session_file_from_toml (ce_session example_compose) (ce_hosts example_compose) [] = Inr example_session"
    using example_document by (simp add: session_file_from_toml_def from_toml_def example_compose_def)
  with doc show ?thesis
    by (simp add: read_session_def compose_file.simps MAX_SESSION_IMPORT_DEPTH_def MAX_SESSION_IMPORT_FILES_def
        compose_policy_def merge_unmatched_def merge_default_def composition_default_def agree_def
        example_session_def finish_root_def)
qed

lemma example_candidate:
  assumes "rs_source start = ''r.toml''" "rs_keep start"
  shows "load_candidate example_reload ''a'' start =
    Inr \<lparr>rc_session = example_session, rc_secrets = [(''api.token'', ''ab'')], rc_target = ''/run/a/b.sock''\<rparr>"
proof -
  have "example_session\<lparr>sc_persistent := True\<rparr> = example_session" by (simp add: example_session_def)
  moreover have "session_socket_name ''a'' example_session = ''a/b.sock''"
    by (simp add: session_socket_name_def example_session_def)
  moreover have "absolute_socket_path None (path_join ''/run'' ''a/b.sock'') = Some ''/run/a/b.sock''"
    by (simp add: absolute_socket_path_def path_join_def is_absolute_def suffix_to_prefix)
  ultimately show ?thesis
    using assms
    by (simp add: load_candidate_def example_reload_def example_read_session example_resolve Let_def)
qed

theorem reload_all_or_nothing_witness:
  "rr_status (fst (reload_locked example_reload (\<lambda>_ r. r) ''a'' example_running)) = Reloaded \<and>
   (\<exists>s'. rg_sessions (snd (reload_locked example_reload (\<lambda>_ r. r) ''a'' example_running)) ''a'' = Some s' \<and>
     session_ok ''a'' s' \<and> ms_secrets s' = [(''api.token'', ''ab'')])"
proof -
  let ?s = "(example_managed ''a'')\<lparr>ms_config_source := Some ''r.toml''\<rparr>"
  have s: "rg_sessions example_running ''a'' = Some ?s" by (simp add: example_running_def)
  have ok: "session_ok ''a'' ?s" using example_managed_ok [of "''a''"] by (simp add: session_ok_def)
  obtain result r' where run: "reload_locked example_reload (\<lambda>_ r. r) ''a'' example_running = (result, r')" by fastforce
  have p: "prune_retired (\<lambda>_. False) ?s = ?s"
    by (simp add: prune_retired_def Let_def example_managed_def committed_def)
  have n: "\<not> same_path ''/run/a/b.sock'' ''/run/baffle/a.sock''"
    by (simp add: same_path_def components_def is_absolute_def piece_component_def)
  let ?start = "\<lparr>rs_source = ''r.toml'', rs_secrets = [(''api.token'', ''s3cret'')], rs_socket = ''/run/baffle/a.sock'', rs_keep = True\<rparr>"
  let ?r = "update_session ''a'' ?s example_running"
  have i: "reload_inspect (re_finished example_reload 0) ''a'' example_running = (Inr ?start, ?r)"
    using s p
    by (simp add: reload_inspect_def Let_def example_reload_def)
      (simp add: example_running_def example_managed_def committed_def example_runtime_def runtime_start_def example_session_def)
  have l: "reload_listener (re_finished example_reload 1) ''a'' ?start ?r = (Inr (''seed'', 2, True), ?r)"
    by (simp add: reload_listener_def Let_def example_reload_def checked_add_def example_running_def
        example_managed_def committed_def example_runtime_def runtime_start_def update_session_def
        MAX_RETIRED_LISTENERS_def)
  have st: "rr_status result = Reloaded \<and> (\<exists>s'. rg_sessions r' ''a'' = Some s' \<and> ms_secrets s' = [(''api.token'', ''ab'')])"
    using run n
    by (simp add: reload_locked_def i example_candidate reload_compare_def reload_listener_path_def Let_def
        l [unfolded One_nat_def])
      (auto simp: reload_swap_def example_reload_def example_running_def example_managed_def committed_def
        reloaded_def Let_def)
  show ?thesis using st run reload_all_or_nothing [OF s ok interference_refl run] by auto
qed

subsection \<open>Unchanged configurations decide alike\<close>

definition lower_credential :: "compiled_credential \<Rightarrow> compiled_credential" where
  "lower_credential c = c\<lparr>cc_injection := lower_header (cc_injection c)\<rparr>"

text \<open>Two compiled rules that differ only in the order of their parts and in the case of header names.\<close>

definition same_rule :: "compiled_rule \<Rightarrow> compiled_rule \<Rightarrow> bool" where
  "same_rule r r' \<longleftrightarrow> cr_mode r = cr_mode r' \<and> cr_ports r = cr_ports r' \<and> set (cr_paths r) = set (cr_paths r') \<and>
     mset (map lower_credential (cr_credentials r)) = mset (map lower_credential (cr_credentials r'))"

lemma same_effective_rules_set:
  "same_effective_rules left right \<Longrightarrow> canonical_rule ` set left = canonical_rule ` set right"
  unfolding same_effective_rules_def canonical_def by (metis list.set_map set_sort)

lemma canonical_rule_eqD:
  assumes "canonical_rule r = canonical_rule r'"
  shows "hr_host r = hr_host r'" "hr_mode r = hr_mode r'" "set (hr_ports r) = set (hr_ports r')"
    "set (hr_paths r) = set (hr_paths r')" "mset (map lower_header (hr_inject r)) = mset (map lower_header (hr_inject r'))"
proof -
  have "sort (hr_ports r) = sort (hr_ports r')" "sort (hr_paths r) = sort (hr_paths r')"
    "sort_key hi_header (map lower_header (hr_inject r)) = sort_key hi_header (map lower_header (hr_inject r'))"
    and "hr_host r = hr_host r'" "hr_mode r = hr_mode r'"
    using assms by (cases r; cases r'; simp add: canonical_rule_def)+
  then show "hr_host r = hr_host r'" "hr_mode r = hr_mode r'" "set (hr_ports r) = set (hr_ports r')"
    "set (hr_paths r) = set (hr_paths r')" "mset (map lower_header (hr_inject r)) = mset (map lower_header (hr_inject r'))"
    by (metis set_sort mset_sort)+
qed

lemma lower_credential_compile:
  assumes "\<And>secret. effective_credential_mode c secret = effective_credential_mode c' secret"
  shows "lower_credential (compile_credential hmac b64url c seed i) = compile_credential hmac b64url c' seed (lower_header i)"
  using assms by (simp add: lower_credential_def compile_credential_def Let_def lower_header_def)

lemma compile_rule_same:
  assumes "canonical_rule r = canonical_rule r'"
    and modes: "\<And>secret. effective_credential_mode c secret = effective_credential_mode c' secret"
  shows "same_rule (compile_rule hmac b64url c seed r) (compile_rule hmac b64url c' seed r')"
proof -
  note d = canonical_rule_eqD [OF assms(1)]
  let ?f = "compile_credential hmac b64url c' seed"
  have "map lower_credential (map (compile_credential hmac b64url c seed) (hr_inject r)) = map ?f (map lower_header (hr_inject r))"
    "map lower_credential (map (compile_credential hmac b64url c' seed) (hr_inject r')) = map ?f (map lower_header (hr_inject r'))"
    using lower_credential_compile [OF modes] lower_credential_compile [of c' c'] by simp_all
  with d(5) have "mset (map lower_credential (map (compile_credential hmac b64url c seed) (hr_inject r))) =
      mset (map lower_credential (map (compile_credential hmac b64url c' seed) (hr_inject r')))"
    by (metis mset_map)
  with d show ?thesis by (simp add: same_rule_def)
qed

lemma unchanged_lookup:
  assumes "wf_session c" "wf_session c'" "configuration_unchanged c' c"
  shows "rel_option same_rule (sp_rules (session_policy_compile hmac b64url c seed) h)
    (sp_rules (session_policy_compile hmac b64url c' seed) h)"
proof -
  have set_eq: "canonical_rule ` set (sc_rules c) = canonical_rule ` set (sc_rules c')"
    using assms(3) same_effective_rules_set by (metis configuration_unchanged_def)
  have modes: "effective_credential_mode c secret = effective_credential_mode c' secret" for secret
    using assms(3) by (auto simp: configuration_unchanged_def effective_credential_mode_def split: option.split)
  have d: "distinct (map hr_host (sc_rules c))" "distinct (map hr_host (sc_rules c'))"
    using assms(1,2) by (simp_all add: wf_session_def)
  show ?thesis
  proof (cases "sp_rules (session_policy_compile hmac b64url c seed) h")
    case None
    then have "\<forall>r \<in> set (sc_rules c). hr_host r \<noteq> h" by (simp only: compile_lookup_None)
    then have "\<forall>r \<in> set (sc_rules c'). hr_host r \<noteq> h"
      using set_eq canonical_rule_eqD(1) by (metis imageE imageI)
    with None show ?thesis using compile_lookup_None [of hmac b64url c' seed h] by simp
  next
    case (Some rule)
    then obtain r where r: "r \<in> set (sc_rules c)" "hr_host r = h" "rule = compile_rule hmac b64url c seed r"
      using compile_lookup [OF d(1)] by metis
    then obtain r' where r': "r' \<in> set (sc_rules c')" "canonical_rule r = canonical_rule r'"
      using set_eq by (metis imageE imageI)
    then have "sp_rules (session_policy_compile hmac b64url c' seed) h = Some (compile_rule hmac b64url c' seed r')"
      using compile_lookup [OF d(2)] canonical_rule_eqD(1) [OF r'(2)] r(2) by metis
    with Some r(3) show ?thesis using compile_rule_same [OF r'(2) modes] by simp
  qed
qed

lemma same_rule_path:
  assumes "same_rule r r'"
  shows "canonical_authorized_path r path = canonical_authorized_path r' path"
proof -
  have "set (cr_paths r) = set (cr_paths r')" using assms by (simp add: same_rule_def)
  then show ?thesis
    unfolding canonical_authorized_path_def list_ex_iff by (metis set_empty)
qed

lemma same_rule_connect:
  assumes "rel_option same_rule (sp_rules p (d_host d)) (sp_rules p' (d_host d))" "sp_unmatched p = sp_unmatched p'"
    "parse_authority_text hp a (Some 443) = Inr d"
  shows "authorize_connect_authority hp p a hs = authorize_connect_authority hp p' a hs"
  using assms
  by (auto simp: authorize_connect_authority_def rel_option_iff same_rule_def
      intro!: arg_cong [where f = "and_then _"] split: option.splits)

text \<open>The two outcomes of a decrypted request: the same refusal, or the same path and credentials.\<close>

definition same_outcome :: "authorization_error + compiled_credential list \<times> string option \<Rightarrow>
    authorization_error + compiled_credential list \<times> string option \<Rightarrow> bool" where
  "same_outcome x y = rel_sum (=) (\<lambda>(creds, path) (creds', path'). path = path' \<and>
     mset (map lower_credential creds) = mset (map lower_credential creds')) x y"

lemma same_outcome_Inl: "same_outcome (Inl e) (Inl e)"
  by (simp add: same_outcome_def)

lemma same_outcome_and_then:
  "(\<And>x. r = Inr x \<Longrightarrow> same_outcome (f x) (g x)) \<Longrightarrow> same_outcome (and_then r f) (and_then r g)"
  by (cases r) (simp_all add: same_outcome_Inl)

lemma same_outcome_rule:
  assumes "rel_option same_rule x y"
  shows "same_outcome
    (and_then (ok_or Denied (case x of None \<Rightarrow> None | Some rule \<Rightarrow> if port \<in> cr_ports rule then Some rule else None))
      (\<lambda>rule. and_then (canonical_authorized_path rule q) (\<lambda>path. Inr (cr_credentials rule, path))))
    (and_then (ok_or Denied (case y of None \<Rightarrow> None | Some rule \<Rightarrow> if port \<in> cr_ports rule then Some rule else None))
      (\<lambda>rule. and_then (canonical_authorized_path rule q) (\<lambda>path. Inr (cr_credentials rule, path))))"
proof (cases x)
  case None
  with assms show ?thesis by (cases y) (simp_all add: same_outcome_Inl)
next
  case (Some r)
  with assms obtain r' where y: "y = Some r'" and same: "same_rule r r'" by (cases y) auto
  note p = same_rule_path [OF same, of q]
  show ?thesis
    using same unfolding Some y
    by (cases "canonical_authorized_path r' q")
      (simp_all add: p same_outcome_Inl, simp_all add: same_rule_def same_outcome_def)
qed

text \<open>
  C28. A reload that reports \<open>unchanged\<close> keeps a configuration that decides every request the way
  the file on disk does: rules that differ only in the order of rules, ports, paths and
  injections, and in the case of header names, give the same decision for every CONNECT request
  and the same decision, path and credentials for every decrypted request.
\<close>

theorem unchanged_decides_alike:
  assumes "wf_session c" "wf_session c'" "configuration_unchanged c' c"
  shows "authorize_connect_authority hp (session_policy_compile hmac b64url c seed) a hs =
      authorize_connect_authority hp (session_policy_compile hmac b64url c' seed) a hs \<and>
    same_outcome (authorize_intercepted_request hp (session_policy_compile hmac b64url c seed) facts a)
      (authorize_intercepted_request hp (session_policy_compile hmac b64url c' seed) facts a)"
proof
  let ?p = "session_policy_compile hmac b64url c seed" and ?p' = "session_policy_compile hmac b64url c' seed"
  note l = unchanged_lookup [OF assms, of hmac b64url seed]
  have u: "sp_unmatched ?p = sp_unmatched ?p'" using assms(3) by (simp add: configuration_unchanged_def)
  show "authorize_connect_authority hp ?p a hs = authorize_connect_authority hp ?p' a hs"
  proof (cases "parse_authority_text hp a (Some 443)")
    case (Inr d)
    then show ?thesis using same_rule_connect [OF l u] by blast
  qed (simp add: authorize_connect_authority_def)
  show "same_outcome (authorize_intercepted_request hp ?p facts a) (authorize_intercepted_request hp ?p' facts a)"
    unfolding authorize_intercepted_request_def
    by (auto intro!: same_outcome_and_then same_outcome_Inl same_outcome_rule l)
qed

definition example_reordered :: session_config where
  "example_reordered = example_session\<lparr>sc_rules := rev (sc_rules example_session)\<rparr>"

theorem unchanged_decides_alike_witness:
  "sc_rules example_reordered \<noteq> sc_rules example_session \<and> configuration_unchanged example_reordered example_session \<and>
   authorize_connect_authority plain_hosts (session_policy_compile (\<lambda>k m. m) (\<lambda>m. m) example_session []) ''web.com:443'' [] =
   authorize_connect_authority plain_hosts (session_policy_compile (\<lambda>k m. m) (\<lambda>m. m) example_reordered []) ''web.com:443'' []"
proof -
  have wf: "wf_session example_reordered" using example_wf by (simp add: wf_session_def example_reordered_def rev_map [symmetric])
  have "configuration_unchanged example_reordered example_session"
    by (simp add: configuration_unchanged_def example_reordered_def same_effective_rules_def canonical_def
        canonical_rule_def example_session_def)
  with wf unchanged_decides_alike [OF example_wf wf] show ?thesis
    by (simp add: example_reordered_def) (simp add: example_session_def)
qed

end
