(* ===== verification/Session_Steps.thy ===== *)
theory Session_Steps
  imports Session_Reload
begin

text \<open>
  How the operations of the session manager interleave. A state of \<open>manager\<close> is the registry with
  what is going on around it; a step of \<open>mstep\<close> is one critical section of one operation
  (\<open>src/control/session.rs\<close>, \<open>src/control/reload.rs\<close>), or the update of the gauge of active
  sessions that follows it. Tasks are aborted only by \<open>ControlServer::shutdown\<close>
  (\<open>src/control/server.rs\<close>), which closes the registry to new sessions first. The surroundings of
  a reload are typed for a store of any kind; these sections do not look at the store.
\<close>

subsection \<open>States\<close>

text \<open>
  The task that holds the lock of a session: a stop, removal or exit between marking the session
  and removing it, a reload that has read the session, or a reload about to start its listener.
\<close>

datatype holder =
    Removing
  | Reloading reload_start
  | Starting reload_start string u64

record manager =
  mg_registry :: session_registry
  mg_active :: u64
  mg_pending :: nat
  mg_creating :: "string set"
  mg_holder :: "string \<rightharpoonup> holder"
  mg_shutdown :: "(string set \<times> nat) option"

definition manager_new :: manager where
  "manager_new = \<lparr>mg_registry = registry_new, mg_active = 0, mg_pending = 0, mg_creating = {},
     mg_holder = Map.empty, mg_shutdown = None\<rparr>"

abbreviation set_registry :: "session_registry \<Rightarrow> manager \<Rightarrow> manager" where
  "set_registry r g \<equiv> g\<lparr>mg_registry := r\<rparr>"

abbreviation hold :: "string \<Rightarrow> holder option \<Rightarrow> manager \<Rightarrow> manager" where
  "hold sid h g \<equiv> g\<lparr>mg_holder := (mg_holder g)(sid := h)\<rparr>"

inductive mstep :: "nat \<Rightarrow> manager \<Rightarrow> manager \<Rightarrow> bool" for max_sessions where
  reserve: "create_reserve max_sessions sid (mg_registry g) = Inr r \<Longrightarrow>
    mstep max_sessions g (g\<lparr>mg_registry := r, mg_creating := insert sid (mg_creating g)\<rparr>)"
| release: "sid \<in> mg_creating g \<Longrightarrow>
    mstep max_sessions g (g\<lparr>mg_registry := create_release sid (mg_registry g), mg_creating := mg_creating g - {sid}\<rparr>)"
| commit: "sid \<in> mg_creating g \<Longrightarrow>
    create_commit sid session secrets source (runtime_start hmac b64url session secrets seed socket 1) (mg_registry g) =
      (Inr info, r) \<Longrightarrow>
    mstep max_sessions g (g\<lparr>mg_registry := r, mg_creating := mg_creating g - {sid}, mg_active := mg_active g + 1\<rparr>)"
| refuse: "sid \<in> mg_creating g \<Longrightarrow>
    create_commit sid session secrets source (runtime_start hmac b64url session secrets seed socket 1) (mg_registry g) =
      (Inl e, r) \<Longrightarrow>
    mstep max_sessions g (g\<lparr>mg_registry := r, mg_creating := mg_creating g - {sid}\<rparr>)"
| mark: "mg_holder g sid = None \<Longrightarrow>
    stop_mark sid (mg_registry g) = (Taken rts, r) \<or> remove_mark sid (mg_registry g) = (Taken rts, r) \<or>
      runtime_exit_mark sid n (mg_registry g) = (Taken rts, r) \<Longrightarrow>
    mstep max_sessions g (hold sid (Some Removing) (set_registry r g))"
| drained: "mg_holder g sid = None \<Longrightarrow> runtime_exit_mark sid n (mg_registry g) = (Retained, r) \<Longrightarrow>
    mstep max_sessions g (set_registry r g)"
| finish: "mg_holder g sid = Some Removing \<Longrightarrow> remove_session sid (mg_registry g) = (present, r) \<Longrightarrow>
    mstep max_sessions g (hold sid None (g\<lparr>mg_registry := r, mg_pending := mg_pending g + (if present then 1 else 0)\<rparr>))"
| count_off: "0 < mg_pending g \<Longrightarrow>
    mstep max_sessions g (g\<lparr>mg_pending := mg_pending g - 1, mg_active := mg_active g - 1\<rparr>)"
| list: "list_sessions is_finished (mg_registry g) = (infos, r) \<Longrightarrow> mstep max_sessions g (set_registry r g)"
| inspect: "mg_holder g sid = None \<Longrightarrow> rg_sessions (mg_registry g) sid \<noteq> None \<Longrightarrow>
    reload_inspect is_finished sid (mg_registry g) = (out, r) \<Longrightarrow>
    mstep max_sessions g (hold sid (case out of Inl _ \<Rightarrow> None | Inr start \<Rightarrow> Some (Reloading start)) (set_registry r g))"
| in_place: "mg_holder g sid = Some (Reloading start) \<Longrightarrow>
    reload_in_place (env :: unit reload_env) sid start cand (mg_registry g) = (result, r) \<Longrightarrow>
    mstep max_sessions g (hold sid None (set_registry r g))"
| listener: "mg_holder g sid = Some (Reloading start) \<Longrightarrow>
    reload_listener is_finished sid start (mg_registry g) = (out, r) \<Longrightarrow>
    mstep max_sessions g (hold sid (case out of Inr (seed, n, True) \<Rightarrow> Some (Starting start seed n) | _ \<Rightarrow> None)
      (set_registry r g))"
| swap: "mg_holder g sid = Some (Starting start seed n) \<Longrightarrow>
    reload_swap sid start cand (start_replacement (env :: unit reload_env) cand seed n) n (mg_registry g) = (result, r) \<Longrightarrow>
    mstep max_sessions g (hold sid None (set_registry r g))"
| give_up: "mg_holder g sid = Some (Reloading start) \<or> mg_holder g sid = Some (Starting start seed n) \<Longrightarrow>
    mstep max_sessions g (hold sid None g)"
| reject: "mstep max_sessions g (set_registry (reject_new_sessions (mg_registry g)) g)"
| abort_task: "\<not> rg_accepting_sessions (mg_registry g) \<Longrightarrow> mstep max_sessions g (hold sid None g)"
| abort_create: "\<not> rg_accepting_sessions (mg_registry g) \<Longrightarrow>
    mstep max_sessions g (g\<lparr>mg_creating := mg_creating g - {sid}\<rparr>)"
| closing: "mg_shutdown g = None \<Longrightarrow>
    mstep max_sessions g (g\<lparr>mg_registry := shutdown_begin (mg_registry g),
      mg_shutdown := Some (dom (rg_sessions (mg_registry g)), 0)\<rparr>)"
| close_one: "mg_shutdown g = Some (ids, n) \<Longrightarrow> sid \<in> ids \<Longrightarrow> mg_holder g sid = None \<Longrightarrow>
    shutdown_mark sid (mg_registry g) = (taken, r) \<Longrightarrow>
    mstep max_sessions g (g\<lparr>mg_registry := r,
      mg_shutdown := Some (ids - {sid}, n + (if taken = None then 0 else 1))\<rparr>)"
| closed: "mg_shutdown g = Some ({}, n) \<Longrightarrow>
    mstep max_sessions g (g\<lparr>mg_registry := shutdown_clear (mg_registry g), mg_shutdown := None,
      mg_pending := mg_pending g + n\<rparr>)"

definition reachable :: "nat \<Rightarrow> manager \<Rightarrow> bool" where
  "reachable max_sessions g \<longleftrightarrow> (mstep max_sessions)\<^sup>*\<^sup>* manager_new g"

lemma reachable_initial: "reachable max_sessions manager_new"
  by (simp add: reachable_def)

lemma reachable_step: "reachable max_sessions g \<Longrightarrow> mstep max_sessions g g' \<Longrightarrow> reachable max_sessions g'"
  unfolding reachable_def by (rule rtranclp.rtrancl_into_rtrancl)

subsection \<open>The effect of a section on the registry\<close>

text \<open>\<open>touches\<close>: a section left the registry alone, or updated the one session whose lock it holds.\<close>

definition touches :: "string \<Rightarrow> session_registry \<Rightarrow> session_registry \<Rightarrow> bool" where
  "touches sid r r' \<longleftrightarrow> r' = r \<or> (\<exists>s. r' = update_session sid s r)"

lemma touches_inspect: "reload_inspect is_finished sid r = (out, r') \<Longrightarrow> touches sid r r'"
  by (auto simp: touches_def reload_inspect_def Let_def split: option.splits if_splits)

lemma touches_in_place: "reload_in_place env sid start cand r = (result, r') \<Longrightarrow> touches sid r r'"
  by (auto simp: touches_def reload_in_place_def split: option.splits if_splits prod.splits bool.splits)

lemma touches_listener: "reload_listener is_finished sid start r = (out, r') \<Longrightarrow> touches sid r r'"
  by (auto simp: touches_def reload_listener_def Let_def split: option.splits if_splits)

lemma touches_swap: "reload_swap sid start cand rt n r = (result, r') \<Longrightarrow> touches sid r r'"
  by (auto simp: touches_def reload_swap_def Let_def split: option.splits if_splits)

lemma touches_mark:
  "stop_mark sid r = (m, r') \<or> remove_mark sid r = (m, r') \<or> runtime_exit_mark sid n r = (m, r') \<Longrightarrow> touches sid r r'"
  by (auto simp: touches_def stop_mark_def remove_mark_def runtime_exit_mark_def Let_def
      split: option.splits if_splits prod.splits)

lemma touches_shutdown_mark: "shutdown_mark sid r = (taken, r') \<Longrightarrow> touches sid r r'"
  by (auto simp: touches_def shutdown_mark_def split: option.splits prod.splits)

lemma touches_marks:
  "stop_mark sid r = (m, r') \<Longrightarrow> touches sid r r'" "remove_mark sid r = (m, r') \<Longrightarrow> touches sid r r'"
  "runtime_exit_mark sid n r = (m, r') \<Longrightarrow> touches sid r r'"
  using touches_mark by blast+

lemmas touches_intros = touches_inspect touches_in_place touches_listener touches_swap touches_marks touches_shutdown_mark

lemma touches_interference: "touches sid r r' \<Longrightarrow> sid' \<noteq> sid \<Longrightarrow> interference sid' r r'"
  by (auto simp: touches_def interference_refl interference_update)

lemma touches_inv:
  assumes "touches sid r r'" "registry_inv max_sessions r" "rg_sessions r' sid = Some t" "session_ok sid t"
    "rg_sessions r sid \<noteq> None"
  shows "registry_inv max_sessions r'" "dom (rg_sessions r') = dom (rg_sessions r)"
    "rg_provisioning r' = rg_provisioning r" "rg_accepting_sessions r' = rg_accepting_sessions r"
    "sid' \<noteq> sid \<Longrightarrow> rg_sessions r' sid' = rg_sessions r sid'"
proof -
  have "r' = r \<or> r' = update_session sid t r" using assms(1,3) by (auto simp: touches_def)
  then show "registry_inv max_sessions r'" "dom (rg_sessions r') = dom (rg_sessions r)"
    "rg_provisioning r' = rg_provisioning r" "rg_accepting_sessions r' = rg_accepting_sessions r"
    "sid' \<noteq> sid \<Longrightarrow> rg_sessions r' sid' = rg_sessions r sid'"
    using update_session_inv [OF assms(2,5,4)] assms(2) by auto
qed

subsection \<open>Invariant\<close>

text \<open>What the holder of a lock may rely on.\<close>

fun holder_ok :: "holder \<Rightarrow> managed_session \<Rightarrow> bool" where
  "holder_ok Removing s \<longleftrightarrow> si_state (ms_info s) = Stopping"
| "holder_ok (Reloading start) s \<longleftrightarrow> rs_socket start = si_socket (ms_info s) \<and> si_state (ms_info s) = Running"
| "holder_ok (Starting start seed n) s \<longleftrightarrow> rs_socket start = si_socket (ms_info s) \<and> si_state (ms_info s) = Running \<and>
     (\<exists>old. ms_runtime s = Some old \<and> seed = rt_seed old) \<and> ms_listener_generation s < n \<and>
     length (ms_retired_runtimes s) < MAX_RETIRED_LISTENERS"

lemma holder_ok_pruned: "pruned s t \<Longrightarrow> holder_ok h s \<Longrightarrow> holder_ok h t"
  using pruned_simps [of s t] by (cases h) auto

definition held :: "session_registry \<Rightarrow> string \<Rightarrow> holder \<Rightarrow> bool" where
  "held r sid h \<longleftrightarrow> (\<exists>s. rg_sessions r sid = Some s \<and> holder_ok h s)"

lemma held_interference: "interference sid r r' \<Longrightarrow> held r sid h \<Longrightarrow> held r' sid h"
  unfolding held_def using interference_Some holder_ok_pruned by blast

definition stopping :: "session_registry \<Rightarrow> string \<Rightarrow> bool" where
  "stopping r sid \<longleftrightarrow> (\<exists>s. rg_sessions r sid = Some s \<and> si_state (ms_info s) = Stopping)"

definition manager_inv :: "nat \<Rightarrow> manager \<Rightarrow> bool" where
  "manager_inv max_sessions g \<longleftrightarrow> registry_inv max_sessions (mg_registry g) \<and>
     mg_active g = word_of_nat (card (dom (rg_sessions (mg_registry g))) + mg_pending g) \<and>
     (rg_accepting_sessions (mg_registry g) \<longrightarrow> mg_creating g = rg_provisioning (mg_registry g) \<and> mg_shutdown g = None) \<and>
     (\<forall>sid h. mg_holder g sid = Some h \<longrightarrow> held (mg_registry g) sid h) \<and>
     (\<forall>sid. rg_accepting_sessions (mg_registry g) \<and> stopping (mg_registry g) sid \<longrightarrow> mg_holder g sid = Some Removing) \<and>
     (\<forall>ids n. mg_shutdown g = Some (ids, n) \<longrightarrow> dom (mg_holder g) \<subseteq> ids \<and>
        n = card (dom (rg_sessions (mg_registry g)) - ids) \<and>
        (\<forall>sid \<in> dom (rg_sessions (mg_registry g)) - ids. stopping (mg_registry g) sid))"

lemma inv_dom_holder:
  assumes "manager_inv max_sessions g"
  shows "dom (mg_holder g) \<subseteq> dom (rg_sessions (mg_registry g))"
proof
  fix sid
  assume "sid \<in> dom (mg_holder g)"
  then obtain h where "mg_holder g sid = Some h" by blast
  with assms have "held (mg_registry g) sid h" by (simp add: manager_inv_def)
  then show "sid \<in> dom (rg_sessions (mg_registry g))" by (auto simp: held_def)
qed

lemma manager_inv_new: "manager_inv max_sessions manager_new"
  by (simp add: manager_inv_def manager_new_def registry_inv_def registry_new_def stopping_def)

text \<open>
  A step that keeps the set of sessions, the reservations and the pending updates is judged by
  what it does to one lock and, for the other sessions, by interference.
\<close>

lemma stopping_interference:
  assumes "interference sid r r'" "stopping r' sid"
  shows "stopping r sid"
proof -
  from assms(2) obtain t where t: "rg_sessions r' sid = Some t" "si_state (ms_info t) = Stopping"
    by (auto simp: stopping_def)
  with assms(1) obtain s where "rg_sessions r sid = Some s" "pruned s t"
    by (auto simp: interference_def rel_option_iff split: option.splits)
  with t pruned_simps(9) show ?thesis by (auto simp: stopping_def)
qed

lemma stopping_kept:
  assumes "interference sid r r'" "stopping r sid"
  shows "stopping r' sid"
proof -
  from assms(2) obtain s where s: "rg_sessions r sid = Some s" "si_state (ms_info s) = Stopping"
    by (auto simp: stopping_def)
  with interference_Some [OF assms(1) s(1)] pruned_simps(9) show ?thesis by (auto simp: stopping_def)
qed

lemma inv_interference:
  assumes inv: "manager_inv max_sessions g" and r: "registry_inv max_sessions r"
    "dom (rg_sessions r) = dom (rg_sessions (mg_registry g))"
    and i: "\<And>sid. interference sid (mg_registry g) r"
    and c: "rg_accepting_sessions r \<Longrightarrow> c = rg_provisioning r"
  shows "manager_inv max_sessions (g\<lparr>mg_registry := r, mg_creating := c\<rparr>)"
proof -
  have a: "rg_accepting_sessions r \<Longrightarrow> rg_accepting_sessions (mg_registry g)" using i by (auto simp: interference_def)
  show ?thesis
    using inv r(1) c a held_interference [OF i] stopping_interference [OF i] stopping_kept [OF i]
    unfolding manager_inv_def by (simp add: r(2))
qed

text \<open>The same for a step of the holder of a lock, or of a task that takes it.\<close>

lemma inv_touches:
  assumes inv: "manager_inv max_sessions g" and t: "touches sid (mg_registry g) r"
    and s: "rg_sessions r sid = Some t" "session_ok sid t" "rg_sessions (mg_registry g) sid \<noteq> None"
    and h: "\<And>x. h = Some x \<Longrightarrow> holder_ok x t"
    and stop: "rg_accepting_sessions r \<Longrightarrow> si_state (ms_info t) = Stopping \<Longrightarrow> h = Some Removing"
    and ids: "\<And>ids n. mg_shutdown g = Some (ids, n) \<Longrightarrow> sid \<in> ids \<or> h = None \<and> si_state (ms_info t) = Stopping"
  shows "manager_inv max_sessions (hold sid h (set_registry r g))"
proof -
  have "registry_inv max_sessions (mg_registry g)" using inv by (simp add: manager_inv_def)
  note ti = touches_inv [OF t this s]
  have i: "interference sid' (mg_registry g) r" if "sid' \<noteq> sid" for sid'
    using touches_interference [OF t that] .
  have held: "held r sid' x" if "((mg_holder g)(sid := h)) sid' = Some x" for sid' x
  proof (cases "sid' = sid")
    case True
    then show ?thesis using that h s(1) by (simp add: held_def)
  next
    case False
    then show ?thesis using that inv held_interference [OF i [OF False]] by (simp add: manager_inv_def)
  qed
  have st: "((mg_holder g)(sid := h)) sid' = Some Removing" if "rg_accepting_sessions r" "stopping r sid'" for sid'
  proof (cases "sid' = sid")
    case True
    then show ?thesis using that stop s(1) by (auto simp: stopping_def)
  next
    case False
    then show ?thesis using that inv stopping_interference [OF i [OF False]] ti(4) by (auto simp: manager_inv_def)
  qed
  have sh: "dom ((mg_holder g)(sid := h)) \<subseteq> ids \<and> n = card (dom (rg_sessions r) - ids) \<and>
      (\<forall>sid' \<in> dom (rg_sessions r) - ids. stopping r sid')" if "mg_shutdown g = Some (ids, n)" for ids n
  proof -
    have old: "dom (mg_holder g) \<subseteq> ids" "n = card (dom (rg_sessions r) - ids)"
      "\<forall>sid' \<in> dom (rg_sessions r) - ids. stopping (mg_registry g) sid'"
      using inv that by (simp_all add: manager_inv_def ti(2))
    have "stopping r sid'" if "sid' \<in> dom (rg_sessions r) - ids" for sid'
    proof (cases "sid' = sid")
      case True
      then show ?thesis using that ids \<open>mg_shutdown g = Some (ids, n)\<close> s(1) by (auto simp: stopping_def)
    next
      case False
      then show ?thesis using that old(3) stopping_kept [OF i [OF False]] by blast
    qed
    moreover have "dom ((mg_holder g)(sid := h)) \<subseteq> ids"
      using old(1) ids [OF that] by (auto split: if_splits)
    ultimately show ?thesis using old(2) by blast
  qed
  show ?thesis
    using inv ti held st sh unfolding manager_inv_def by simp
qed

lemma taken_mark:
  assumes "stop_mark sid r = (Taken rts, r') \<or> remove_mark sid r = (Taken rts, r') \<or>
      runtime_exit_mark sid n r = (Taken rts, r')" "registry_inv max_sessions r"
  shows "\<exists>s. rg_sessions r sid = Some s \<and> si_state (ms_info s) = Running \<and>
    rg_sessions r' sid = Some (snd (take_runtimes s))"
proof -
  from assms(1) obtain s where s: "rg_sessions r sid = Some s"
    by (cases "rg_sessions r sid") (auto simp: stop_mark_def remove_mark_def runtime_exit_mark_def)
  then have ok: "session_ok sid s" using assms(2) by (simp add: registry_inv_def)
  have "rg_sessions r' sid = Some (snd (take_runtimes s))"
    using assms(1) s
    by (auto simp: stop_mark_def remove_mark_def runtime_exit_mark_def Let_def split: if_splits prod.splits)
  moreover have "si_state (ms_info s) = Running"
    using assms(1) s ok
    by (cases "si_state (ms_info s)")
      (auto simp: stop_mark_def remove_mark_def runtime_exit_mark_def Let_def session_ok_def
        split: if_splits prod.splits)
  ultimately show ?thesis using s by blast
qed

lemma retained_mark:
  assumes "runtime_exit_mark sid n r = (Retained, r')"
  shows "\<exists>s t. rg_sessions r sid = Some s \<and> rg_sessions r' sid = Some t \<and> pruned s t"
  using assms
  by (auto simp: runtime_exit_mark_def Let_def split: option.splits if_splits prod.splits intro: pruned_filter)

lemma take_runtimes_state: "si_state (ms_info (snd (take_runtimes s))) = Stopping"
  by (simp add: take_runtimes_def)

text \<open>A running session is still to be visited by a shutdown in progress.\<close>

lemma running_in_ids:
  assumes "manager_inv max_sessions g" "mg_shutdown g = Some (ids, n)" "rg_sessions (mg_registry g) sid = Some s"
    "si_state (ms_info s) = Running"
  shows "sid \<in> ids"
  using assms by (force simp: manager_inv_def stopping_def)

lemma inv_ok:
  assumes "manager_inv max_sessions g" "rg_sessions (mg_registry g) sid = Some s"
  shows "session_ok sid s"
  using assms by (simp add: manager_inv_def registry_inv_def)

lemma inv_held:
  assumes "manager_inv max_sessions g" "mg_holder g sid = Some h"
  shows "\<exists>s. rg_sessions (mg_registry g) sid = Some s \<and> session_ok sid s \<and> holder_ok h s"
  using assms inv_ok [OF assms(1)] by (fastforce simp: manager_inv_def held_def)

lemma step_mark:
  assumes inv: "manager_inv max_sessions g" and m: "stop_mark sid (mg_registry g) = (Taken rts, r) \<or>
      remove_mark sid (mg_registry g) = (Taken rts, r) \<or> runtime_exit_mark sid n (mg_registry g) = (Taken rts, r)"
  shows "manager_inv max_sessions (hold sid (Some Removing) (set_registry r g))"
proof -
  have ri: "registry_inv max_sessions (mg_registry g)" using inv by (simp add: manager_inv_def)
  from taken_mark [OF m ri] obtain s where s: "rg_sessions (mg_registry g) sid = Some s"
    "si_state (ms_info s) = Running" "rg_sessions r sid = Some (snd (take_runtimes s))" by blast
  show ?thesis
    using inv_touches [OF inv touches_mark s(3) take_runtimes_ok [OF inv_ok [OF inv s(1)]], of "Taken rts" n "Some Removing"]
      m s running_in_ids [OF inv] take_runtimes_state [of s] by auto
qed

lemma step_finish:
  assumes inv: "manager_inv max_sessions g" and h: "mg_holder g sid = Some Removing"
    and rm: "remove_session sid (mg_registry g) = (present, r)"
  shows "manager_inv max_sessions
    (hold sid None (g\<lparr>mg_registry := r, mg_pending := mg_pending g + (if present then 1 else 0)\<rparr>))"
proof -
  have ri: "registry_inv max_sessions (mg_registry g)" using inv by (simp add: manager_inv_def)
  note c = remove_session_inv [OF rm ri]
  have r: "r = snd (remove_session sid (mg_registry g))" using rm by simp
  have i: "interference sid' (mg_registry g) r" if "sid' \<noteq> sid" for sid'
    using interference_remove [OF that [symmetric], of "mg_registry g"] r by simp
  have d: "dom (rg_sessions r) = dom (rg_sessions (mg_registry g)) - {sid}"
    using rm by (auto simp: remove_session_def split: if_splits)
  have n: "rg_sessions r sid = None" using rm by (auto simp: remove_session_def)
  have gauge: "mg_active g = word_of_nat (card (dom (rg_sessions r)) + (mg_pending g + (if present then 1 else 0)))"
  proof -
    have "card (dom (rg_sessions r)) + (mg_pending g + (if present then 1 else 0)) =
        card (dom (rg_sessions (mg_registry g))) + mg_pending g" using c(2) by simp
    then show ?thesis using inv unfolding manager_inv_def by metis
  qed
  have held: "held r sid' x" if "((mg_holder g)(sid := None)) sid' = Some x" for sid' x
  proof -
    have ne: "sid' \<noteq> sid" using that by (auto split: if_splits)
    then show ?thesis using that inv held_interference [OF i [OF ne]] by (simp add: manager_inv_def)
  qed
  have st: "((mg_holder g)(sid := None)) sid' = Some Removing" if "rg_accepting_sessions r" "stopping r sid'" for sid'
  proof -
    have ne: "sid' \<noteq> sid" using that(2) n by (auto simp: stopping_def)
    then show ?thesis using that inv stopping_interference [OF i [OF ne] that(2)] c(4) by (simp add: manager_inv_def)
  qed
  have sh: "dom ((mg_holder g)(sid := None)) \<subseteq> ids \<and> n = card (dom (rg_sessions r) - ids) \<and>
      (\<forall>sid' \<in> dom (rg_sessions r) - ids. stopping r sid')" if "mg_shutdown g = Some (ids, n)" for ids n
  proof -
    have old: "dom (mg_holder g) \<subseteq> ids" "n = card (dom (rg_sessions (mg_registry g)) - ids)"
      "\<forall>sid' \<in> dom (rg_sessions (mg_registry g)) - ids. stopping (mg_registry g) sid'"
      using inv that by (simp_all add: manager_inv_def)
    have "sid \<in> ids" using old(1) h by auto
    then have e: "dom (rg_sessions r) - ids = dom (rg_sessions (mg_registry g)) - ids" using d by auto
    have "stopping r sid'" if "sid' \<in> dom (rg_sessions (mg_registry g)) - ids" for sid'
    proof -
      have ne: "sid' \<noteq> sid" using that \<open>sid \<in> ids\<close> by auto
      show ?thesis using stopping_kept [OF i [OF ne]] old(3) that by blast
    qed
    then show ?thesis using old e by auto
  qed
  show ?thesis
    using inv c gauge held st sh unfolding manager_inv_def by simp
qed

lemma step_inspect:
  assumes inv: "manager_inv max_sessions g" and h: "mg_holder g sid = None"
    and s: "rg_sessions (mg_registry g) sid = Some s"
    and i: "reload_inspect is_finished sid (mg_registry g) = (out, r)"
  shows "manager_inv max_sessions
    (hold sid (case out of Inl _ \<Rightarrow> None | Inr start \<Rightarrow> Some (Reloading start)) (set_registry r g))"
proof -
  note ok = inv_ok [OF inv s]
  from inspect_outcome [OF s ok i] obtain t where t: "rg_sessions r sid = Some t" "pruned s t"
    and out: "\<And>start. out = Inr start \<Longrightarrow> rs_socket start = si_socket (ms_info s)"
    by (cases out) auto
  have run: "si_state (ms_info s) = Running" if "out = Inr start" for start
    using i s that by (auto simp: reload_inspect_def prune_retired_def Let_def split: if_splits option.splits)
  note ps = pruned_simps [OF t(2)]
  have stop: "\<not> rg_accepting_sessions r" if "si_state (ms_info t) = Stopping"
  proof
    assume "rg_accepting_sessions r"
    then have "rg_accepting_sessions (mg_registry g)"
      using touches_inspect [OF i] by (auto simp: touches_def)
    then show False using inv h s that ps(9) by (auto simp: manager_inv_def stopping_def)
  qed
  show ?thesis
  proof (rule inv_touches [OF inv touches_inspect [OF i] t(1) pruned_ok [OF ok t(2)]])
    show "rg_sessions (mg_registry g) sid \<noteq> None" using s by simp
    show "holder_ok x t" if "(case out of Inl _ \<Rightarrow> None | Inr start \<Rightarrow> Some (Reloading start)) = Some x" for x
      using that out run ps by (auto split: sum.splits)
    show "(case out of Inl _ \<Rightarrow> None | Inr start \<Rightarrow> Some (Reloading start)) = Some Removing"
      if "rg_accepting_sessions r" "si_state (ms_info t) = Stopping" using stop that by blast
    show "sid \<in> ids \<or> (case out of Inl _ \<Rightarrow> None | Inr start \<Rightarrow> Some (Reloading start)) = None \<and> si_state (ms_info t) = Stopping"
      if "mg_shutdown g = Some (ids, n)" for ids n
      using running_in_ids [OF inv that s] run ps(9)
      by (cases "si_state (ms_info s)") (auto split: sum.splits)
  qed
qed

lemma same_info_state:
  "(a :: session_info)\<lparr>si_draining_generations := n\<rparr> = b\<lparr>si_draining_generations := n\<rparr> \<Longrightarrow> si_state a = si_state b"
  by (cases a; cases b) simp

lemma kept_state: "kept sid s result r \<Longrightarrow>
  \<exists>t. rg_sessions r sid = Some t \<and> session_ok sid t \<and> si_state (ms_info t) = si_state (ms_info s)"
  unfolding kept_def undisturbed_def using same_info_state by blast

text \<open>A reload's last section, or its end without one.\<close>

lemma step_reload_end:
  assumes inv: "manager_inv max_sessions g" and h: "mg_holder g sid = Some x" and x: "x \<noteq> Removing"
    and t: "touches sid (mg_registry g) r"
    and out: "\<exists>t. rg_sessions r sid = Some t \<and> session_ok sid t \<and> si_state (ms_info t) = Running"
  shows "manager_inv max_sessions (hold sid None (set_registry r g))"
proof -
  from inv_held [OF inv h] obtain s where s: "rg_sessions (mg_registry g) sid = Some s" "holder_ok x s" by blast
  from out obtain u where u: "rg_sessions r sid = Some u" "session_ok sid u" "si_state (ms_info u) = Running" by blast
  have "sid \<in> ids" if "mg_shutdown g = Some (ids, n)" for ids n
    using inv h that by (auto simp: manager_inv_def)
  then show ?thesis using inv_touches [OF inv t u(1,2), of None] s(1) u(3) by auto
qed

lemma changed_state: "changed env cand sid s result r \<Longrightarrow>
  \<exists>t. rg_sessions r sid = Some t \<and> session_ok sid t \<and> si_state (ms_info t) = Running"
  unfolding changed_def switched_def session_ok_def by auto

lemma step_in_place:
  assumes inv: "manager_inv max_sessions g" and h: "mg_holder g sid = Some (Reloading start)"
    and p: "reload_in_place env sid start cand (mg_registry g) = (result, r)"
  shows "manager_inv max_sessions (hold sid None (set_registry r g))"
proof -
  from inv_held [OF inv h] obtain s where s: "rg_sessions (mg_registry g) sid = Some s" "session_ok sid s"
    "rs_socket start = si_socket (ms_info s)" "si_state (ms_info s) = Running" by auto
  have "\<exists>t. rg_sessions r sid = Some t \<and> session_ok sid t \<and> si_state (ms_info t) = Running"
    using in_place_outcome [OF s(1-3) p] kept_state [of sid s result r] changed_state s(4) by auto
  then show ?thesis using step_reload_end [OF inv h _ touches_in_place [OF p]] by simp
qed

lemma step_swap:
  assumes inv: "manager_inv max_sessions g" and h: "mg_holder g sid = Some (Starting start seed n)"
    and p: "reload_swap sid start cand (start_replacement env cand seed n) n (mg_registry g) = (result, r)"
  shows "manager_inv max_sessions (hold sid None (set_registry r g))"
proof -
  from inv_held [OF inv h] obtain s old where s: "rg_sessions (mg_registry g) sid = Some s" "session_ok sid s"
    "rs_socket start = si_socket (ms_info s)" "si_state (ms_info s) = Running" "ms_runtime s = Some old"
    "seed = rt_seed old" "ms_listener_generation s < n" "length (ms_retired_runtimes s) < MAX_RETIRED_LISTENERS" by auto
  have "\<exists>t. rg_sessions r sid = Some t \<and> session_ok sid t \<and> si_state (ms_info t) = Running"
    using swap_outcome [OF s(1-3,5,7,8) p [unfolded s(6)]] kept_state [of sid s result r] changed_state s(4) by auto
  then show ?thesis using step_reload_end [OF inv h _ touches_swap [OF p]] by simp
qed

lemma step_listener:
  assumes inv: "manager_inv max_sessions g" and h: "mg_holder g sid = Some (Reloading start)"
    and p: "reload_listener is_finished sid start (mg_registry g) = (out, r)"
  shows "manager_inv max_sessions
    (hold sid (case out of Inr (seed, n, True) \<Rightarrow> Some (Starting start seed n) | _ \<Rightarrow> None) (set_registry r g))"
proof -
  from inv_held [OF inv h] obtain s where s: "rg_sessions (mg_registry g) sid = Some s" "session_ok sid s"
    "rs_socket start = si_socket (ms_info s)" "si_state (ms_info s) = Running" by auto
  from listener_outcome [OF s(1-3) p] obtain t where t: "rg_sessions r sid = Some t" "pruned s t"
    and out: "\<And>seed n. out = Inr (seed, n, True) \<Longrightarrow> (\<exists>old. ms_runtime t = Some old \<and> seed = rt_seed old) \<and>
      ms_listener_generation t < n \<and> length (ms_retired_runtimes t) < MAX_RETIRED_LISTENERS"
    by (cases out) auto
  note ps = pruned_simps [OF t(2)]
  show ?thesis
  proof (rule inv_touches [OF inv touches_listener [OF p] t(1) pruned_ok [OF s(2) t(2)]])
    show "rg_sessions (mg_registry g) sid \<noteq> None" using s by simp
    show "holder_ok x t" if "(case out of Inr (seed, n, True) \<Rightarrow> Some (Starting start seed n) | _ \<Rightarrow> None) = Some x" for x
      using that out ps s(3,4) by (auto split: sum.splits bool.splits prod.splits)
    show "(case out of Inr (seed, n, True) \<Rightarrow> Some (Starting start seed n) | _ \<Rightarrow> None) = Some Removing"
      if "rg_accepting_sessions r" "si_state (ms_info t) = Stopping" using that s(4) ps(9) by simp
    show "sid \<in> ids \<or> (case out of Inr (seed, n, True) \<Rightarrow> Some (Starting start seed n) | _ \<Rightarrow> None) = None \<and>
        si_state (ms_info t) = Stopping" if "mg_shutdown g = Some (ids, n)" for ids n
      using running_in_ids [OF inv that s(1,4)] by simp
  qed
qed

lemma step_commit:
  assumes inv: "manager_inv max_sessions g" and sid: "sid \<in> mg_creating g"
    and c: "create_commit sid session secrets source (runtime_start hmac b64url session secrets seed socket 1)
      (mg_registry g) = (Inr info, r)"
  shows "manager_inv max_sessions
    (g\<lparr>mg_registry := r, mg_creating := mg_creating g - {sid}, mg_active := mg_active g + 1\<rparr>)"
proof -
  let ?rt = "runtime_start hmac b64url session secrets seed socket 1"
  have acc: "rg_accepting_sessions (mg_registry g)" using c by (simp add: create_commit_Inr)
  have ri: "registry_inv max_sessions (mg_registry g)" and p: "sid \<in> rg_provisioning (mg_registry g)"
    and cr: "mg_creating g = rg_provisioning (mg_registry g)" and sh: "mg_shutdown g = None"
    using inv sid acc by (simp_all add: manager_inv_def)
  have rt: "rt_listener_generation ?rt = 1" "\<not> rt_retired ?rt" by (simp_all add: runtime_start_def)
  note ci = create_commit_inv [OF c ri p rt]
  have new: "sid \<notin> dom (rg_sessions (mg_registry g))" using ri p by (auto simp: registry_inv_def)
  have i: "interference sid' (mg_registry g) r" if "sid' \<noteq> sid" for sid'
    using interference_commit [OF that [symmetric] c] .
  have free: "mg_holder g sid = None" using inv_dom_holder [OF inv] new by blast
  have held: "held r sid' x" if "mg_holder g sid' = Some x" for sid' x
  proof -
    have ne: "sid' \<noteq> sid" using that free by auto
    show ?thesis using that inv held_interference [OF i [OF ne]] by (simp add: manager_inv_def)
  qed
  have st: "mg_holder g sid' = Some Removing" if "stopping r sid'" for sid'
  proof -
    have "sid' \<noteq> sid" using that c by (auto simp: stopping_def create_commit_Inr committed_def)
    then show ?thesis using inv acc stopping_interference [OF i that] by (simp add: manager_inv_def)
  qed
  show ?thesis
    using inv ci cr sh held st unfolding manager_inv_def by simp
qed

lemma inv_hold_None:
  assumes inv: "manager_inv max_sessions g"
    and stop: "\<not> rg_accepting_sessions (mg_registry g) \<or> mg_holder g sid \<noteq> Some Removing"
  shows "manager_inv max_sessions (hold sid None g)"
proof -
  have "dom ((mg_holder g)(sid := None)) \<subseteq> dom (mg_holder g)" by auto
  then have sh: "dom ((mg_holder g)(sid := None)) \<subseteq> ids" if "mg_shutdown g = Some (ids, n)" for ids n
    using inv that by (auto simp: manager_inv_def)
  have st: "((mg_holder g)(sid := None)) sid' = Some Removing"
    if "rg_accepting_sessions (mg_registry g)" "stopping (mg_registry g) sid'" for sid'
  proof -
    have "mg_holder g sid' = Some Removing" using inv that by (simp add: manager_inv_def)
    then show ?thesis using stop that(1) by auto
  qed
  have "held (mg_registry g) sid' h" if "((mg_holder g)(sid := None)) sid' = Some h" for sid' h
    using inv that by (simp add: manager_inv_def split: if_splits)
  with sh st show ?thesis using inv unfolding manager_inv_def by simp
qed

lemma step_closing:
  assumes inv: "manager_inv max_sessions g" and none: "mg_shutdown g = None"
  shows "manager_inv max_sessions (g\<lparr>mg_registry := shutdown_begin (mg_registry g),
      mg_shutdown := Some (dom (rg_sessions (mg_registry g)), 0)\<rparr>)"
proof -
  note inv_dom_holder [OF inv]
  moreover have "held (shutdown_begin (mg_registry g)) sid h" if "mg_holder g sid = Some h" for sid h
    using inv that held_interference [OF interference_shutdown_begin] by (simp add: manager_inv_def)
  ultimately show ?thesis
    using inv by (auto simp: manager_inv_def shutdown_begin_def registry_inv_def)
qed

lemma step_close_one:
  assumes inv: "manager_inv max_sessions g" and sh: "mg_shutdown g = Some (ids, n)" and sid: "sid \<in> ids"
    and free: "mg_holder g sid = None" and m: "shutdown_mark sid (mg_registry g) = (taken, r)"
  shows "manager_inv max_sessions (g\<lparr>mg_registry := r,
      mg_shutdown := Some (ids - {sid}, n + (if taken = None then 0 else 1))\<rparr>)"
proof -
  have ri: "registry_inv max_sessions (mg_registry g)" and old: "dom (mg_holder g) \<subseteq> ids"
    "n = card (dom (rg_sessions (mg_registry g)) - ids)"
    "\<forall>sid' \<in> dom (rg_sessions (mg_registry g)) - ids. stopping (mg_registry g) sid'"
    "\<not> rg_accepting_sessions (mg_registry g)"
    using inv sh by (auto simp: manager_inv_def)
  then have hs: "dom (mg_holder g) \<subseteq> ids - {sid}" using free by auto
  show ?thesis
  proof (cases "rg_sessions (mg_registry g) sid")
    case None
    then have r: "r = mg_registry g" "taken = None" using m by (auto simp: shutdown_mark_def)
    have "dom (rg_sessions (mg_registry g)) - (ids - {sid}) = dom (rg_sessions (mg_registry g)) - ids"
      using None by auto
    then show ?thesis using inv hs old r unfolding manager_inv_def by simp
  next
    case (Some s)
    let ?t = "snd (take_runtimes s)"
    have r: "r = update_session sid ?t (mg_registry g)" "taken \<noteq> None"
      using m Some by (auto simp: shutdown_mark_def split: prod.splits)
    have t: "touches sid (mg_registry g) r" using r(1) by (auto simp: touches_def)
    have s': "rg_sessions r sid = Some ?t" using r(1) by simp
    have ne: "rg_sessions (mg_registry g) sid \<noteq> None" using Some by simp
    note ti = touches_inv [OF t ri s' take_runtimes_ok [OF inv_ok [OF inv Some]] ne]
    have i: "interference sid' (mg_registry g) r" if "sid' \<noteq> sid" for sid'
      using touches_interference [OF t that] .
    have e: "dom (rg_sessions r) - (ids - {sid}) = insert sid (dom (rg_sessions (mg_registry g)) - ids)"
      using Some sid ti(2) by auto
    have fin: "finite (dom (rg_sessions (mg_registry g)))" using ri by (simp add: registry_inv_def)
    have card: "n + (if taken = None then 0 else 1) = card (dom (rg_sessions r) - (ids - {sid}))"
      using e old(2) fin sid r(2) by simp
    have held: "held r sid' x" if "mg_holder g sid' = Some x" for sid' x
    proof -
      have "sid' \<noteq> sid" using that free by auto
      then show ?thesis using that inv held_interference [OF i] by (simp add: manager_inv_def)
    qed
    have st: "stopping r sid'" if "sid' \<in> dom (rg_sessions r) - (ids - {sid})" for sid'
    proof (cases "sid' = sid")
      case True
      then show ?thesis using s' take_runtimes_state [of s] by (auto simp: stopping_def)
    next
      case False
      then have "sid' \<in> dom (rg_sessions (mg_registry g)) - ids" using that unfolding e by blast
      then show ?thesis using stopping_kept [OF i [OF False]] old(3) by blast
    qed
    show ?thesis
      using inv ti hs card held st old(4) unfolding manager_inv_def by simp
  qed
qed

lemma step_closed:
  assumes inv: "manager_inv max_sessions g" and sh: "mg_shutdown g = Some ({}, n)"
  shows "manager_inv max_sessions (g\<lparr>mg_registry := shutdown_clear (mg_registry g), mg_shutdown := None,
      mg_pending := mg_pending g + n\<rparr>)"
proof -
  have "n = card (dom (rg_sessions (mg_registry g)))" "mg_holder g = Map.empty" "\<not> rg_accepting_sessions (mg_registry g)"
    using inv sh by (auto simp: manager_inv_def)
  then show ?thesis using inv
    by (auto simp: manager_inv_def shutdown_clear_def registry_inv_def stopping_def add.commute)
qed

lemma step_drained:
  assumes inv: "manager_inv max_sessions g" and h: "mg_holder g sid = None"
    and m: "runtime_exit_mark sid n (mg_registry g) = (Retained, r)"
  shows "manager_inv max_sessions (set_registry r g)"
proof -
  from retained_mark [OF m] obtain s t where st: "rg_sessions (mg_registry g) sid = Some s" "rg_sessions r sid = Some t"
    "pruned s t" by blast
  have t: "touches sid (mg_registry g) r" using touches_mark m by blast
  have ri: "registry_inv max_sessions (mg_registry g)" using inv by (simp add: manager_inv_def)
  have ne: "rg_sessions (mg_registry g) sid \<noteq> None" using st(1) by simp
  note ti = touches_inv [OF t ri st(2) pruned_ok [OF inv_ok [OF inv st(1)] st(3)] ne]
  have i: "interference sid' (mg_registry g) r" for sid'
    using touches_interference [OF t, of sid'] ti(4) st by (cases "sid' = sid") (auto simp: interference_def)
  have "rg_accepting_sessions r \<Longrightarrow> mg_creating g = rg_provisioning r"
    using inv ti(3,4) by (simp add: manager_inv_def)
  from inv_interference [OF inv ti(1,2) i this] show ?thesis by simp
qed

lemma manager_inv_registry: "manager_inv max_sessions g \<Longrightarrow> registry_inv max_sessions (mg_registry g)"
  by (simp add: manager_inv_def)

lemma step_reserve:
  assumes "create_reserve max_sessions sid (mg_registry g) = Inr r" "manager_inv max_sessions g"
  shows "manager_inv max_sessions (g\<lparr>mg_registry := r, mg_creating := insert sid (mg_creating g)\<rparr>)"
proof -
  note c = create_reserve_inv [OF assms(1) manager_inv_registry [OF assms(2)]]
  show ?thesis
    using inv_interference [OF assms(2) c(1) _ interference_reserve [OF assms(1)]] c assms(2) by (simp add: manager_inv_def)
qed

lemma step_release:
  assumes "manager_inv max_sessions g"
  shows "manager_inv max_sessions (g\<lparr>mg_registry := create_release sid (mg_registry g), mg_creating := mg_creating g - {sid}\<rparr>)"
  using inv_interference [OF assms create_release_inv _ interference_release, where c = "mg_creating g - {sid}"]
    manager_inv_registry [OF assms] assms by (simp add: create_release_def manager_inv_def)

lemma step_refuse:
  assumes "create_commit sid session secrets source rt (mg_registry g) = (Inl e, r)" "manager_inv max_sessions g"
  shows "manager_inv max_sessions (g\<lparr>mg_registry := r, mg_creating := mg_creating g - {sid}\<rparr>)"
  using step_release [OF assms(2), of sid] create_commit_refused [OF assms(1)] by simp

lemma step_count_off:
  assumes "0 < mg_pending g" "manager_inv max_sessions g"
  shows "manager_inv max_sessions (g\<lparr>mg_pending := mg_pending g - 1, mg_active := mg_active g - 1\<rparr>)"
  using assms by (cases "mg_pending g") (simp_all add: manager_inv_def)

lemma step_list:
  assumes "list_sessions is_finished (mg_registry g) = (infos, r)" "manager_inv max_sessions g"
  shows "manager_inv max_sessions (set_registry r g)"
proof -
  note c = list_sessions_inv [OF assms(1) manager_inv_registry [OF assms(2)]]
  show ?thesis
    using inv_interference [OF assms(2) c(1,2) interference_list [OF assms(1)], of "mg_creating g"] c(3,4) assms(2)
    by (simp add: manager_inv_def)
qed

lemma step_reject:
  assumes "manager_inv max_sessions g"
  shows "manager_inv max_sessions (set_registry (reject_new_sessions (mg_registry g)) g)"
proof -
  have "registry_inv max_sessions (reject_new_sessions (mg_registry g))"
    using assms by (simp add: manager_inv_def registry_inv_def reject_new_sessions_def)
  then show ?thesis
    using inv_interference [OF assms _ _ interference_reject, of "mg_creating g"] by (simp add: reject_new_sessions_def)
qed

lemma step_abort_create:
  assumes "\<not> rg_accepting_sessions (mg_registry g)" "manager_inv max_sessions g"
  shows "manager_inv max_sessions (g\<lparr>mg_creating := mg_creating g - {sid}\<rparr>)"
  using assms by (simp add: manager_inv_def)

lemmas step_invs = step_reserve step_release step_commit step_refuse step_mark step_drained step_finish step_count_off
  step_list step_inspect step_in_place step_listener step_swap step_reject step_abort_create step_closing step_close_one
  step_closed

lemma manager_inv_step: "mstep max_sessions g g' \<Longrightarrow> manager_inv max_sessions g \<Longrightarrow> manager_inv max_sessions g'"
proof (induction rule: mstep.induct)
  case (give_up g sid start seed n)
  then show ?case using inv_hold_None [OF give_up(2), of sid] by auto
next
  case (abort_task g sid)
  then show ?case using inv_hold_None by blast
qed (blast intro: step_invs)+

interpretation sessions: invariant_system manager_new "mstep max_sessions" "manager_inv max_sessions" for max_sessions
  by unfold_locales (simp_all add: manager_inv_new manager_inv_step)

lemma reachable_inv: "reachable max_sessions g \<Longrightarrow> manager_inv max_sessions g"
  unfolding reachable_def by (rule sessions.inv_reachable)

subsection \<open>The lock of a session protects it\<close>

lemma step_interference:
  assumes "mstep max_sessions g g'" "manager_inv max_sessions g" "mg_holder g sid = Some h" "mg_holder g' sid = Some h"
  shows "interference sid (mg_registry g) (mg_registry g')"
  using assms
proof (induction rule: mstep.induct)
  case (commit sid' g session secrets source hmac b64url seed socket info r)
  have "rg_accepting_sessions (mg_registry g)" using commit(2) by (simp add: create_commit_Inr)
  with commit have "sid' \<notin> dom (rg_sessions (mg_registry g))" by (auto simp: manager_inv_def registry_inv_def)
  then have "sid' \<noteq> sid" using inv_dom_holder [OF commit(3)] commit(4) by blast
  then show ?case using interference_commit [OF _ commit(2)] by simp
next
  case (refuse sid' g session secrets source hmac b64url seed socket e r)
  then show ?case using create_commit_refused [OF refuse(2)] interference_release by simp
next
  case (drained g sid' n r)
  then have "sid \<noteq> sid'" by auto
  then show ?case using touches_interference [OF touches_marks(3) [OF drained(2)]] by simp
next
  case (finish g sid' present r)
  then have "sid' \<noteq> sid" by (auto split: if_splits)
  then show ?case using interference_remove [of sid' sid "mg_registry g"] finish(2) by simp
next
  case (list is_finished g infos r)
  then show ?case using interference_list [OF list(1)] by simp
next
  case (closed g n)
  then have "sid \<in> {}" by (auto simp: manager_inv_def)
  then show ?case by blast
qed (auto simp: interference_reserve interference_release interference_refl interference_reject
    interference_shutdown_begin intro!: touches_interference dest: touches_intros split: if_splits sum.splits bool.splits prod.splits)

subsection \<open>Properties\<close>

text \<open>
  C10. Whatever the interleaving of creations, stops, removals, exits, reloads, lists and the
  shutdown: sessions and reservations together never exceed the configured maximum, no identifier
  is both; the gauge of active sessions, once the updates under way are made, is the number of
  sessions in the registry; every session is stored under its own identifier, has a current
  listener exactly while it runs, which is the one the gate admits, and at most eight retired
  ones. While the daemon accepts sessions, every reservation belongs to a creation under way and
  every session that is stopping is held by a task that will remove it.
\<close>

theorem session_manager_safe:
  assumes "reachable max_sessions g"
  shows "card (dom (rg_sessions (mg_registry g))) + card (rg_provisioning (mg_registry g)) \<le> max_sessions \<and>
    dom (rg_sessions (mg_registry g)) \<inter> rg_provisioning (mg_registry g) = {} \<and>
    mg_active g = word_of_nat (card (dom (rg_sessions (mg_registry g))) + mg_pending g) \<and>
    (\<forall>sid s. rg_sessions (mg_registry g) sid = Some s \<longrightarrow> session_ok sid s) \<and>
    (rg_accepting_sessions (mg_registry g) \<longrightarrow> rg_provisioning (mg_registry g) = mg_creating g \<and>
      (\<forall>sid s. rg_sessions (mg_registry g) sid = Some s \<and> si_state (ms_info s) = Stopping \<longrightarrow>
        mg_holder g sid = Some Removing))"
  using reachable_inv [OF assms] unfolding manager_inv_def registry_inv_def stopping_def by blast

definition example_reserved :: manager where
  "example_reserved = manager_new\<lparr>mg_registry := registry_new\<lparr>rg_provisioning := {''a''}\<rparr>, mg_creating := {''a''}\<rparr>"

definition example_serving :: manager where
  "example_serving = manager_new\<lparr>mg_registry := registry_new\<lparr>rg_sessions := [''a'' \<mapsto> example_managed ''a'']\<rparr>, mg_active := 1\<rparr>"

lemma example_reserved_reachable: "reachable 2 example_reserved"
proof -
  have "create_reserve 2 ''a'' (mg_registry manager_new) = Inr (registry_new\<lparr>rg_provisioning := {''a''}\<rparr>)"
    by (simp add: create_reserve_def manager_new_def registry_new_def)
  from mstep.reserve [OF this] have "mstep 2 manager_new example_reserved"
    by (simp add: example_reserved_def) (simp add: manager_new_def)
  then show ?thesis using reachable_initial reachable_step by blast
qed

lemma example_serving_reachable: "reachable 2 example_serving"
proof -
  have c: "create_commit ''a'' example_session [(''api.token'', ''s3cret'')] (Some ''a.toml'') (example_runtime 1)
      (mg_registry example_reserved) = (Inr (ms_info (example_managed ''a'')),
      registry_new\<lparr>rg_sessions := [''a'' \<mapsto> example_managed ''a'']\<rparr>)"
    unfolding create_commit_Inr
    by (simp add: example_reserved_def registry_new_def example_managed_def)
  have "''a'' \<in> mg_creating example_reserved" by (simp add: example_reserved_def)
  from mstep.commit [OF this c [unfolded example_runtime_def]] have "mstep 2 example_reserved example_serving"
    by (simp add: example_serving_def example_reserved_def manager_new_def)
  then show ?thesis using example_reserved_reachable reachable_step by blast
qed

theorem session_manager_safe_witness:
  "reachable 2 example_serving \<and> mg_active example_serving = word_of_nat (card (dom (rg_sessions (mg_registry example_serving)))) \<and>
   session_ok ''a'' (example_managed ''a'')"
  using session_manager_safe [OF example_serving_reachable] example_serving_reachable
  by (simp add: example_serving_def manager_new_def)

text \<open>
  C18. While a task holds the lock of a session, every step of every other task is interference in
  the sense of the reload: that session can lose finished listeners and the registry can be
  closed, and nothing else happens to it.
\<close>

theorem lock_protects_session:
  assumes "reachable max_sessions g" "mstep max_sessions g g'"
    and "mg_holder g sid = Some h" "mg_holder g' sid = Some h"
  shows "interference sid (mg_registry g) (mg_registry g')"
  using step_interference [OF assms(2) reachable_inv [OF assms(1)] assms(3,4)] .

definition example_start :: reload_start where
  "example_start = \<lparr>rs_source = ''a.toml'', rs_secrets = [(''api.token'', ''s3cret'')],
     rs_socket = ''/run/baffle/a.sock'', rs_keep = True\<rparr>"

definition example_reloading :: manager where
  "example_reloading = example_serving\<lparr>mg_holder := [''a'' \<mapsto> Reloading example_start]\<rparr>"

lemma example_reloading_reachable: "reachable 2 example_reloading"
proof -
  have h: "mg_holder example_serving ''a'' = None" by (simp add: example_serving_def manager_new_def)
  have s: "rg_sessions (mg_registry example_serving) ''a'' = Some (example_managed ''a'')"
    by (simp add: example_serving_def)
  have i: "reload_inspect (\<lambda>_. True) ''a'' (mg_registry example_serving) =
      (Inr example_start, mg_registry example_serving)"
    by (simp add: reload_inspect_def Let_def s prune_retired_def)
      (simp add: example_serving_def example_managed_def committed_def example_runtime_def runtime_start_def
        registry_new_def update_session_def example_session_def example_start_def)
  from mstep.inspect [OF h _ i, of 2] s have "mstep 2 example_serving example_reloading"
    by (simp add: example_reloading_def) (simp add: example_serving_def manager_new_def)
  then show ?thesis using example_serving_reachable reachable_step by blast
qed

theorem lock_protects_session_witness:
  "interference ''a'' (mg_registry example_reloading) (reject_new_sessions (mg_registry example_reloading))"
  using lock_protects_session [OF example_reloading_reachable mstep.reject, of "''a''" "Reloading example_start"]
  by (simp add: example_reloading_def)

end
