(* ===== verification/Header_Credentials.thy ===== *)
theory Header_Credentials
  imports Request_Policy
begin

text \<open>
  Decrypted HTTP requests: \<open>src/proxy_runtime/rama/http.rs\<close>. \<open>serve\<close> is the policy layer in
  front of the upstream connection, \<open>apply_header_credentials\<close> puts daemon-managed secrets into
  request headers, \<open>substitute_header_secret\<close> exchanges a session's fake credential for the real
  one.

  The HTTP library (rama: header map, header names and values) and the Base64 engine are not
  part of the repository. They are the record \<open>http_lib\<close>, and what the code relies on is
  \<open>http_lib_laws\<close>: inserting a header replaces its values and leaves the others, names are
  compared in lower case, and Base64 decoding undoes encoding.
\<close>

subsection \<open>Library\<close>

record 'h http_lib =
  header_name :: "string \<Rightarrow> string option"
  header_value :: "string \<Rightarrow> string option"
  to_str :: "string \<Rightarrow> string option"
  get_all :: "'h \<Rightarrow> string \<Rightarrow> string list"
  remove_header :: "'h \<Rightarrow> string \<Rightarrow> 'h"
  insert_header :: "'h \<Rightarrow> string \<Rightarrow> string \<Rightarrow> 'h"
  b64_encode :: "string \<Rightarrow> string"
  b64_decode :: "string \<Rightarrow> string option"

definition http_lib_laws :: "'h http_lib \<Rightarrow> bool" where
  "http_lib_laws lib \<longleftrightarrow>
     (\<forall>s n. header_name lib s = Some n \<longrightarrow> n = to_ascii_lowercase s) \<and>
     (\<forall>s v. header_value lib s = Some v \<longrightarrow> to_str lib v = None \<or> to_str lib v = Some s) \<and>
     (\<forall>h n m. get_all lib (remove_header lib h n) m = (if m = n then [] else get_all lib h m)) \<and>
     (\<forall>h n v m. get_all lib (insert_header lib h n v) m = (if m = n then [v] else get_all lib h m)) \<and>
     (\<forall>s. b64_decode lib (b64_encode lib s) = Some s)"

text \<open>The parts of \<open>rama::http::Request\<close> that the layer reads or changes.\<close>

record 'h request =
  rq_method :: string
  rq_scheme :: "string option"
  rq_authority :: "string option"
  rq_path :: "string option"
  rq_headers :: 'h

subsection \<open>Formatting and substitution\<close>

definition format_injected_secret ::
  "'h http_lib \<Rightarrow> header_injection \<Rightarrow> string \<Rightarrow> unit + string" where
  "format_injected_secret lib injection secret =
     (case hi_format injection of
        RawFormat \<Rightarrow> Inr secret
      | Bearer \<Rightarrow> Inr (''Bearer '' @ secret)
      | BasicPassword \<Rightarrow> and_then (ok_or () (hi_username injection)) (\<lambda>username.
          Inr (''Basic '' @ b64_encode lib (username @ '':'' @ secret))))"

definition substitute_value ::
  "'h http_lib \<Rightarrow> header_injection \<Rightarrow> string \<Rightarrow> string \<Rightarrow> string \<Rightarrow> string option" where
  "substitute_value lib injection fake real text =
     (case hi_format injection of
        RawFormat \<Rightarrow> if text = fake then Some real else None
      | Bearer \<Rightarrow>
          (case split_once CHR '' '' text of
             None \<Rightarrow> None
           | Some (scheme, secret) \<Rightarrow>
               if eq_ignore_ascii_case scheme ''Bearer'' \<and> secret = fake
               then Some (scheme @ '' '' @ real) else None)
      | BasicPassword \<Rightarrow>
          (case split_once CHR '' '' text of
             None \<Rightarrow> None
           | Some (scheme, encoded) \<Rightarrow>
               if \<not> eq_ignore_ascii_case scheme ''Basic'' then None
               else (case hi_username injection of
                   None \<Rightarrow> None
                 | Some username \<Rightarrow>
                     (case b64_decode lib encoded of
                        None \<Rightarrow> None
                      | Some decoded \<Rightarrow>
                          (case split_once CHR '':'' decoded of
                             None \<Rightarrow> None
                           | Some (user, password) \<Rightarrow>
                               if user \<noteq> username \<or> password \<noteq> fake then None
                               else Some (scheme @ '' '' @ b64_encode lib (user @ '':'' @ real)))))))"

definition substitute_header_secret ::
  "'h http_lib \<Rightarrow> 'h \<Rightarrow> header_injection \<Rightarrow> string \<Rightarrow> string \<Rightarrow> string option" where
  "substitute_header_secret lib headers injection fake real =
     (case header_name lib (hi_header injection) of
        None \<Rightarrow> None
      | Some name \<Rightarrow>
          (case get_all lib headers name of
             [] \<Rightarrow> None
           | value # others \<Rightarrow>
               (case to_str lib value of
                  None \<Rightarrow> None
                | Some text \<Rightarrow>
                    if others \<noteq> [] then None
                    else substitute_value lib injection fake real text)))"

subsection \<open>Applying credentials\<close>

text \<open>First loop of \<open>apply_header_credentials\<close>: it only reads the request.\<close>

fun credential_values :: "'h http_lib \<Rightarrow> 'h \<Rightarrow> (string \<rightharpoonup> string) \<Rightarrow> compiled_credential list \<Rightarrow>
    unit + (string \<times> string) list" where
  "credential_values lib headers secrets [] = Inr []"
| "credential_values lib headers secrets (credential # credentials) =
     (if cc_mode credential = Disabled then credential_values lib headers secrets credentials
      else
        (let injection = cc_injection credential in
         and_then (ok_or () (header_name lib (hi_header injection))) (\<lambda>name.
         and_then (ok_or () (secrets (hi_secret injection))) (\<lambda>secret.
         and_then (case cc_mode credential of
             Inject \<Rightarrow> and_then (format_injected_secret lib injection secret) (\<lambda>v. Inr (Some v))
           | Substitute \<Rightarrow> Inr (case cc_fake_value credential of
                 None \<Rightarrow> None
               | Some fake \<Rightarrow> substitute_header_secret lib headers injection fake secret)
           | Disabled \<Rightarrow> Inr None) (\<lambda>value.
         and_then (case value of
             None \<Rightarrow> Inr []
           | Some v \<Rightarrow> and_then (ok_or () (header_value lib v)) (\<lambda>v. Inr [(name, v)])) (\<lambda>entry.
         and_then (credential_values lib headers secrets credentials) (\<lambda>rest.
         Inr (entry @ rest))))))))"

text \<open>Second loop: replace the collected headers.\<close>

definition set_headers :: "'h http_lib \<Rightarrow> (string \<times> string) list \<Rightarrow> 'h \<Rightarrow> 'h" where
  "set_headers lib values headers =
     fold (\<lambda>(name, value) h. insert_header lib (remove_header lib h name) name value) values headers"

definition apply_header_credentials :: "'h http_lib \<Rightarrow> 'h \<Rightarrow> compiled_credential list \<Rightarrow>
    (string \<rightharpoonup> string) \<Rightarrow> unit + 'h" where
  "apply_header_credentials lib headers credentials secrets =
     and_then (credential_values lib headers secrets credentials) (\<lambda>values.
     Inr (set_headers lib values headers))"

subsection \<open>The policy layer\<close>

definition denied_response :: "authorization_error \<Rightarrow> nat" where
  "denied_response error = (case error of InvalidAuthority \<Rightarrow> 400 | Denied \<Rightarrow> 403)"

definition request_has_unsupported_upgrade :: "'h http_lib \<Rightarrow> 'h \<Rightarrow> bool" where
  "request_has_unsupported_upgrade lib headers \<longleftrightarrow>
     get_all lib headers ''upgrade'' \<noteq> [] \<or>
     list_ex (\<lambda>value. case to_str lib value of None \<Rightarrow> False
       | Some text \<Rightarrow> list_ex (\<lambda>token. eq_ignore_ascii_case (trim token) ''upgrade'')
           (split_on CHR '','' text)) (get_all lib headers ''connection'')"

text \<open>
  What \<open>serve\<close> does with a request: answer it with a status, adding \<open>counted\<close> to the metric of
  denied requests, or hand the changed request to the inner service.
\<close>

datatype 'h outcome = Respond (status: nat) (counted: nat) | Forward "'h request"

definition serve :: "'h http_lib \<Rightarrow> host_parser \<Rightarrow> session_policy \<Rightarrow> string \<Rightarrow> (string \<rightharpoonup> string) \<Rightarrow>
    'h request \<Rightarrow> 'h outcome" where
  "serve lib hp policy connect_authority secrets request =
     (let raw_hosts = get_all lib (rq_headers request) ''host'';
          host_headers = map (to_str lib) raw_hosts in
      if None \<in> set host_headers then Respond (denied_response InvalidAuthority) 0
      else
        (let facts = \<lparr>rf_method = rq_method request, rf_scheme = rq_scheme request,
               rf_uri_authority = rq_authority request,
               rf_path = (case rq_path request of None \<Rightarrow> ''/'' | Some p \<Rightarrow> p),
               rf_host_headers = map the host_headers\<rparr> in
         case authorize_intercepted_request hp policy facts connect_authority of
           Inl error \<Rightarrow> Respond (denied_response error) 1
         | Inr (credentials, canonical_path) \<Rightarrow>
             (let request = (case canonical_path of None \<Rightarrow> request
                  | Some path \<Rightarrow> request\<lparr>rq_path := Some path\<rparr>) in
              if list_ex (\<lambda>credential. cc_mode credential \<noteq> Disabled) credentials
                 \<and> request_has_unsupported_upgrade lib (rq_headers request)
              then Respond (denied_response Denied) 1
              else (case apply_header_credentials lib (rq_headers request) credentials secrets of
                  Inl _ \<Rightarrow> Respond (denied_response Denied) 1
                | Inr headers \<Rightarrow> Forward (request\<lparr>rq_headers := headers\<rparr>)))))"

subsection \<open>What the credentials change\<close>

abbreviation cred_key :: "compiled_credential \<Rightarrow> string" where
  "cred_key c \<equiv> header_key (cc_injection c)"

text \<open>One round of the first loop: the header entry that one credential contributes.\<close>

definition credential_entry :: "'h http_lib \<Rightarrow> 'h \<Rightarrow> (string \<rightharpoonup> string) \<Rightarrow> compiled_credential \<Rightarrow>
    unit + (string \<times> string) list" where
  "credential_entry lib headers secrets c = credential_values lib headers secrets [c]"

lemma and_then_Inr_id: "and_then r (\<lambda>x. Inr x) = r"
  by (cases r) auto

lemma and_then_assoc: "and_then (and_then r f) g = and_then r (\<lambda>x. and_then (f x) g)"
  by (cases r) auto

lemma credential_values_Cons:
  "credential_values lib headers secrets (c # cs) =
     and_then (credential_entry lib headers secrets c) (\<lambda>e.
     and_then (credential_values lib headers secrets cs) (\<lambda>rest. Inr (e @ rest)))"
  by (simp add: credential_entry_def Let_def and_then_assoc and_then_Inr_id)

lemma credential_entry_Disabled:
  "cc_mode c = Disabled \<Longrightarrow> credential_entry lib headers secrets c = Inr []"
  by (simp add: credential_entry_def)

lemma credential_entry_Inject:
  "cc_mode c = Inject \<Longrightarrow> credential_entry lib headers secrets c = Inr e \<longleftrightarrow>
     (\<exists>name secret text v. header_name lib (hi_header (cc_injection c)) = Some name \<and>
        secrets (hi_secret (cc_injection c)) = Some secret \<and>
        format_injected_secret lib (cc_injection c) secret = Inr text \<and>
        header_value lib text = Some v \<and> e = [(name, v)])"
  by (auto simp: credential_entry_def Let_def result_simps)

lemma credential_entry_Substitute:
  "cc_mode c = Substitute \<Longrightarrow> credential_entry lib headers secrets c = Inr e \<longleftrightarrow>
     (\<exists>name secret. header_name lib (hi_header (cc_injection c)) = Some name \<and>
        secrets (hi_secret (cc_injection c)) = Some secret \<and>
        (case cc_fake_value c of None \<Rightarrow> e = []
         | Some fake \<Rightarrow> (case substitute_header_secret lib headers (cc_injection c) fake secret of
               None \<Rightarrow> e = []
             | Some text \<Rightarrow> (\<exists>v. header_value lib text = Some v \<and> e = [(name, v)]))))"
proof (cases "header_name lib (hi_header (cc_injection c))")
  case (Some name)
  assume "cc_mode c = Substitute"
  with Some show ?thesis
    by (cases "secrets (hi_secret (cc_injection c))"; cases "cc_fake_value c")
      (auto simp: credential_entry_def Let_def result_simps split: option.split)
qed (simp add: credential_entry_def)

lemma credential_entry_keys:
  assumes "http_lib_laws lib" "credential_entry lib headers secrets c = Inr e"
  shows "e = [] \<or> (\<exists>v. e = [(cred_key c, v)])" "cc_mode c = Disabled \<Longrightarrow> e = []"
proof -
  have key: "header_name lib (hi_header (cc_injection c)) = Some n \<Longrightarrow> n = cred_key c" for n
    using assms(1) by (simp add: http_lib_laws_def)
  show "e = [] \<or> (\<exists>v. e = [(cred_key c, v)])"
    using assms(2) key
    by (cases "cc_mode c") (auto simp: credential_entry_Inject credential_entry_Substitute
        credential_entry_Disabled split: option.splits)
  show "cc_mode c = Disabled \<Longrightarrow> e = []"
    using assms(2) by (simp add: credential_entry_Disabled)
qed

text \<open>The collected entries, credential by credential.\<close>

lemma credential_values_lookup:
  assumes "http_lib_laws lib" "credential_values lib headers secrets cs = Inr vals"
    and "distinct (map cred_key cs)"
  shows "distinct (map fst vals) \<and>
    (\<forall>n. n \<notin> cred_key ` {c \<in> set cs. cc_mode c \<noteq> Disabled} \<longrightarrow> map_of vals n = None) \<and>
    (\<forall>c \<in> set cs. \<exists>e. credential_entry lib headers secrets c = Inr e \<and>
       map_of vals (cred_key c) = map_of e (cred_key c))"
  using assms(2,3)
proof (induction cs arbitrary: vals)
  case (Cons c cs)
  from Cons.prems(1) obtain e rest where step: "credential_entry lib headers secrets c = Inr e"
    "credential_values lib headers secrets cs = Inr rest" "vals = e @ rest"
    by (auto simp only: credential_values_Cons result_simps sum.inject)
  note IH = Cons.IH [OF step(2)]
  have fresh: "map_of rest (cred_key c) = None" using IH Cons.prems(2) by auto
  then have "cred_key c \<notin> set (map fst rest)" by (simp add: map_of_eq_None_iff)
  moreover have other: "map_of e (cred_key d) = None" if "d \<in> set cs" for d
  proof -
    have "cred_key d \<in> set (map cred_key cs)" using that by simp
    then have "cred_key d \<noteq> cred_key c" using Cons.prems(2) by auto
    then show ?thesis using credential_entry_keys(1) [OF assms(1) step(1)] by auto
  qed
  moreover have "map_of vals n = None"
    if n: "n \<notin> cred_key ` {d \<in> set (c # cs). cc_mode d \<noteq> Disabled}" for n
  proof -
    have "map_of rest n = None" using IH Cons.prems(2) n by auto
    moreover have "map_of e n = None"
    proof (cases "cc_mode c = Disabled")
      case True
      then show ?thesis using credential_entry_keys(2) [OF assms(1) step(1)] by simp
    next
      case False
      then have "n \<noteq> cred_key c" using n by auto
      then show ?thesis using credential_entry_keys(1) [OF assms(1) step(1)] by auto
    qed
    ultimately show ?thesis by (simp add: step(3) map_add_def)
  qed
  moreover have "\<exists>e. credential_entry lib headers secrets d = Inr e \<and>
      map_of vals (cred_key d) = map_of e (cred_key d)" if "d \<in> set (c # cs)" for d
    using that IH Cons.prems(2) other fresh step by (auto simp: map_add_def split: option.split)
  ultimately show ?case
    using credential_entry_keys(1) [OF assms(1) step(1)] IH Cons.prems(2) step(3) by auto
qed simp

lemma set_headers_get_all:
  assumes "http_lib_laws lib" "distinct (map fst vals)"
  shows "get_all lib (set_headers lib vals headers) n =
    (case map_of vals n of None \<Rightarrow> get_all lib headers n | Some v \<Rightarrow> [v])"
  using assms(2)
proof (induction vals arbitrary: headers)
  case (Cons entry vals)
  obtain m v where e: "entry = (m, v)" by fastforce
  have "map_of vals m = None" using Cons.prems e by (simp add: map_of_eq_None_iff)
  with Cons e assms(1) show ?case
    by (auto simp: set_headers_def http_lib_laws_def split: option.split)
qed (simp add: set_headers_def)

lemma apply_header_credentials_get_all:
  assumes "http_lib_laws lib" "apply_header_credentials lib headers cs secrets = Inr h'"
    and "distinct (map cred_key cs)"
  shows "n \<notin> cred_key ` {c \<in> set cs. cc_mode c \<noteq> Disabled} \<Longrightarrow> get_all lib h' n = get_all lib headers n"
    and "c \<in> set cs \<Longrightarrow> \<exists>e. credential_entry lib headers secrets c = Inr e \<and>
      get_all lib h' (cred_key c) =
        (case map_of e (cred_key c) of None \<Rightarrow> get_all lib headers (cred_key c) | Some v \<Rightarrow> [v])"
proof -
  from assms(2) obtain vals where v: "credential_values lib headers secrets cs = Inr vals"
    "h' = set_headers lib vals headers"
    by (auto simp: apply_header_credentials_def result_simps)
  note l = credential_values_lookup [OF assms(1) v(1) assms(3)]
  then have g: "get_all lib h' n = (case map_of vals n of None \<Rightarrow> get_all lib headers n | Some v \<Rightarrow> [v])" for n
    using set_headers_get_all [OF assms(1)] v(2) by blast
  show "n \<notin> cred_key ` {c \<in> set cs. cc_mode c \<noteq> Disabled} \<Longrightarrow> get_all lib h' n = get_all lib headers n"
    using l g by simp
  show "c \<in> set cs \<Longrightarrow> \<exists>e. credential_entry lib headers secrets c = Inr e \<and>
      get_all lib h' (cred_key c) =
        (case map_of e (cred_key c) of None \<Rightarrow> get_all lib headers (cred_key c) | Some v \<Rightarrow> [v])"
    using l g by fastforce
qed


text \<open>When a header value is taken for the session's fake credential.\<close>

definition carries_fake :: "'h http_lib \<Rightarrow> header_injection \<Rightarrow> string \<Rightarrow> string \<Rightarrow> bool" where
  "carries_fake lib injection fake text \<longleftrightarrow>
     (case hi_format injection of
        RawFormat \<Rightarrow> text = fake
      | Bearer \<Rightarrow> (\<exists>scheme. text = scheme @ '' '' @ fake \<and> eq_ignore_ascii_case scheme ''Bearer'')
      | BasicPassword \<Rightarrow> (\<exists>scheme encoded user. text = scheme @ '' '' @ encoded \<and>
          eq_ignore_ascii_case scheme ''Basic'' \<and> hi_username injection = Some user \<and>
          b64_decode lib encoded = Some (user @ '':'' @ fake)))"

lemma substitute_value_carries:
  "substitute_value lib injection fake real text = Some v \<Longrightarrow> carries_fake lib injection fake text"
  by (auto simp: substitute_value_def carries_fake_def split_once_Some
      split: injection_format.splits option.splits prod.splits if_splits)

lemma substitute_header_secret_Some:
  "substitute_header_secret lib headers injection fake real = Some text \<longleftrightarrow>
     (\<exists>name old shown. header_name lib (hi_header injection) = Some name \<and>
        get_all lib headers name = [old] \<and> to_str lib old = Some shown \<and>
        substitute_value lib injection fake real shown = Some text)"
  by (auto simp: substitute_header_secret_def split: option.split list.split)

lemma credential_entry_replaces:
  assumes "cc_mode c = Substitute" "credential_entry lib headers secrets c = Inr e" "e \<noteq> []"
  shows "\<exists>fake secret text name old shown v. cc_fake_value c = Some fake \<and>
     secrets (hi_secret (cc_injection c)) = Some secret \<and>
     header_name lib (hi_header (cc_injection c)) = Some name \<and> get_all lib headers name = [old] \<and>
     to_str lib old = Some shown \<and> substitute_value lib (cc_injection c) fake secret shown = Some text \<and>
     header_value lib text = Some v \<and> e = [(name, v)]"
proof -
  from assms(1,2) obtain name secret where n: "header_name lib (hi_header (cc_injection c)) = Some name"
    "secrets (hi_secret (cc_injection c)) = Some secret"
    and rest: "case cc_fake_value c of None \<Rightarrow> e = []
      | Some fake \<Rightarrow> (case substitute_header_secret lib headers (cc_injection c) fake secret of
          None \<Rightarrow> e = [] | Some text \<Rightarrow> (\<exists>v. header_value lib text = Some v \<and> e = [(name, v)]))"
    by (auto simp: credential_entry_Substitute)
  from rest assms(3) obtain fake formatted v where "cc_fake_value c = Some fake"
    "substitute_header_secret lib headers (cc_injection c) fake secret = Some formatted"
    "header_value lib formatted = Some v" "e = [(name, v)]"
    by (auto split: option.splits)
  with n show ?thesis by (auto simp: substitute_header_secret_Some)
qed

lemma substitute_value_format:
  assumes "http_lib_laws lib" "valid_injection injection"
    and "format_injected_secret lib injection fake = Inr text"
  shows "\<exists>text'. format_injected_secret lib injection real = Inr text' \<and>
    substitute_value lib injection fake real text = Some text'"
proof (cases "hi_format injection")
  case RawFormat
  then show ?thesis using assms(3) by (simp add: format_injected_secret_def substitute_value_def)
next
  case Bearer
  have "split_once CHR '' '' (''Bearer '' @ fake) = Some (''Bearer'', fake)" by (simp add: split_once_Some)
  with Bearer show ?thesis
    using assms(3) by (auto simp: format_injected_secret_def substitute_value_def eq_ignore_ascii_case_def)
next
  case BasicPassword
  then obtain user where user: "hi_username injection = Some user" "CHR '':'' \<notin> set user"
    using assms(2)
    by (auto simp: valid_injection_def validate_basic_username_def split: option.splits if_splits)
  have "split_once CHR '' '' (''Basic '' @ e) = Some (''Basic'', e)" for e by (simp add: split_once_Some)
  moreover have "split_once CHR '':'' (user @ CHR '':'' # s) = Some (user, s)" for s
    using user(2) by simp
  ultimately show ?thesis
    using BasicPassword assms(1,3) user(1)
    by (auto simp: format_injected_secret_def substitute_value_def eq_ignore_ascii_case_def http_lib_laws_def)
qed

subsection \<open>What is forwarded\<close>

definition facts_of :: "'h http_lib \<Rightarrow> 'h request \<Rightarrow> request_facts" where
  "facts_of lib request = \<lparr>rf_method = rq_method request, rf_scheme = rq_scheme request,
     rf_uri_authority = rq_authority request,
     rf_path = (case rq_path request of None \<Rightarrow> ''/'' | Some p \<Rightarrow> p),
     rf_host_headers = map (the \<circ> to_str lib) (get_all lib (rq_headers request) ''host'')\<rparr>"

lemma serve_Forward:
  "serve lib hp policy a secrets request = Forward r \<longleftrightarrow>
     None \<notin> set (map (to_str lib) (get_all lib (rq_headers request) ''host'')) \<and>
     (\<exists>creds path headers. authorize_intercepted_request hp policy (facts_of lib request) a = Inr (creds, path) \<and>
        \<not> ((\<exists>c \<in> set creds. cc_mode c \<noteq> Disabled) \<and> request_has_unsupported_upgrade lib (rq_headers request)) \<and>
        apply_header_credentials lib (rq_headers request) creds secrets = Inr headers \<and>
        r = request\<lparr>rq_path := (case path of None \<Rightarrow> rq_path request | Some p \<Rightarrow> Some p), rq_headers := headers\<rparr>)"
proof (cases "authorize_intercepted_request hp policy (facts_of lib request) a")
  case (Inl e)
  then show ?thesis by (simp add: serve_def facts_of_def Let_def comp_def)
next
  case (Inr cp)
  obtain creds path where cp: "cp = (creds, path)" by fastforce
  show ?thesis
  proof (cases path)
    case None
    with Inr cp show ?thesis
      by (cases request; cases "apply_header_credentials lib (rq_headers request) creds secrets")
        (auto simp: serve_def facts_of_def Let_def comp_def list_ex_iff)
  next
    case (Some p)
    with Inr cp show ?thesis
      by (cases request; cases "apply_header_credentials lib (rq_headers request) creds secrets")
        (auto simp: serve_def facts_of_def Let_def comp_def list_ex_iff)
  qed
qed

lemma compiled_keys [simp]:
  "map cred_key (map (compile_credential hmac b64url c seed) is) = map header_key is"
  by (simp add: compile_credential_def Let_def comp_def)

lemma host_not_injectable: "valid_injection i \<Longrightarrow> header_key i \<noteq> ''host''"
  by (auto simp: valid_injection_def validate_header_Inr PROHIBITED_def)

lemma forwarded_hosts_authorized:
  assumes "named_authorities facts \<noteq> []"
    and "\<forall>n \<in> set (named_authorities facts). parse_authority_text hp n (Some 443) = Inr d"
    and "facts = facts_of lib request" "None \<notin> set (map (to_str lib) (get_all lib (rq_headers request) ''host''))"
  shows "\<forall>v \<in> set (get_all lib (rq_headers request) ''host''). \<exists>s. to_str lib v = Some s \<and>
    parse_authority_text hp s (Some 443) = Inr d"
proof
  fix v assume v: "v \<in> set (get_all lib (rq_headers request) ''host'')"
  then have "to_str lib v \<in> set (map (to_str lib) (get_all lib (rq_headers request) ''host''))" by simp
  with assms(4) obtain s where s: "to_str lib v = Some s" by (cases "to_str lib v") auto
  with v have "s \<in> set (rf_host_headers facts)" by (force simp: assms(3) facts_of_def)
  with assms(2) s show "\<exists>s. to_str lib v = Some s \<and> parse_authority_text hp s (Some 443) = Inr d"
    by (auto simp: named_authorities_def)
qed

text \<open>An injected header carries the secret of its credential, and no other value.\<close>

lemma injected_header:
  assumes "http_lib_laws lib" "apply_header_credentials lib headers cs secrets = Inr h'" "distinct (map cred_key cs)"
    and "c \<in> set cs" "cc_mode c = Inject"
  shows "\<exists>secret text v. secrets (hi_secret (cc_injection c)) = Some secret \<and>
    format_injected_secret lib (cc_injection c) secret = Inr text \<and>
    header_value lib text = Some v \<and> get_all lib h' (cred_key c) = [v]"
proof -
  have key: "header_name lib s = Some n \<Longrightarrow> n = to_ascii_lowercase s" for s n
    using assms(1) by (simp add: http_lib_laws_def)
  from apply_header_credentials_get_all(2) [OF assms(1-4)] show ?thesis
    using assms(5) by (auto simp: credential_entry_Inject dest: key)
qed

text \<open>A request that is forwarded under a compiled policy: the rule that let it through.\<close>

lemma forwarded_rule:
  assumes "wf_session c" "serve lib hp (session_policy_compile hmac b64url c seed) a secrets request = Forward r'"
  obtains d r where "parse_authority_text hp a (Some 443) = Inr d"
    "r \<in> set (sc_rules c)" "hr_host r = d_host d" "d_port d \<in> set (hr_ports r)" "wf_rule r"
    "if hr_paths r = [] then rq_path r' = rq_path request
       else \<exists>p. rq_path r' = Some p \<and> canonicalize_path p = Inr p \<and>
         (\<exists>pattern \<in> set (hr_paths r). matches_path_pattern pattern p)"
    "apply_header_credentials lib (rq_headers request) (map (compile_credential hmac b64url c seed) (hr_inject r)) secrets =
       Inr (rq_headers r')"
    "distinct (map cred_key (map (compile_credential hmac b64url c seed) (hr_inject r)))"
    "\<forall>v \<in> set (get_all lib (rq_headers request) ''host''). \<exists>s. to_str lib v = Some s \<and>
       parse_authority_text hp s (Some 443) = Inr d"
    "rq_method r' = rq_method request" "rq_authority r' = rq_authority request"
proof -
  let ?facts = "facts_of lib request"
  from assms(2) obtain creds path headers where
    f: "None \<notin> set (map (to_str lib) (get_all lib (rq_headers request) ''host''))"
      "authorize_intercepted_request hp (session_policy_compile hmac b64url c seed) ?facts a = Inr (creds, path)"
      "apply_header_credentials lib (rq_headers request) creds secrets = Inr headers"
      "r' = request\<lparr>rq_path := (case path of None \<Rightarrow> rq_path request | Some p \<Rightarrow> Some p), rq_headers := headers\<rparr>"
    by (auto simp: serve_Forward)
  have "distinct (map hr_host (sc_rules c))" using assms(1) by (simp add: wf_session_def)
  note lookup = compile_lookup [OF this]
  from f(2) obtain d r where d: "parse_authority_text hp a (Some 443) = Inr d"
    "named_authorities ?facts \<noteq> []"
    "\<forall>n \<in> set (named_authorities ?facts). parse_authority_text hp n (Some 443) = Inr d"
    and r: "r \<in> set (sc_rules c)" "hr_host r = d_host d" "d_port d \<in> set (hr_ports r)"
    and out: "creds = map (compile_credential hmac b64url c seed) (hr_inject r)"
      "canonical_authorized_path (compile_rule hmac b64url c seed r) (rf_path ?facts) = Inr path"
    by (auto simp: authorize_intercepted_Inr lookup)
  have wf: "wf_rule r" using assms(1) r(1) by (simp add: wf_session_def)
  then have keys: "distinct (map cred_key creds)" by (simp only: out(1) compiled_keys wf_rule_def)
  have path: "if hr_paths r = [] then rq_path r' = rq_path request
      else \<exists>p. rq_path r' = Some p \<and> canonicalize_path p = Inr p \<and>
        (\<exists>pattern \<in> set (hr_paths r). matches_path_pattern pattern p)"
    using out(2) f(4)
    by (auto simp: canonical_authorized_path_Inr canonicalize_request_path_def
        dest: canonicalize_path_fixpoint split: option.splits if_splits)
  show ?thesis
    by (rule that [OF d(1) r wf path _ _ forwarded_hosts_authorized [OF d(2,3) refl f(1)]])
      (use f(3,4) keys out(1) in simp_all)
qed

subsection \<open>Properties\<close>

text \<open>
  C7. Applying the credentials of a rule changes exactly the headers that the rule configures.
  A header of no active credential keeps its values; an injected header has the formatted
  secret as its only value, whatever the client sent; a substituted header either keeps its
  values or, when its only value carried the session's fake credential, has the real one.
\<close>

theorem credentials_change_only_configured_headers:
  assumes "http_lib_laws lib" and "distinct (map cred_key cs)"
    and "apply_header_credentials lib headers cs secrets = Inr h'"
  shows "(\<forall>n. n \<notin> cred_key ` {c \<in> set cs. cc_mode c \<noteq> Disabled} \<longrightarrow>
      get_all lib h' n = get_all lib headers n) \<and>
    (\<forall>c \<in> set cs. cc_mode c = Inject \<longrightarrow>
      (\<exists>secret text v. secrets (hi_secret (cc_injection c)) = Some secret \<and>
        format_injected_secret lib (cc_injection c) secret = Inr text \<and>
        header_value lib text = Some v \<and> get_all lib h' (cred_key c) = [v])) \<and>
    (\<forall>c \<in> set cs. cc_mode c = Substitute \<longrightarrow> get_all lib h' (cred_key c) \<noteq> get_all lib headers (cred_key c) \<longrightarrow>
      (\<exists>fake secret old text v. cc_fake_value c = Some fake \<and>
        secrets (hi_secret (cc_injection c)) = Some secret \<and>
        get_all lib headers (cred_key c) = [old] \<and>
        (\<exists>shown. to_str lib old = Some shown \<and> carries_fake lib (cc_injection c) fake shown \<and>
          substitute_value lib (cc_injection c) fake secret shown = Some text) \<and>
        header_value lib text = Some v \<and> get_all lib h' (cred_key c) = [v]))"
proof (intro conjI ballI allI impI)
  note g = apply_header_credentials_get_all [OF assms(1,3,2)]
  have key: "header_name lib s = Some n \<Longrightarrow> n = to_ascii_lowercase s" for s n
    using assms(1) by (simp add: http_lib_laws_def)
  show "n \<notin> cred_key ` {c \<in> set cs. cc_mode c \<noteq> Disabled} \<Longrightarrow> get_all lib h' n = get_all lib headers n" for n
    by (rule g(1))
  fix c assume c: "c \<in> set cs"
  obtain e where e: "credential_entry lib headers secrets c = Inr e"
    "get_all lib h' (cred_key c) = (case map_of e (cred_key c) of None \<Rightarrow> get_all lib headers (cred_key c)
       | Some v \<Rightarrow> [v])"
    using g(2) [OF c] by blast
  show "\<exists>secret text v. secrets (hi_secret (cc_injection c)) = Some secret \<and>
      format_injected_secret lib (cc_injection c) secret = Inr text \<and>
      header_value lib text = Some v \<and> get_all lib h' (cred_key c) = [v]" if "cc_mode c = Inject"
    by (rule injected_header [OF assms(1,3,2) c that])
  show "\<exists>fake secret old text v. cc_fake_value c = Some fake \<and>
      secrets (hi_secret (cc_injection c)) = Some secret \<and> get_all lib headers (cred_key c) = [old] \<and>
      (\<exists>shown. to_str lib old = Some shown \<and> carries_fake lib (cc_injection c) fake shown \<and>
        substitute_value lib (cc_injection c) fake secret shown = Some text) \<and>
      header_value lib text = Some v \<and> get_all lib h' (cred_key c) = [v]"
    if "cc_mode c = Substitute" "get_all lib h' (cred_key c) \<noteq> get_all lib headers (cred_key c)"
  proof -
    have "e \<noteq> []" using e(2) that(2) by auto
    from credential_entry_replaces [OF that(1) e(1) this] show ?thesis
      using e(2) key by (auto dest: substitute_value_carries)
  qed
qed



text \<open>Header maps as functions and an identity encoder satisfy the laws.\<close>

definition example_lib :: "(string \<Rightarrow> string list) http_lib" where
  "example_lib = \<lparr>header_name = (\<lambda>s. Some (to_ascii_lowercase s)), header_value = Some, to_str = Some,
     get_all = (\<lambda>h n. h n), remove_header = (\<lambda>h n. h(n := [])), insert_header = (\<lambda>h n v. h(n := [v])),
     b64_encode = id, b64_decode = Some\<rparr>"

lemma example_lib_laws: "http_lib_laws example_lib"
  by (auto simp: http_lib_laws_def example_lib_def)

definition example_basic :: header_injection where
  "example_basic = \<lparr>hi_header = ''Authorization'', hi_secret = ''api.token'', hi_format = BasicPassword,
     hi_username = Some ''git''\<rparr>"

lemma example_basic_valid: "valid_injection example_basic"
  unfolding valid_injection_def example_basic_def valid_secret_id_def
  using example_header by (simp add: eval_simps)

definition example_headers :: "string \<Rightarrow> string list" where
  "example_headers = (\<lambda>_. [])(''authorization'' := [''Basic git:fake''], ''accept'' := [''x''])"

theorem credentials_change_only_configured_headers_witness:
  "\<exists>h'. apply_header_credentials example_lib example_headers
       [\<lparr>cc_injection = example_basic, cc_mode = Substitute, cc_fake_value = Some ''fake''\<rparr>]
       [''api.token'' \<mapsto> ''real''] = Inr h' \<and>
     get_all example_lib h' ''accept'' = [''x'']"
proof -
  let ?c = "\<lparr>cc_injection = example_basic, cc_mode = Substitute, cc_fake_value = Some ''fake''\<rparr>"
  have low: "to_ascii_lowercase ''Authorization'' = ''authorization''" by (simp add: eval_simps)
  have "\<exists>h'. apply_header_credentials example_lib example_headers [?c] [''api.token'' \<mapsto> ''real''] = Inr h'"
    by (simp add: apply_header_credentials_def example_lib_def example_basic_def example_headers_def
        substitute_header_secret_def substitute_value_def low eq_ignore_ascii_case_def)
  then obtain h' where h': "apply_header_credentials example_lib example_headers [?c]
      [''api.token'' \<mapsto> ''real''] = Inr h'" by blast
  have "distinct (map cred_key [?c])" by simp
  note unchanged = credentials_change_only_configured_headers [OF example_lib_laws this h',
      THEN conjunct1, rule_format]
  have "get_all example_lib h' ''accept'' = get_all example_lib example_headers ''accept''"
    by (rule unchanged) (auto simp: example_basic_def low)
  with h' show ?thesis by (auto simp: example_lib_def example_headers_def)
qed


definition example_request :: "(string \<Rightarrow> string list) request" where
  "example_request = \<lparr>rq_method = ''GET'', rq_scheme = None, rq_authority = None, rq_path = Some ''/v1/%7Ea/x'',
     rq_headers = (\<lambda>_. [])(''host'' := [''web.com''])\<rparr>"

lemma example_forwards:
  assumes "secrets ''api.token'' = Some secret"
  shows "\<exists>r'. serve example_lib plain_hosts (session_policy_compile hmac b64url example_session seed) ''web.com'' secrets
    example_request = Forward r'"
proof -
  let ?p = "session_policy_compile hmac b64url example_session seed"
  let ?inj = "\<lparr>hi_header = ''Authorization'', hi_secret = ''api.token'', hi_format = Bearer, hi_username = None\<rparr>"
  let ?creds = "[\<lparr>cc_injection = ?inj, cc_mode = Inject, cc_fake_value = None\<rparr>]"
  have facts: "facts_of example_lib example_request = \<lparr>rf_method = ''GET'', rf_scheme = None, rf_uri_authority = None,
      rf_path = ''/v1/%7Ea/x'', rf_host_headers = [''web.com'']\<rparr>"
    by (simp add: facts_of_def example_lib_def example_request_def)
  have c: "canonicalize_request_path ''/v1/%7Ea/x'' = Inr ''/v1/~a/x''" by (simp add: eval_simps)
  have m: "matches_path_pattern ''/v1/~a/**'' ''/v1/~a/x''" by (simp add: eval_simps)
  have g: "\<not> eq_ignore_ascii_case ''GET'' ''CONNECT''" by (simp add: eval_simps)
  have rule: "sp_rules ?p ''web.com'' = Some (compile_rule hmac b64url example_session seed (hd (sc_rules example_session)))"
    by (simp add: session_policy_compile_def example_session_def)
  have cred: "cr_credentials (compile_rule hmac b64url example_session seed (hd (sc_rules example_session))) = ?creds"
    by (simp add: example_session_def compile_credential_def effective_credential_mode_def)
  have auth: "authorize_intercepted_request plain_hosts ?p (facts_of example_lib example_request) ''web.com'' =
      Inr (?creds, Some ''/v1/~a/x'')"
    unfolding authorize_intercepted_Inr facts
    using c m g rule cred
    by (simp add: named_authorities_def example_authorities canonical_authorized_path_Inr)
      (simp add: example_session_def)
  have upg: "\<not> request_has_unsupported_upgrade example_lib (rq_headers example_request)"
    by (simp add: request_has_unsupported_upgrade_def example_lib_def example_request_def)
  have "\<exists>h. apply_header_credentials example_lib (rq_headers example_request) ?creds secrets = Inr h"
    using assms by (simp add: apply_header_credentials_def example_lib_def format_injected_secret_def)
  then show ?thesis
    using auth upg unfolding serve_Forward by (fastforce simp: example_lib_def example_request_def)
qed


text \<open>
  Every refusal counts as one denied request, except that of a Host header which is no text: it
  is answered with the status of an invalid authority and not counted.
\<close>

lemma refusal_counted:
  assumes "serve lib hp policy a secrets request = Respond code n"
  shows "n = (if \<exists>v \<in> set (get_all lib (rq_headers request) ''host''). to_str lib v = None then 0 else 1)"
  using assms unfolding serve_def Let_def
  by (auto simp: image_iff eq_commute [of None] split: if_splits sum.splits option.splits prod.splits)

lemma undecodable_host_uncounted:
  assumes "v \<in> set (get_all lib (rq_headers request) ''host'')" "to_str lib v = None"
  shows "serve lib hp policy a secrets request = Respond 400 0"
  using assms unfolding serve_def Let_def denied_response_def by (force simp: image_iff)

end
