(* ===== verification/Session_Enforcement.thy ===== *)
theory Session_Enforcement
  imports Session_Steps Header_Credentials
begin

text \<open>
  What a session enforces is what it reports: the policy and the secrets that the current runtime
  of a session hands to new connections are those of the configuration the registry holds for it,
  through creations, reloads in place, reloads that move the listener, and removals, in every
  interleaving of the session manager.
\<close>

definition enforces :: "managed_session \<Rightarrow> bool" where
  "enforces s \<longleftrightarrow> (\<forall>rt. ms_runtime s = Some rt \<longrightarrow>
     (\<exists>hmac b64url. rt_current rt = \<lparr>pg_policy = session_policy_compile hmac b64url (ms_configuration s) (rt_seed rt),
        pg_secrets = ms_secrets s\<rparr>))"

definition all_enforce :: "session_registry \<Rightarrow> bool" where
  "all_enforce r \<longleftrightarrow> (\<forall>sid s. rg_sessions r sid = Some s \<longrightarrow> enforces s)"

lemma all_enforceD: "all_enforce r \<Longrightarrow> rg_sessions r sid = Some s \<Longrightarrow> enforces s"
  by (auto simp: all_enforce_def)

lemma all_enforce_update [simp]:
  "enforces s \<Longrightarrow> all_enforce r \<Longrightarrow> all_enforce (update_session sid s r)"
  by (auto simp: all_enforce_def update_session_def)

text \<open>What leaves the runtime, the configuration and the secrets alone, and what takes the runtime away.\<close>

lemma enforces_same:
  "enforces s \<Longrightarrow> ms_runtime t = ms_runtime s \<Longrightarrow> ms_configuration t = ms_configuration s \<Longrightarrow> ms_secrets t = ms_secrets s \<Longrightarrow>
     enforces t"
  by (simp add: enforces_def)

lemma enforces_stopped [simp]: "ms_runtime s = None \<Longrightarrow> enforces s"
  by (simp add: enforces_def)

lemma enforces_started [simp]:
  "ms_runtime s = Some (runtime_start hmac b64url (ms_configuration s) (ms_secrets s) seed socket n) \<Longrightarrow> enforces s"
  by (auto simp: enforces_def runtime_start_def)

lemma enforces_taken [simp]: "enforces (snd (take_runtimes s))"
  by (simp add: take_runtimes_def)

lemma enforces_pruned: "enforces s \<Longrightarrow> enforces (prune_retired is_finished s)"
  by (rule enforces_same) (simp_all add: prune_retired_def Let_def)

lemma enforces_retired [simp]: "enforces (s\<lparr>ms_retired_runtimes := rts\<rparr>) \<longleftrightarrow> enforces s"
  by (simp add: enforces_def)

subsection \<open>The sections\<close>

lemma enforce_commit:
  assumes "create_commit sid session secrets source (runtime_start hmac b64url session secrets seed socket n) r = (out, r')"
    and "all_enforce r"
  shows "all_enforce r'"
  using assms
  by (auto simp: create_commit_def create_release_def all_enforce_def Let_def split: if_splits)

lemma enforce_marks:
  assumes "all_enforce r"
  shows "stop_mark sid r = (m, r') \<Longrightarrow> all_enforce r'" "remove_mark sid r = (m, r') \<Longrightarrow> all_enforce r'"
    "runtime_exit_mark sid n r = (m, r') \<Longrightarrow> all_enforce r'" "shutdown_mark sid r = (taken, r') \<Longrightarrow> all_enforce r'"
  using assms
  by (auto simp: stop_mark_def remove_mark_def runtime_exit_mark_def shutdown_mark_def take_runtimes_def Let_def
      intro!: all_enforce_update intro: enforces_same dest: all_enforceD split: option.splits if_splits prod.splits)

lemma enforce_in_place:
  assumes "reload_in_place env sid start cand r = (result, r')" "all_enforce r"
  shows "all_enforce r'"
  using assms
  by (auto simp: reload_in_place_def replace_generation_def enforces_def Let_def
      intro!: all_enforce_update dest: all_enforceD split: option.splits if_splits prod.splits bool.splits) blast

lemma enforce_swap:
  assumes "reload_swap sid start cand (start_replacement env cand seed n) n r = (result, r')" "all_enforce r"
  shows "all_enforce r'"
  using assms
  by (auto simp: reload_swap_def start_replacement_def Let_def
      intro!: all_enforce_update split: option.splits if_splits)

lemma enforce_listings:
  assumes "all_enforce r"
  shows "list_sessions is_finished r = (infos, r') \<Longrightarrow> all_enforce r'"
    "reload_inspect is_finished sid r = (out, r') \<Longrightarrow> all_enforce r'"
    "reload_listener is_finished sid start r = (out', r') \<Longrightarrow> all_enforce r'"
  using assms
  by (auto simp: list_sessions_def reload_inspect_def reload_listener_def all_enforce_def update_session_def Let_def
      intro!: enforces_pruned split: option.splits if_splits)

lemma enforce_smaller:
  "all_enforce r \<Longrightarrow> all_enforce (create_release sid r)" "all_enforce r \<Longrightarrow> all_enforce (reject_new_sessions r)"
  "all_enforce r \<Longrightarrow> all_enforce (shutdown_begin r)" "all_enforce r \<Longrightarrow> all_enforce (shutdown_clear r)"
  "all_enforce r \<Longrightarrow> create_reserve max_sessions sid r = Inr r' \<Longrightarrow> all_enforce r'"
  "all_enforce r \<Longrightarrow> remove_session sid r = (present, r') \<Longrightarrow> all_enforce r'"
  by (auto simp: all_enforce_def create_release_def reject_new_sessions_def shutdown_begin_def shutdown_clear_def
      create_reserve_def remove_session_def split: if_splits option.splits)

lemma enforce_step: "mstep max_sessions g g' \<Longrightarrow> all_enforce (mg_registry g) \<Longrightarrow> all_enforce (mg_registry g')"
  by (induction rule: mstep.induct)
    (auto intro: enforce_commit enforce_marks enforce_in_place enforce_swap enforce_listings enforce_smaller)

lemma enforce_new: "all_enforce (mg_registry manager_new)"
  by (simp add: manager_new_def registry_new_def all_enforce_def)

interpretation policies: invariant_system manager_new "mstep max_sessions" "\<lambda>g. all_enforce (mg_registry g)" for max_sessions
  by unfold_locales (rule enforce_new, rule enforce_step)

lemma reachable_enforces:
  "reachable max_sessions g \<Longrightarrow> rg_sessions (mg_registry g) sid = Some s \<Longrightarrow> enforces s"
  unfolding reachable_def by (drule policies.inv_reachable) (rule all_enforceD)

end
