(* ===== verification/Unix_Fs.thy ===== *)
theory Unix_Fs
  imports Std_Path
begin

unbundle bit_operations_syntax

text \<open>
  The file system as the sources see it: a table of nodes with directories, the system calls
  they make on it, and a small program logic for sequences of calls.

  A node is named by its device and inode number; an open descriptor is the node it pins. Other
  processes act between any two calls: before its call at tick \<open>t\<close> a program sees the change
  \<open>k_env K t\<close>. Any call may fail for a reason outside the model (permissions, quotas, a
  signal), as \<open>k_fault\<close> says, and \<open>k_ino\<close> is the inode number the kernel gives
  to a node that is created at \<open>t\<close>. The world keeps a log of the calls that succeeded, with
  their ticks: it is what the theorems on ownership speak about.
\<close>

named_theorems triple_rules "rules for the triples of system calls and of the combinators"

subsection \<open>Nodes and path resolution\<close>

datatype file_id = Fid (fid_dev: u64) (fid_ino: u64)

record node =
  nd_kind :: file_kind
  nd_uid :: u32
  nd_mode :: u32
  nd_data :: string
  nd_entries :: "(string \<times> file_id) list"
  nd_listening :: bool

record unix_fs =
  fs_node :: "file_id \<Rightarrow> node option"
  fs_root :: file_id

definition stat_of :: "file_id \<Rightarrow> node \<Rightarrow> metadata" where
  "stat_of i nd = \<lparr>md_kind = nd_kind nd, md_uid = nd_uid nd, md_mode = nd_mode nd,
     md_len = length (nd_data nd), md_dev = fid_dev i, md_ino = fid_ino i\<rparr>"

definition md_id :: "metadata \<Rightarrow> file_id" where
  "md_id md = Fid (md_dev md) (md_ino md)"

lemma md_id_stat_of [simp]: "md_id (stat_of i nd) = i"
  by (simp add: md_id_def stat_of_def)

lemma md_kind_stat_of [simp]: "md_kind (stat_of i nd) = nd_kind nd"
  by (simp add: stat_of_def)

lemma stat_of_fields:
  "stat_of i nd = md \<Longrightarrow> nd_kind nd = md_kind md \<and> nd_uid nd = md_uid md \<and> nd_mode nd = md_mode md"
  by (auto simp: stat_of_def)

definition dir_lookup :: "unix_fs \<Rightarrow> file_id \<Rightarrow> string \<Rightarrow> errno + file_id" where
  "dir_lookup fs d n =
     (case fs_node fs d of
        None \<Rightarrow> Inl ENOENT
      | Some nd \<Rightarrow>
          if nd_kind nd \<noteq> Directory then Inl ENOTDIR
          else ok_or ENOENT (map_of (nd_entries nd) n))"

text \<open>The names of a path: a parent step is the entry that every directory has for it.\<close>

fun component_names :: "component \<Rightarrow> string list" where
  "component_names ParentDir = [''..'']"
| "component_names (Normal n) = [n]"
| "component_names _ = []"

definition names_of :: "string \<Rightarrow> string list" where
  "names_of path = concat (map component_names (components path))"

definition trail_push :: "string list \<Rightarrow> string \<Rightarrow> string list" where
  "trail_push trail n = (if n = ''..'' then butlast trail else trail @ [n])"

text \<open>
  Resolution of names from a directory. A symbolic link is followed when names remain or when the
  last one is to be followed, at most as often as the fuel says. The trail is the path walked so
  far with the links resolved, as \<open>canonicalize\<close> reports it.
\<close>

fun resolve_names :: "unix_fs \<Rightarrow> nat \<Rightarrow> file_id \<Rightarrow> string list \<Rightarrow> string list \<Rightarrow> bool \<Rightarrow>
    errno + file_id \<times> string list" where
  "resolve_names fs fuel d trail [] follow = Inr (d, trail)"
| "resolve_names fs fuel d trail (n # ns) follow =
     (case dir_lookup fs d n of
        Inl e \<Rightarrow> Inl e
      | Inr i \<Rightarrow>
         (case fs_node fs i of
            None \<Rightarrow> Inl EIO
          | Some nd \<Rightarrow>
              if nd_kind nd = Symlink \<and> (ns \<noteq> [] \<or> follow) then
               (case fuel of
                  0 \<Rightarrow> Inl ELOOP
                | Suc f \<Rightarrow>
                    if is_absolute (nd_data nd)
                    then resolve_names fs f (fs_root fs) [] (names_of (nd_data nd) @ ns) follow
                    else resolve_names fs f d trail (names_of (nd_data nd) @ ns) follow)
              else resolve_names fs fuel i (trail_push trail n) ns follow))"

definition SYMLOOP_MAX :: nat where
  "SYMLOOP_MAX = 40"

text \<open>A location is a directory, the root when none is given, with names below it: a path, or a
  descriptor with one name.\<close>

type_synonym location = "file_id option \<times> string list"

text \<open>
  The errors of \<open>anyhow\<close>: a message, an operating system error with context, an error with
  context, and an error to which the failures of a cleanup were added.
\<close>

datatype failure = Bail string | Context string io_error | Context_of string failure
  | With_cleanup failure "(location \<times> io_error) list"

definition start_dir :: "unix_fs \<Rightarrow> file_id option \<Rightarrow> file_id" where
  "start_dir fs d = (case d of None \<Rightarrow> fs_root fs | Some i \<Rightarrow> i)"

definition locate :: "unix_fs \<Rightarrow> location \<Rightarrow> bool \<Rightarrow> errno + file_id" where
  "locate fs loc follow = (case loc of (d, ns) \<Rightarrow>
     (case resolve_names fs SYMLOOP_MAX (start_dir fs d) [] ns follow of Inl e \<Rightarrow> Inl e | Inr (i, trail) \<Rightarrow> Inr i))"

text \<open>The directory and the name at which a node is created or removed.\<close>

definition locate_parent :: "unix_fs \<Rightarrow> location \<Rightarrow> errno + file_id \<times> string" where
  "locate_parent fs loc = (case loc of (d, ns) \<Rightarrow>
     if ns = [] then Inl EEXIST
     else (case locate fs (d, butlast ns) True of Inl e \<Rightarrow> Inl e | Inr p \<Rightarrow> Inr (p, last ns)))"

lemma resolve_names_snoc:
  "resolve_names fs fuel d trail (ns @ [n]) False =
     (case resolve_names fs fuel d trail ns True of
        Inl e \<Rightarrow> Inl e
      | Inr (p, tr) \<Rightarrow>
         (case dir_lookup fs p n of
            Inl e \<Rightarrow> Inl e
          | Inr i \<Rightarrow> (case fs_node fs i of None \<Rightarrow> Inl EIO | Some nd \<Rightarrow> Inr (i, trail_push tr n))))"
proof (induction fs fuel d trail ns True rule: resolve_names.induct)
  case (1 fs fuel d trail)
  then show ?case by (simp split: sum.split option.split)
next
  case (2 fs fuel d trail m ns)
  then show ?case by (simp split: sum.split option.split nat.split)
qed

text \<open>The entry that a removal finds is the node that an inspection just reported.\<close>

lemma locate_entry:
  assumes "locate fs loc False = Inr i" "locate_parent fs loc = Inr (p, n)" "dir_lookup fs p n = Inr j"
  shows "j = i"
proof -
  obtain d ns where loc: "loc = (d, ns)" by (cases loc)
  with assms(2) have ns: "ns \<noteq> []" by (auto simp: locate_parent_def)
  then have "ns = butlast ns @ [last ns]" by simp
  then show ?thesis
    using assms loc ns resolve_names_snoc [of fs SYMLOOP_MAX "start_dir fs d" "[]" "butlast ns" "last ns"]
    by (auto simp: locate_def locate_parent_def split: sum.splits option.splits prod.splits)
qed

lemma locate_at [simp]:
  "locate fs (Some d, [n]) False = (case dir_lookup fs d n of Inl e \<Rightarrow> Inl e
     | Inr i \<Rightarrow> (case fs_node fs i of None \<Rightarrow> Inl EIO | Some nd \<Rightarrow> Inr i))"
  "locate_parent fs (Some d, [n]) = Inr (d, n)"
  by (auto simp: locate_def locate_parent_def start_dir_def split: sum.split option.split)

subsection \<open>The world and its calls\<close>

datatype fs_event =
    Ev_Stat location metadata
  | Ev_Fstat file_id metadata
  | Ev_Open location file_id
  | Ev_Mkdir location file_id
  | Ev_Bind location file_id
  | Ev_Create location file_id
  | Ev_Link location file_id
  | Ev_Unlink location file_id node
  | Ev_Rmdir location file_id
  | Ev_Chmod file_id u32
  | Ev_Write file_id string
  | Ev_Read file_id string
  | Ev_Readdir file_id
  | Ev_Connect location
  | Ev_Path location
  | Ev_Lock file_id
  | Ev_Close file_id
  | Ev_Dup file_id
  | Ev_Sync file_id

record kernel =
  k_env :: "nat \<Rightarrow> unix_fs \<Rightarrow> unix_fs"
  k_fault :: "nat \<Rightarrow> errno option"
  k_ino :: "nat \<Rightarrow> u64"
  k_uid :: u32
  k_umask :: u32
  k_cwd :: file_id
  k_cwd_path :: string

record world =
  w_fs :: unix_fs
  w_tick :: nat
  w_log :: "(nat \<times> fs_event) list"

type_synonym ('e, 'a, 'z) sys = "'z world_scheme \<Rightarrow> ('e + 'a) \<times> 'z world_scheme"

type_synonym 'a call = "nat \<Rightarrow> unix_fs \<Rightarrow> errno + 'a \<times> unix_fs \<times> fs_event"

definition quiet :: "kernel \<Rightarrow> nat \<Rightarrow> bool" where
  "quiet K t \<longleftrightarrow> (\<forall>fs. k_env K t fs = fs)"

definition syscall :: "kernel \<Rightarrow> 'a call \<Rightarrow> (io_error, 'a, 'z) sys" where
  "syscall K f w =
     (let t = w_tick w;
          fs = k_env K t (w_fs w);
          w' = w\<lparr>w_fs := fs, w_tick := Suc t\<rparr>
      in case k_fault K t of
           Some e \<Rightarrow> (Inl (Os e), w')
         | None \<Rightarrow>
            (case f t fs of
               Inl e \<Rightarrow> (Inl (Os e), w')
             | Inr (x, fs', ev) \<Rightarrow> (Inr x, w'\<lparr>w_fs := fs', w_log := (t, ev) # w_log w\<rparr>)))"

definition update_node :: "unix_fs \<Rightarrow> file_id \<Rightarrow> (node \<Rightarrow> node) \<Rightarrow> unix_fs" where
  "update_node fs i f = fs\<lparr>fs_node := (fs_node fs)(i := map_option f (fs_node fs i))\<rparr>"

definition add_entry :: "unix_fs \<Rightarrow> file_id \<Rightarrow> string \<Rightarrow> file_id \<Rightarrow> unix_fs" where
  "add_entry fs d n i = update_node fs d (\<lambda>nd. nd\<lparr>nd_entries := (n, i) # nd_entries nd\<rparr>)"

definition remove_entry :: "unix_fs \<Rightarrow> file_id \<Rightarrow> string \<Rightarrow> unix_fs" where
  "remove_entry fs d n = update_node fs d (\<lambda>nd. nd\<lparr>nd_entries := AList.delete n (nd_entries nd)\<rparr>)"

text \<open>A node can be created under a free name of a directory that was not removed itself.\<close>

definition free_slot :: "unix_fs \<Rightarrow> location \<Rightarrow> errno + file_id \<times> string" where
  "free_slot fs loc =
     and_then (locate_parent fs loc) (\<lambda>(p, n).
     and_then (dir_lookup fs p ''.'') (\<lambda>_.
     (case dir_lookup fs p n of
        Inr i \<Rightarrow> Inl EEXIST
      | Inl e \<Rightarrow> if e = ENOENT then Inr (p, n) else Inl e)))"

definition new_node :: "kernel \<Rightarrow> (file_id \<Rightarrow> file_id \<Rightarrow> node) \<Rightarrow> (location \<Rightarrow> file_id \<Rightarrow> fs_event) \<Rightarrow> location \<Rightarrow> file_id call" where
  "new_node K mk ev loc t fs =
     and_then (free_slot fs loc) (\<lambda>(p, n).
       let i = Fid (fid_dev p) (k_ino K t) in
       if fs_node fs i \<noteq> None then Inl EIO
       else Inr (i, add_entry (fs\<lparr>fs_node := (fs_node fs)(i := Some (mk p i))\<rparr>) p n i, ev loc i))"

definition masked :: "kernel \<Rightarrow> u32 \<Rightarrow> u32" where
  "masked K mode = mode AND NOT (k_umask K)"

definition dir_node :: "kernel \<Rightarrow> u32 \<Rightarrow> file_id \<Rightarrow> file_id \<Rightarrow> node" where
  "dir_node K mode p i = \<lparr>nd_kind = Directory, nd_uid = k_uid K, nd_mode = masked K mode, nd_data = [],
     nd_entries = [(''.'', i), (''..'', p)], nd_listening = False\<rparr>"

definition socket_node :: "kernel \<Rightarrow> file_id \<Rightarrow> file_id \<Rightarrow> node" where
  "socket_node K p i = \<lparr>nd_kind = SocketFile, nd_uid = k_uid K, nd_mode = masked K 0x1FF, nd_data = [],
     nd_entries = [], nd_listening = True\<rparr>"

definition file_node :: "kernel \<Rightarrow> u32 \<Rightarrow> file_id \<Rightarrow> file_id \<Rightarrow> node" where
  "file_node K mode p i = \<lparr>nd_kind = RegularFile, nd_uid = k_uid K, nd_mode = masked K mode, nd_data = [],
     nd_entries = [], nd_listening = False\<rparr>"

definition sys_mkdir :: "kernel \<Rightarrow> location \<Rightarrow> u32 \<Rightarrow> (io_error, file_id, 'z) sys" where
  "sys_mkdir K loc mode = syscall K (new_node K (dir_node K mode) Ev_Mkdir loc)"

text \<open>Binding reports an address in use where a node exists.\<close>

definition sys_bind :: "kernel \<Rightarrow> location \<Rightarrow> (io_error, file_id, 'z) sys" where
  "sys_bind K loc = syscall K (\<lambda>t fs.
     case new_node K (socket_node K) Ev_Bind loc t fs of
       Inl e \<Rightarrow> Inl (if e = EEXIST then EADDRINUSE else e)
     | Inr r \<Rightarrow> Inr r)"

text \<open>\<open>O_CREAT | O_EXCL\<close>.\<close>

definition sys_create_new :: "kernel \<Rightarrow> location \<Rightarrow> u32 \<Rightarrow> (io_error, file_id, 'z) sys" where
  "sys_create_new K loc mode = syscall K (new_node K (file_node K mode) Ev_Create loc)"

text \<open>A call that only looks at the file system.\<close>

definition inspect :: "(unix_fs \<Rightarrow> errno + 'a) \<Rightarrow> ('a \<Rightarrow> fs_event) \<Rightarrow> 'a call" where
  "inspect f ev t fs = and_then (f fs) (\<lambda>x. Inr (x, fs, ev x))"

definition node_at :: "unix_fs \<Rightarrow> file_id \<Rightarrow> errno + node" where
  "node_at fs i = ok_or EIO (fs_node fs i)"

definition stat_call :: "location \<Rightarrow> bool \<Rightarrow> unix_fs \<Rightarrow> errno + metadata" where
  "stat_call loc follow fs =
     and_then (locate fs loc follow) (\<lambda>i. and_then (node_at fs i) (\<lambda>nd. Inr (stat_of i nd)))"

definition sys_stat :: "kernel \<Rightarrow> location \<Rightarrow> bool \<Rightarrow> (io_error, metadata, 'z) sys" where
  "sys_stat K loc follow = syscall K (inspect (stat_call loc follow) (Ev_Stat loc))"

definition sys_fstat :: "kernel \<Rightarrow> file_id \<Rightarrow> (io_error, metadata, 'z) sys" where
  "sys_fstat K i = syscall K (inspect (\<lambda>fs. and_then (node_at fs i) (\<lambda>nd. Inr (stat_of i nd))) (Ev_Fstat i))"

text \<open>Opening with \<open>O_DIRECTORY | O_NOFOLLOW\<close>.\<close>

definition sys_open_dir :: "kernel \<Rightarrow> location \<Rightarrow> (io_error, file_id, 'z) sys" where
  "sys_open_dir K loc = syscall K (inspect (\<lambda>fs.
     and_then (locate fs loc False) (\<lambda>i.
     and_then (node_at fs i) (\<lambda>nd.
       if nd_kind nd = Directory then Inr i
       else Inl (if nd_kind nd = Symlink then ELOOP else ENOTDIR)))) (Ev_Open loc))"

definition sys_readdir :: "kernel \<Rightarrow> file_id \<Rightarrow> (io_error, string list, 'z) sys" where
  "sys_readdir K i = syscall K (inspect (\<lambda>fs.
     and_then (node_at fs i) (\<lambda>nd. if nd_kind nd = Directory then Inr (map fst (nd_entries nd)) else Inl ENOTDIR))
     (\<lambda>_. Ev_Readdir i))"

text \<open>Connecting to anything but a listening socket is refused.\<close>

definition sys_connect :: "kernel \<Rightarrow> location \<Rightarrow> (io_error, unit, 'z) sys" where
  "sys_connect K loc = syscall K (inspect (\<lambda>fs.
     and_then (locate fs loc True) (\<lambda>i.
     and_then (node_at fs i) (\<lambda>nd.
       ensure (nd_kind nd = SocketFile \<and> nd_listening nd) ECONNREFUSED))) (\<lambda>_. Ev_Connect loc))"

definition sys_readlink :: "kernel \<Rightarrow> location \<Rightarrow> (io_error, string, 'z) sys" where
  "sys_readlink K loc = syscall K (inspect (\<lambda>fs.
     and_then (locate fs loc False) (\<lambda>i.
     and_then (node_at fs i) (\<lambda>nd. if nd_kind nd = Symlink then Inr (nd_data nd) else Inl EINVAL)))
     (\<lambda>_. Ev_Path loc))"

text \<open>\<open>fs::canonicalize\<close>: the names from the root with every link resolved.\<close>

definition sys_canonicalize :: "kernel \<Rightarrow> file_id option \<Rightarrow> string list \<Rightarrow> string list \<Rightarrow> (io_error, string list, 'z) sys" where
  "sys_canonicalize K d trail ns = syscall K (inspect (\<lambda>fs.
     and_then (resolve_names fs SYMLOOP_MAX (start_dir fs d) trail ns True) (\<lambda>(i, tr). Inr tr)) (\<lambda>_. Ev_Path (d, ns)))"

text \<open>Opening a file, following links, and reading all of it.\<close>

definition sys_read :: "kernel \<Rightarrow> location \<Rightarrow> (io_error, string, 'z) sys" where
  "sys_read K loc = syscall K (\<lambda>t fs.
     and_then (locate fs loc True) (\<lambda>i.
     and_then (node_at fs i) (\<lambda>nd.
       if nd_kind nd = RegularFile then Inr (nd_data nd, fs, Ev_Read i (nd_data nd))
       else Inl (if nd_kind nd = Directory then EISDIR else EINVAL))))"

text \<open>A call that changes a node.\<close>

definition sys_update :: "kernel \<Rightarrow> (unix_fs \<Rightarrow> errno + file_id) \<Rightarrow> (node \<Rightarrow> node) \<Rightarrow> (file_id \<Rightarrow> fs_event) \<Rightarrow>
    (io_error, unit, 'z) sys" where
  "sys_update K which f ev = syscall K (\<lambda>t fs.
     and_then (which fs) (\<lambda>i. and_then (node_at fs i) (\<lambda>nd. Inr ((), update_node fs i f, ev i))))"

definition sys_chmod :: "kernel \<Rightarrow> location \<Rightarrow> u32 \<Rightarrow> (io_error, unit, 'z) sys" where
  "sys_chmod K loc mode =
     sys_update K (\<lambda>fs. locate fs loc True) (\<lambda>nd. nd\<lparr>nd_mode := mode\<rparr>) (\<lambda>i. Ev_Chmod i mode)"

definition sys_fchmod :: "kernel \<Rightarrow> file_id \<Rightarrow> u32 \<Rightarrow> (io_error, unit, 'z) sys" where
  "sys_fchmod K i mode = sys_update K (\<lambda>fs. Inr i) (\<lambda>nd. nd\<lparr>nd_mode := mode\<rparr>) (\<lambda>i. Ev_Chmod i mode)"

definition sys_write :: "kernel \<Rightarrow> file_id \<Rightarrow> string \<Rightarrow> (io_error, unit, 'z) sys" where
  "sys_write K i bytes = sys_update K (\<lambda>fs. Inr i) (\<lambda>nd. nd\<lparr>nd_data := bytes\<rparr>) (\<lambda>i. Ev_Write i bytes)"

text \<open>Closing a listener: its socket refuses connections from then on.\<close>

definition sys_close :: "kernel \<Rightarrow> file_id \<Rightarrow> (io_error, unit, 'z) sys" where
  "sys_close K i = sys_update K (\<lambda>fs. Inr i) (\<lambda>nd. nd\<lparr>nd_listening := False\<rparr>) Ev_Close"

definition sys_flock :: "kernel \<Rightarrow> file_id \<Rightarrow> (io_error, unit, 'z) sys" where
  "sys_flock K i = sys_update K (\<lambda>fs. Inr i) id Ev_Lock"

definition sys_sync :: "kernel \<Rightarrow> file_id \<Rightarrow> (io_error, unit, 'z) sys" where
  "sys_sync K i = sys_update K (\<lambda>fs. Inr i) id Ev_Sync"

definition unlink_call :: "location \<Rightarrow> file_id call" where
  "unlink_call loc t fs =
     and_then (locate_parent fs loc) (\<lambda>(p, n).
     and_then (dir_lookup fs p n) (\<lambda>i.
     and_then (node_at fs i) (\<lambda>nd.
       if nd_kind nd = Directory then Inl EISDIR
       else Inr (i, remove_entry fs p n, Ev_Unlink loc i nd))))"

definition sys_unlink :: "kernel \<Rightarrow> location \<Rightarrow> (io_error, file_id, 'z) sys" where
  "sys_unlink K loc = syscall K (unlink_call loc)"

text \<open>A removed directory loses its own entries: nothing can be found or created in it.\<close>

definition rmdir_call :: "location \<Rightarrow> file_id call" where
  "rmdir_call loc t fs =
     and_then (locate_parent fs loc) (\<lambda>(p, n).
     and_then (dir_lookup fs p n) (\<lambda>i.
     and_then (node_at fs i) (\<lambda>nd.
       if nd_kind nd \<noteq> Directory then Inl ENOTDIR
       else if n = ''.'' then Inl EINVAL
       else if \<not> list_all (\<lambda>e. fst e = ''.'' \<or> fst e = ''..'') (nd_entries nd) then Inl ENOTEMPTY
       else Inr (i, update_node (remove_entry fs p n) i (\<lambda>nd. nd\<lparr>nd_entries := []\<rparr>), Ev_Rmdir loc i))))"

definition sys_rmdir :: "kernel \<Rightarrow> location \<Rightarrow> (io_error, file_id, 'z) sys" where
  "sys_rmdir K loc = syscall K (rmdir_call loc)"

text \<open>\<open>fs::hard_link\<close> does not follow its source and never replaces its target.\<close>

definition sys_link :: "kernel \<Rightarrow> location \<Rightarrow> location \<Rightarrow> (io_error, unit, 'z) sys" where
  "sys_link K source target = syscall K (\<lambda>t fs.
     and_then (locate fs source False) (\<lambda>i.
     and_then (node_at fs i) (\<lambda>nd.
     and_then (free_slot fs target) (\<lambda>(p, n).
       if nd_kind nd = Directory then Inl EACCES
       else if fid_dev p \<noteq> fid_dev i then Inl EXDEV
       else Inr ((), add_entry fs p n i, Ev_Link target i)))))"

definition path_loc :: "kernel \<Rightarrow> string \<Rightarrow> location" where
  "path_loc K path = (if is_absolute path then None else Some (k_cwd K), names_of path)"

definition sys_getcwd :: "kernel \<Rightarrow> (io_error, string, 'z) sys" where
  "sys_getcwd K = syscall K (inspect (\<lambda>fs. Inr (k_cwd_path K)) (\<lambda>_. Ev_Path (Some (k_cwd K), [])))"

text \<open>A second descriptor for the same node.\<close>

definition sys_dup :: "kernel \<Rightarrow> file_id \<Rightarrow> (io_error, file_id, 'z) sys" where
  "sys_dup K i = syscall K (inspect (\<lambda>fs. Inr i) (\<lambda>_. Ev_Dup i))"

text \<open>
  Opening with \<open>O_CREAT | O_NOFOLLOW\<close>: the file that is there, or a new one.
\<close>

definition sys_open_create :: "kernel \<Rightarrow> location \<Rightarrow> u32 \<Rightarrow> (io_error, file_id, 'z) sys" where
  "sys_open_create K loc mode = syscall K (\<lambda>t fs.
     case locate fs loc False of
       Inl e \<Rightarrow> if e = ENOENT then new_node K (file_node K mode) Ev_Create loc t fs else Inl e
     | Inr i \<Rightarrow> and_then (node_at fs i) (\<lambda>nd.
         if nd_kind nd = Symlink then Inl ELOOP
         else if nd_kind nd = Directory then Inl EISDIR
         else Inr (i, fs, Ev_Open loc i)))"

subsection \<open>Sequences of calls\<close>

text \<open>
  \<open>sys_then\<close> is the question mark operator, \<open>sys_match\<close> a match on the result, and
  \<open>sys_context\<close> changes the error. A triple holds of a program when its result and its final
  world satisfy the second assertion whenever the initial world satisfies the first.
\<close>

definition sys_return :: "'a \<Rightarrow> ('e, 'a, 'z) sys" where
  "sys_return x w = (Inr x, w)"

definition sys_fail :: "'e \<Rightarrow> ('e, 'a, 'z) sys" where
  "sys_fail e w = (Inl e, w)"

definition sys_result :: "'e + 'a \<Rightarrow> ('e, 'a, 'z) sys" where
  "sys_result r w = (r, w)"

definition sys_match :: "('e, 'a, 'z) sys \<Rightarrow> ('e + 'a \<Rightarrow> ('f, 'b, 'z) sys) \<Rightarrow> ('f, 'b, 'z) sys" where
  "sys_match m k w = (case m w of (r, w') \<Rightarrow> k r w')"

definition sys_then :: "('e, 'a, 'z) sys \<Rightarrow> ('a \<Rightarrow> ('e, 'b, 'z) sys) \<Rightarrow> ('e, 'b, 'z) sys" where
  "sys_then m k w = (case m w of (Inl e, w') \<Rightarrow> (Inl e, w') | (Inr x, w') \<Rightarrow> k x w')"

definition sys_context :: "('e \<Rightarrow> 'f) \<Rightarrow> ('e, 'a, 'z) sys \<Rightarrow> ('f, 'a, 'z) sys" where
  "sys_context g m w = (case m w of (r, w') \<Rightarrow> (map_err g r, w'))"

definition sys_ensure :: "bool \<Rightarrow> 'e \<Rightarrow> ('e, unit, 'z) sys" where
  "sys_ensure b e = (if b then sys_return () else sys_fail e)"

lemmas sys_defs = sys_return_def sys_fail_def sys_result_def sys_match_def sys_then_def sys_context_def
  sys_ensure_def

text \<open>Inversion of a run.\<close>

lemma sys_thenE:
  assumes "sys_then m k w = (r, w')"
  obtains (error) e where "m w = (Inl e, w')" "r = Inl e" | (ok) x w1 where "m w = (Inr x, w1)" "k x w1 = (r, w')"
  using assms by (auto simp: sys_then_def split: prod.splits sum.splits)

lemma sys_matchE:
  assumes "sys_match m k w = (r, w')"
  obtains q w1 where "m w = (q, w1)" "k q w1 = (r, w')"
  using assms by (auto simp: sys_match_def split: prod.splits)

lemma sys_contextE:
  assumes "sys_context g m w = (r, w')"
  obtains (error) e where "m w = (Inl e, w')" "r = Inl (g e)" | (ok) x where "m w = (Inr x, w')" "r = Inr x"
  using assms by (auto simp: sys_context_def split: prod.splits) (metis map_err.simps old.sum.exhaust)

lemma sys_return_iff [simp]: "sys_return x w = (r, w') \<longleftrightarrow> r = Inr x \<and> w' = w"
  by (auto simp: sys_return_def)

lemma sys_fail_iff [simp]: "sys_fail e w = (r, w') \<longleftrightarrow> r = Inl e \<and> w' = w"
  by (auto simp: sys_fail_def)

definition triple :: "('z world_scheme \<Rightarrow> bool) \<Rightarrow> ('e, 'a, 'z) sys \<Rightarrow> ('e + 'a \<Rightarrow> 'z world_scheme \<Rightarrow> bool) \<Rightarrow> bool" where
  "triple P m Q \<longleftrightarrow> (\<forall>w. P w \<longrightarrow> Q (fst (m w)) (snd (m w)))"

lemma tripleI: "(\<And>w r w'. P w \<Longrightarrow> m w = (r, w') \<Longrightarrow> Q r w') \<Longrightarrow> triple P m Q"
  by (simp add: triple_def)

lemma tripleD: "triple P m Q \<Longrightarrow> m w = (r, w') \<Longrightarrow> P w \<Longrightarrow> Q r w'"
  unfolding triple_def by (metis fst_conv snd_conv)

lemma triple_weaken:
  "triple P' m Q' \<Longrightarrow> (\<And>w. P w \<Longrightarrow> P' w) \<Longrightarrow> (\<And>r w. Q' r w \<Longrightarrow> Q r w) \<Longrightarrow> triple P m Q"
  by (simp add: triple_def)

lemma triple_return [triple_rules]: "triple (Q (Inr x)) (sys_return x) Q"
  by (simp add: triple_def sys_return_def)

lemma triple_fail [triple_rules]: "triple (Q (Inl e)) (sys_fail e) Q"
  by (simp add: triple_def sys_fail_def)

lemma triple_result [triple_rules]: "triple (Q r) (sys_result r) Q"
  by (simp add: triple_def sys_result_def)

lemma triple_match:
  "triple P m R \<Longrightarrow> (\<And>r. triple (R r) (k r) Q) \<Longrightarrow> triple P (sys_match m k) Q"
  by (simp add: triple_def sys_match_def split: prod.split) (metis fst_conv snd_conv)

lemma triple_cases:
  assumes "triple P m R" "\<And>e. triple (R (Inl e)) (f e) Q" "\<And>x. triple (R (Inr x)) (g x) Q"
  shows "triple P (sys_match m (\<lambda>r. case r of Inl e \<Rightarrow> f e | Inr x \<Rightarrow> g x)) Q"
  by (rule triple_match [OF assms(1)]) (simp add: assms(2,3) split: sum.split)

lemma triple_then:
  "triple P m R \<Longrightarrow> (\<And>x. triple (R (Inr x)) (k x) Q) \<Longrightarrow> (\<And>e w. R (Inl e) w \<Longrightarrow> Q (Inl e) w) \<Longrightarrow>
   triple P (sys_then m k) Q"
  by (auto simp: triple_def sys_then_def split: prod.split sum.split)

text \<open>A step that cannot fail.\<close>

lemma sys_then_ok: "fst (m w) = Inr () \<Longrightarrow> (\<And>w. fst (k () w) = Inr x) \<Longrightarrow> fst (sys_then m k w) = Inr x"
  by (auto simp: sys_then_def split: prod.split sum.split)

lemma triple_then_ok:
  assumes "\<And>w. fst (m w) = Inr ()" "triple P m (\<lambda>_. R)" "triple R (k ()) Q"
  shows "triple P (sys_then m k) Q"
  unfolding triple_def
proof (intro allI impI)
  fix w
  assume "P w"
  obtain w' where "m w = (Inr (), w')" using assms(1) [of w] by (metis prod.collapse)
  with \<open>P w\<close> assms(2,3) show "Q (fst (sys_then m k w)) (snd (sys_then m k w))"
    unfolding triple_def by (metis (no_types, lifting) snd_conv sys_then_def case_prod_conv sum.case(2))
qed

lemma triple_context: "triple P m (\<lambda>r. Q (map_err g r)) \<Longrightarrow> triple P (sys_context g m) Q"
  by (auto simp: triple_def sys_context_def split: prod.split)

text \<open>
  What a program adds to the log: only events of a set, at ticks that have not passed before.
\<close>

definition log_wf :: "'z world_scheme \<Rightarrow> bool" where
  "log_wf w \<longleftrightarrow> (\<forall>(t, ev) \<in> set (w_log w). t < w_tick w)"

definition adds :: "(nat \<times> fs_event) set \<Rightarrow> 'z world_scheme \<Rightarrow> 'z world_scheme \<Rightarrow> bool" where
  "adds S w w' \<longleftrightarrow> (\<exists>new. w_log w' = new @ w_log w \<and> w_tick w \<le> w_tick w' \<and>
     (\<forall>(t, ev) \<in> set new. (t, ev) \<in> S \<and> w_tick w \<le> t \<and> t < w_tick w'))"

definition logs :: "(nat \<times> fs_event) set \<Rightarrow> ('e, 'a, 'z) sys \<Rightarrow> bool" where
  "logs S m \<longleftrightarrow> (\<forall>w. adds S w (snd (m w)))"

lemma logs_adds: "logs S m \<Longrightarrow> m w = (r, w') \<Longrightarrow> adds S w w'"
  unfolding logs_def by (metis snd_conv)

lemma logsI: "(\<And>w r w'. m w = (r, w') \<Longrightarrow> adds S w w') \<Longrightarrow> logs S m"
  unfolding logs_def by (metis prod.collapse)

lemma adds_refl [simp]: "adds S w w"
  by (simp add: adds_def)

lemma adds_trans: "adds S w w1 \<Longrightarrow> adds S w1 w2 \<Longrightarrow> adds S w w2"
  unfolding adds_def
proof (elim exE conjE)
  fix n1 n2
  assume "w_log w1 = n1 @ w_log w" "w_tick w \<le> w_tick w1" "\<forall>(t, ev) \<in> set n1. (t, ev) \<in> S \<and> w_tick w \<le> t \<and> t < w_tick w1"
    "w_log w2 = n2 @ w_log w1" "w_tick w1 \<le> w_tick w2" "\<forall>(t, ev) \<in> set n2. (t, ev) \<in> S \<and> w_tick w1 \<le> t \<and> t < w_tick w2"
  then show "\<exists>new. w_log w2 = new @ w_log w \<and> w_tick w \<le> w_tick w2 \<and>
     (\<forall>(t, ev) \<in> set new. (t, ev) \<in> S \<and> w_tick w \<le> t \<and> t < w_tick w2)"
    by (intro exI [of _ "n2 @ n1"]) fastforce
qed

lemma adds_mono: "adds S w w' \<Longrightarrow> S \<subseteq> T \<Longrightarrow> adds T w w'"
  unfolding adds_def by (elim exE conjE) (intro exI conjI, assumption+, blast)

lemma adds_weaken:
  assumes "adds S w w'" "\<And>t ev. (t, ev) \<in> S \<Longrightarrow> w_tick w \<le> t \<Longrightarrow> (t, ev) \<in> T"
  shows "adds T w w'"
  using assms unfolding adds_def by (elim exE conjE) (intro exI conjI, assumption+, fastforce)

lemma adds_past: "adds S w w' \<Longrightarrow> set (w_log w) \<subseteq> set (w_log w') \<and> w_tick w \<le> w_tick w'"
  unfolding adds_def by auto

lemma logsD:
  assumes "logs S m" "m w = (r, w')"
  obtains new where "w_log w' = new @ w_log w" "w_tick w \<le> w_tick w'"
    "\<And>t ev. (t, ev) \<in> set new \<Longrightarrow> (t, ev) \<in> S \<and> w_tick w \<le> t \<and> t < w_tick w'"
  using logs_adds [OF assms] unfolding adds_def by blast

lemma logs_past:
  "logs S m \<Longrightarrow> m w = (r, w') \<Longrightarrow> set (w_log w) \<subseteq> set (w_log w') \<and> w_tick w \<le> w_tick w'"
  using logs_adds adds_past by blast

lemma logs_mono: "logs S m \<Longrightarrow> S \<subseteq> T \<Longrightarrow> logs T m"
  unfolding logs_def using adds_mono by blast

lemma logs_wf: "logs S m \<Longrightarrow> m w = (r, w') \<Longrightarrow> log_wf w \<Longrightarrow> log_wf w'"
  by (erule logsD, assumption) (force simp: log_wf_def)

lemma logs_pure [simp]: "logs S (sys_return x)" "logs S (sys_fail e)" "logs S (sys_result r)"
  by (simp_all add: logs_def sys_return_def sys_fail_def sys_result_def)

lemma logs_ensure [simp]: "logs S (sys_ensure b e)"
  by (simp add: sys_ensure_def)

lemma logs_match:
  assumes "logs S m" "\<And>r. logs S (k r)"
  shows "logs S (sys_match m k)"
proof (rule logsI)
  fix w r w'
  assume "sys_match m k w = (r, w')"
  then obtain q w1 where "m w = (q, w1)" "k q w1 = (r, w')" by (auto simp: sys_match_def split: prod.splits)
  then show "adds S w w'" using logs_adds [OF assms(1)] logs_adds [OF assms(2)] by (blast intro: adds_trans)
qed

lemma sys_then_match: "sys_then m k = sys_match m (\<lambda>r. case r of Inl e \<Rightarrow> sys_fail e | Inr x \<Rightarrow> k x)"
  by (rule ext) (simp add: sys_defs split: prod.split sum.split)

lemma sys_context_match: "sys_context g m = sys_match m (\<lambda>r. sys_result (map_err g r))"
  by (rule ext) (simp add: sys_defs split: prod.split)

lemma logs_then: "logs S m \<Longrightarrow> (\<And>x. logs S (k x)) \<Longrightarrow> logs S (sys_then m k)"
  unfolding sys_then_match by (rule logs_match) (simp_all split: sum.split)

lemma logs_context: "logs S m \<Longrightarrow> logs S (sys_context g m)"
  unfolding sys_context_match by (rule logs_match) simp_all

lemma logs_if: "logs S a \<Longrightarrow> logs S b \<Longrightarrow> logs S (if c then a else b)"
  by simp

lemma logs_syscall: "(\<And>t fs x fs' ev. f t fs = Inr (x, fs', ev) \<Longrightarrow> (t, ev) \<in> S) \<Longrightarrow> logs S (syscall K f)"
  by (auto simp: logs_def adds_def syscall_def Let_def split: option.split sum.split)


text \<open>The calls by what they log; only two of them remove an entry.\<close>

fun is_removal :: "fs_event \<Rightarrow> bool" where
  "is_removal (Ev_Unlink loc i nd) = True"
| "is_removal (Ev_Rmdir loc i) = True"
| "is_removal _ = False"

abbreviation keeps_entries :: "(nat \<times> fs_event) set" where
  "keeps_entries \<equiv> {(t, ev). \<not> is_removal ev}"

lemma new_node_Inr_iff [result_simps]:
  "new_node K mk ev loc t fs = Inr (j, fs', e) \<longleftrightarrow>
     (\<exists>p n. free_slot fs loc = Inr (p, n) \<and> j = Fid (fid_dev p) (k_ino K t) \<and> fs_node fs j = None \<and>
        fs' = add_entry (fs\<lparr>fs_node := (fs_node fs)(j := Some (mk p j))\<rparr>) p n j \<and> e = ev loc j)"
  by (auto simp: new_node_def result_simps Let_def split: if_splits)

lemma unlink_call_Inr_iff [result_simps]:
  "unlink_call loc t fs = Inr (i, fs', e) \<longleftrightarrow>
     (\<exists>p n nd. locate_parent fs loc = Inr (p, n) \<and> dir_lookup fs p n = Inr i \<and> fs_node fs i = Some nd \<and>
        nd_kind nd \<noteq> Directory \<and> fs' = remove_entry fs p n \<and> e = Ev_Unlink loc i nd)"
  by (fastforce simp: unlink_call_def node_at_def result_simps split: if_splits)

lemma rmdir_call_Inr_iff [result_simps]:
  "rmdir_call loc t fs = Inr (i, fs', e) \<longleftrightarrow>
     (\<exists>p n nd. locate_parent fs loc = Inr (p, n) \<and> dir_lookup fs p n = Inr i \<and> fs_node fs i = Some nd \<and>
        nd_kind nd = Directory \<and> n \<noteq> ''.'' \<and>
        list_all (\<lambda>e. fst e = ''.'' \<or> fst e = ''..'') (nd_entries nd) \<and>
        fs' = update_node (remove_entry fs p n) i (\<lambda>nd. nd\<lparr>nd_entries := []\<rparr>) \<and> e = Ev_Rmdir loc i)"
  by (fastforce simp: rmdir_call_def node_at_def result_simps split: if_splits)

lemma inspect_Inr_iff [result_simps]:
  "inspect f ev t fs = Inr (x, fs', e) \<longleftrightarrow> f fs = Inr x \<and> fs' = fs \<and> e = ev x"
  by (auto simp: inspect_def result_simps)

lemma logs_inspect: "(\<And>t x. (t, ev x) \<in> S) \<Longrightarrow> logs S (syscall K (inspect f ev))"
  by (rule logs_syscall) (auto simp: result_simps)

lemma logs_update: "(\<And>t i. (t, ev i) \<in> S) \<Longrightarrow> logs S (sys_update K which f ev)"
  unfolding sys_update_def by (rule logs_syscall) (auto simp: result_simps)

lemma logs_looks [simp]:
  "(\<And>t md. (t, Ev_Stat loc md) \<in> S) \<Longrightarrow> logs S (sys_stat K loc follow)"
  "(\<And>t md. (t, Ev_Fstat i md) \<in> S) \<Longrightarrow> logs S (sys_fstat K i)"
  "(\<And>t i. (t, Ev_Open loc i) \<in> S) \<Longrightarrow> logs S (sys_open_dir K loc)"
  "(\<And>t. (t, Ev_Readdir i) \<in> S) \<Longrightarrow> logs S (sys_readdir K i)"
  "(\<And>t. (t, Ev_Connect loc) \<in> S) \<Longrightarrow> logs S (sys_connect K loc)"
  "(\<And>t. (t, Ev_Path loc) \<in> S) \<Longrightarrow> logs S (sys_readlink K loc)"
  "(\<And>t. (t, Ev_Path (d, ns)) \<in> S) \<Longrightarrow> logs S (sys_canonicalize K d trail ns)"
  "(\<And>t. (t, Ev_Path (Some (k_cwd K), [])) \<in> S) \<Longrightarrow> logs S (sys_getcwd K)"
  "(\<And>t. (t, Ev_Dup i) \<in> S) \<Longrightarrow> logs S (sys_dup K i)"
  by (simp_all add: sys_getcwd_def sys_dup_def sys_stat_def sys_fstat_def sys_open_dir_def sys_readdir_def sys_connect_def
      sys_readlink_def sys_canonicalize_def logs_inspect)

lemma logs_changes [simp]:
  "(\<And>t i. (t, Ev_Chmod i mode) \<in> S) \<Longrightarrow> logs S (sys_chmod K loc mode)"
  "(\<And>t i. (t, Ev_Chmod i mode) \<in> S) \<Longrightarrow> logs S (sys_fchmod K j mode)"
  "(\<And>t i. (t, Ev_Write i bytes) \<in> S) \<Longrightarrow> logs S (sys_write K j bytes)"
  "(\<And>t i. (t, Ev_Close i) \<in> S) \<Longrightarrow> logs S (sys_close K j)"
  "(\<And>t i. (t, Ev_Lock i) \<in> S) \<Longrightarrow> logs S (sys_flock K j)"
  "(\<And>t i. (t, Ev_Sync i) \<in> S) \<Longrightarrow> logs S (sys_sync K j)"
  by (simp_all add: sys_sync_def sys_chmod_def sys_fchmod_def sys_write_def sys_close_def sys_flock_def logs_update)

lemma logs_creates [simp]:
  "(\<And>t i. (t, Ev_Mkdir loc i) \<in> S) \<Longrightarrow> logs S (sys_mkdir K loc mode)"
  "(\<And>t i. (t, Ev_Create loc i) \<in> S) \<Longrightarrow> logs S (sys_create_new K loc mode)"
  "(\<And>t i. (t, Ev_Bind loc i) \<in> S) \<Longrightarrow> logs S (sys_bind K loc)"
  "(\<And>t i. (t, Ev_Link target i) \<in> S) \<Longrightarrow> logs S (sys_link K source target)"
  "(\<And>t i. (t, Ev_Create loc i) \<in> S) \<Longrightarrow> (\<And>t i. (t, Ev_Open loc i) \<in> S) \<Longrightarrow> logs S (sys_open_create K loc mode)"
  "(\<And>t i bytes. (t, Ev_Read i bytes) \<in> S) \<Longrightarrow> logs S (sys_read K loc)"
  unfolding sys_mkdir_def sys_create_new_def sys_bind_def sys_link_def sys_open_create_def sys_read_def
  by (rule logs_syscall; auto simp: result_simps split: sum.splits if_splits)+

lemma logs_removes [simp]:
  "(\<And>t i nd. (t, Ev_Unlink loc i nd) \<in> S) \<Longrightarrow> logs S (sys_unlink K loc)"
  "(\<And>t i. (t, Ev_Rmdir loc i) \<in> S) \<Longrightarrow> logs S (sys_rmdir K loc)"
  unfolding sys_unlink_def sys_rmdir_def by (rule logs_syscall; auto simp: result_simps)+

lemmas logs_intros = logs_match logs_then logs_context logs_if

text \<open>
  Inspect, then remove: when no other process acts between the two calls, the node whose entry is
  removed is the one that was inspected.
\<close>

definition stat_saw :: "kernel \<Rightarrow> location \<Rightarrow> metadata \<Rightarrow> 'z world_scheme \<Rightarrow> bool" where
  "stat_saw K loc md w \<longleftrightarrow> stat_call loc False (w_fs w) = Inr md \<and>
     (\<exists>log. w_log w = (w_tick w - 1, Ev_Stat loc md) # log) \<and> 0 < w_tick w"

lemma sys_stat_saw:
  "sys_stat K loc False w = (Inr md, w') \<Longrightarrow>
     stat_saw K loc md w' \<and> w_tick w' = Suc (w_tick w) \<and> w_log w' = (w_tick w, Ev_Stat loc md) # w_log w"
  by (auto simp: sys_stat_def syscall_def stat_saw_def Let_def result_simps split: option.splits sum.splits)

lemma unlink_victim:
  assumes "stat_saw K loc md w" "sys_unlink K loc w = (r, w')"
  shows "w_log w' = w_log w \<or>
    (\<exists>v nd. w_log w' = (w_tick w, Ev_Unlink loc v nd) # w_log w \<and>
       (quiet K (w_tick w) \<longrightarrow> v = md_id md \<and> stat_of v nd = md \<and> fs_node (w_fs w) v = Some nd))"
  using assms locate_entry [of "w_fs w" loc "md_id md"]
  by (auto simp: sys_unlink_def syscall_def stat_saw_def Let_def result_simps quiet_def stat_call_def
      node_at_def split: option.splits sum.splits)

lemma rmdir_victim:
  assumes "stat_saw K loc md w" "sys_rmdir K loc w = (r, w')"
  shows "w_log w' = w_log w \<or>
    (\<exists>v. w_log w' = (w_tick w, Ev_Rmdir loc v) # w_log w \<and> (quiet K (w_tick w) \<longrightarrow> v = md_id md))"
  using assms locate_entry [of "w_fs w" loc "md_id md"]
  by (auto simp: sys_rmdir_def syscall_def stat_saw_def Let_def result_simps quiet_def stat_call_def
      node_at_def split: option.splits sum.splits)


text \<open>A program that leaves the rest of its state alone, beyond the file system.\<close>

definition frames :: "('e, 'a, 'z) sys \<Rightarrow> bool" where
  "frames m \<longleftrightarrow> (\<forall>w. world.more (snd (m w)) = world.more w)"

lemma frames_syscall [simp]: "frames (syscall K f)"
  by (simp add: frames_def syscall_def Let_def split: option.split sum.split)

lemma frames_calls [simp]:
  "frames (sys_stat K loc follow)" "frames (sys_fstat K i)" "frames (sys_open_dir K loc)"
  "frames (sys_readdir K i)" "frames (sys_connect K loc)" "frames (sys_readlink K loc)"
  "frames (sys_canonicalize K d trail ns)" "frames (sys_getcwd K)" "frames (sys_dup K i)"
  "frames (sys_chmod K loc mode)" "frames (sys_fchmod K j mode)" "frames (sys_write K j bytes)"
  "frames (sys_close K j)" "frames (sys_flock K j)" "frames (sys_mkdir K loc mode)"
  "frames (sys_create_new K loc mode)" "frames (sys_bind K loc)" "frames (sys_link K source target)"
  "frames (sys_open_create K loc mode)" "frames (sys_read K loc)" "frames (sys_unlink K loc)"
  "frames (sys_rmdir K loc)" "frames (sys_sync K j)"
  by (simp_all add: sys_sync_def sys_getcwd_def sys_dup_def sys_stat_def sys_fstat_def sys_open_dir_def sys_readdir_def
      sys_connect_def sys_readlink_def sys_canonicalize_def sys_chmod_def sys_fchmod_def sys_write_def
      sys_close_def sys_flock_def sys_mkdir_def sys_create_new_def sys_bind_def sys_link_def
      sys_open_create_def sys_read_def sys_unlink_def sys_rmdir_def sys_update_def)

lemma frames_pure [simp]: "frames (sys_return x)" "frames (sys_fail e)" "frames (sys_result r)"
  "frames (sys_ensure b e)"
  by (simp_all add: frames_def sys_defs)

lemma frames_match: "frames m \<Longrightarrow> (\<And>r. frames (k r)) \<Longrightarrow> frames (sys_match m k)"
  by (auto simp: frames_def sys_match_def split: prod.split) (metis snd_conv)

lemma frames_then: "frames m \<Longrightarrow> (\<And>x. frames (k x)) \<Longrightarrow> frames (sys_then m k)"
  unfolding sys_then_match by (rule frames_match) (simp_all split: sum.split)

lemma frames_context: "frames m \<Longrightarrow> frames (sys_context g m)"
  unfolding sys_context_match by (rule frames_match) simp_all

lemma frames_if: "frames a \<Longrightarrow> frames b \<Longrightarrow> frames (if c then a else b)"
  by simp

lemmas frames_intros = frames_match frames_then frames_context frames_if

text \<open>\<open>fstatat\<close> without following links, an absent entry being no error.\<close>

definition stat_at :: "kernel \<Rightarrow> file_id \<Rightarrow> string \<Rightarrow> (io_error, metadata option, 'z) sys" where
  "stat_at K parent name = sys_match (sys_stat K (Some parent, [name]) False) (\<lambda>r. case r of
     Inr md \<Rightarrow> sys_return (Some md)
   | Inl e \<Rightarrow> if io_kind_of e = NotFoundKind then sys_return None else sys_fail e)"

lemma logs_stat_at [simp]: "(\<And>t md. (t, Ev_Stat (Some d, [n]) md) \<in> S) \<Longrightarrow> logs S (stat_at K d n)"
  unfolding stat_at_def by (intro logs_intros) (simp_all split: sum.split)

lemma frames_stat_at [simp]: "frames (stat_at K d n)"
  unfolding stat_at_def by (intro frames_intros) (simp_all split: sum.split)

lemma stat_at_saw:
  "stat_at K d n w = (Inr (Some md), w') \<Longrightarrow> stat_saw K (Some d, [n]) md w' \<and> w_tick w' = Suc (w_tick w)"
  using sys_stat_saw [of K "(Some d, [n])" w]
  by (fastforce simp: stat_at_def sys_defs split: prod.splits sum.splits if_splits)


text \<open>
  Create, then look: when no other process acts between the two calls, the node that is found
  under the name is the one that was created.
\<close>

lemma new_node_found:
  assumes "new_node K mk ev (Some d, [n]) t fs = Inr (i, fs', e)"
  shows "dir_lookup fs' d n = Inr i" "fs_node fs' i = Some (mk d i)"
proof -
  obtain p m where slot: "free_slot fs (Some d, [n]) = Inr (p, m)" and i: "fs_node fs i = None"
    and fs': "fs' = add_entry (fs\<lparr>fs_node := (fs_node fs)(i := Some (mk p i))\<rparr>) p m i"
    using assms by (auto simp: result_simps)
  have pm: "p = d" "m = n" and ex: "\<exists>nd. fs_node fs d = Some nd \<and> nd_kind nd = Directory"
    using slot by (auto simp: free_slot_def dir_lookup_def result_simps split: option.splits if_splits sum.splits)
  from ex i have "i \<noteq> d" by auto
  with ex show "dir_lookup fs' d n = Inr i" "fs_node fs' i = Some (mk d i)"
    by (auto simp: fs' pm add_entry_def update_node_def dir_lookup_def)
qed

lemma syscall_Inr:
  "syscall K f w = (Inr x, w') \<longleftrightarrow> k_fault K (w_tick w) = None \<and>
     (\<exists>fs ev. f (w_tick w) (k_env K (w_tick w) (w_fs w)) = Inr (x, fs, ev) \<and>
        w' = w\<lparr>w_fs := fs, w_tick := Suc (w_tick w), w_log := (w_tick w, ev) # w_log w\<rparr>)"
  by (auto simp: syscall_def Let_def split: option.splits sum.splits)

lemma new_node_event: "new_node K mk ev loc t fs = Inr (i, fs', e) \<Longrightarrow> e = ev loc i"
  by (auto simp: new_node_Inr_iff)

lemma sys_mkdir_Inr:
  assumes "sys_mkdir K loc mode w = (Inr i, w')"
  shows "new_node K (dir_node K mode) Ev_Mkdir loc (w_tick w) (k_env K (w_tick w) (w_fs w)) = Inr (i, w_fs w', Ev_Mkdir loc i)"
    "w_tick w' = Suc (w_tick w)" "w_log w' = (w_tick w, Ev_Mkdir loc i) # w_log w"
  using assms unfolding sys_mkdir_def syscall_Inr by (auto dest: new_node_event)

lemma sys_bind_Inr:
  assumes "sys_bind K loc w = (Inr i, w')"
  shows "new_node K (socket_node K) Ev_Bind loc (w_tick w) (k_env K (w_tick w) (w_fs w)) = Inr (i, w_fs w', Ev_Bind loc i)"
    "w_tick w' = Suc (w_tick w)" "w_log w' = (w_tick w, Ev_Bind loc i) # w_log w"
  using assms unfolding sys_bind_def syscall_Inr by (auto dest: new_node_event split: sum.splits)

lemma sys_open_dir_Inr:
  assumes "sys_open_dir K loc w = (Inr i, w')"
  shows "locate (k_env K (w_tick w) (w_fs w)) loc False = Inr i" "w_tick w' = Suc (w_tick w)"
    "w_log w' = (w_tick w, Ev_Open loc i) # w_log w"
  using assms unfolding sys_open_dir_def syscall_Inr by (auto simp: result_simps split: if_splits)

lemma stat_at_Inr:
  assumes "stat_at K d n w = (Inr (Some md), w')"
  shows "locate (k_env K (w_tick w) (w_fs w)) (Some d, [n]) False = Inr (md_id md)" "w_tick w' = Suc (w_tick w)"
    "w_log w' = (w_tick w, Ev_Stat (Some d, [n]) md) # w_log w" "w_fs w' = k_env K (w_tick w) (w_fs w)"
proof -
  have "sys_stat K (Some d, [n]) False w = (Inr md, w')"
    using assms by (auto simp: stat_at_def sys_defs split: prod.splits sum.splits if_splits)
  then show "locate (k_env K (w_tick w) (w_fs w)) (Some d, [n]) False = Inr (md_id md)" "w_tick w' = Suc (w_tick w)"
    "w_log w' = (w_tick w, Ev_Stat (Some d, [n]) md) # w_log w" "w_fs w' = k_env K (w_tick w) (w_fs w)"
    unfolding sys_stat_def syscall_Inr by (auto simp: result_simps stat_call_def)
qed

lemma mkdir_then_open:
  assumes "sys_mkdir K (Some d, [n]) mode w = (Inr i, w1)" "sys_open_dir K (Some d, [n]) w1 = (Inr fd, w2)"
  shows "(w_tick w, Ev_Mkdir (Some d, [n]) i) \<in> set (w_log w2) \<and> w_tick w < w_tick w2 \<and>
    (quiet K (Suc (w_tick w)) \<longrightarrow> fd = i)"
  using sys_mkdir_Inr(2,3) [OF assms(1)] sys_open_dir_Inr [OF assms(2)]
    new_node_found [OF sys_mkdir_Inr(1) [OF assms(1)]]
  by (simp add: quiet_def) auto

lemma bind_then_stat:
  assumes "sys_bind K (Some d, [n]) w = (Inr i, w1)" "stat_at K d n w1 = (Inr (Some md), w2)"
  shows "(w_tick w, Ev_Bind (Some d, [n]) i) \<in> set (w_log w2) \<and> w_tick w < w_tick w2 \<and>
    (quiet K (Suc (w_tick w)) \<longrightarrow> md_id md = i)"
  using sys_bind_Inr(2,3) [OF assms(1)] stat_at_Inr [OF assms(2)]
    new_node_found [OF sys_bind_Inr(1) [OF assms(1)]]
  by (simp add: quiet_def) auto


text \<open>A failed connection means that no listener was there.\<close>

lemma locate_follow_same:
  "locate fs (Some d, [n]) False = Inr i \<Longrightarrow> fs_node fs i = Some nd \<Longrightarrow> nd_kind nd \<noteq> Symlink \<Longrightarrow>
   locate fs (Some d, [n]) True = Inr i"
  by (auto simp: locate_def start_dir_def split: sum.splits option.splits)

lemma sys_connect_Inl:
  assumes "sys_connect K loc w = (Inl e, w')" "k_fault K (w_tick w) = None"
    "locate (w_fs w') loc True = Inr i" "fs_node (w_fs w') i = Some nd"
  shows "\<not> (nd_kind nd = SocketFile \<and> nd_listening nd)"
  using assms
  by (auto simp: sys_connect_def syscall_def Let_def inspect_def node_at_def split: sum.splits option.splits)

lemma sys_connect_tick: "sys_connect K loc w = (r, w') \<Longrightarrow> w_tick w' = Suc (w_tick w)"
  by (auto simp: sys_connect_def syscall_def Let_def split: sum.splits option.splits)


text \<open>A new entry does not change where existing paths lead.\<close>

definition extends_fs :: "unix_fs \<Rightarrow> unix_fs \<Rightarrow> bool" where
  "extends_fs fs fs' \<longleftrightarrow> fs_root fs' = fs_root fs \<and>
     (\<forall>d n i. dir_lookup fs d n = Inr i \<longrightarrow> dir_lookup fs' d n = Inr i) \<and>
     (\<forall>i nd. fs_node fs i = Some nd \<longrightarrow>
        (\<exists>nd'. fs_node fs' i = Some nd' \<and> nd_kind nd' = nd_kind nd \<and> nd_data nd' = nd_data nd))"

lemma resolve_names_extends:
  "extends_fs fs fs' \<Longrightarrow> resolve_names fs fuel d trail ns follow = Inr x \<Longrightarrow>
   resolve_names fs' fuel d trail ns follow = Inr x"
proof (induction fs fuel d trail ns follow rule: resolve_names.induct)
  case (2 fs fuel d trail n ns follow)
  from 2(5) obtain i nd where i: "dir_lookup fs d n = Inr i" "fs_node fs i = Some nd"
    by (auto split: sum.splits option.splits)
  then obtain nd' where "dir_lookup fs' d n = Inr i" "fs_node fs' i = Some nd'" "nd_kind nd' = nd_kind nd" "nd_data nd' = nd_data nd"
    using 2(4) unfolding extends_fs_def by blast
  with 2 i show ?case
    by (auto simp: extends_fs_def split: if_splits nat.splits)
qed simp

lemma free_slot_parent:
  assumes "free_slot fs loc = Inr (p, n)"
  shows "\<exists>nd. fs_node fs p = Some nd \<and> nd_kind nd = Directory \<and> map_of (nd_entries nd) n = None"
  using assms
  by (auto simp: free_slot_def dir_lookup_def result_simps split: option.splits if_splits sum.splits)

lemma new_node_extends:
  assumes "new_node K mk ev loc t fs = Inr (i, fs', e)"
  shows "extends_fs fs fs'"
proof -
  obtain p n where slot: "free_slot fs loc = Inr (p, n)" and new: "fs_node fs i = None"
      and fs': "fs' = add_entry (fs\<lparr>fs_node := (fs_node fs)(i := Some (mk p i))\<rparr>) p n i"
    using assms by (auto simp: new_node_Inr_iff)
  obtain nd where nd: "fs_node fs p = Some nd" "nd_kind nd = Directory" "map_of (nd_entries nd) n = None"
    using free_slot_parent [OF slot] by blast
  have ip: "i \<noteq> p" using new nd by auto
  have node: "fs_node fs' = (fs_node fs)(i := Some (mk p i), p := Some (nd\<lparr>nd_entries := (n, i) # nd_entries nd\<rparr>))"
    using ip nd by (auto simp: fs' add_entry_def update_node_def)
  have "dir_lookup fs' d m = Inr j" if "dir_lookup fs d m = Inr j" for d m j
  proof -
    have "d \<noteq> i" using that new by (auto simp: dir_lookup_def)
    moreover have "d = p \<Longrightarrow> m \<noteq> n" using that nd by (auto simp: dir_lookup_def)
    ultimately show ?thesis using that nd by (auto simp: dir_lookup_def node split: if_splits)
  qed
  moreover have "\<exists>nd'. fs_node fs' j = Some nd' \<and> nd_kind nd' = nd_kind nd0 \<and> nd_data nd' = nd_data nd0"
    if "fs_node fs j = Some nd0" for j nd0
    using that new nd by (auto simp: node)
  moreover have "fs_root fs' = fs_root fs" by (simp add: fs' add_entry_def update_node_def)
  ultimately show ?thesis by (simp add: extends_fs_def)
qed

lemma new_node_located:
  assumes "new_node K mk ev loc t fs = Inr (i, fs', e)"
  shows "locate fs' loc False = Inr i"
proof -
  obtain d ns where loc: "loc = (d, ns)" by (cases loc)
  obtain p n where slot: "free_slot fs loc = Inr (p, n)" and new: "fs_node fs i = None"
      and fs': "fs' = add_entry (fs\<lparr>fs_node := (fs_node fs)(i := Some (mk p i))\<rparr>) p n i"
    using assms by (auto simp: new_node_Inr_iff)
  have ns: "ns \<noteq> []" "n = last ns" and par: "locate fs (d, butlast ns) True = Inr p"
    and dir: "\<exists>nd. fs_node fs p = Some nd \<and> nd_kind nd = Directory"
    using slot by (auto simp: loc free_slot_def locate_parent_def dir_lookup_def result_simps
        split: if_splits sum.splits option.splits)
  have root: "fs_root fs' = fs_root fs" using new_node_extends [OF assms] by (simp add: extends_fs_def)
  obtain tr where "resolve_names fs SYMLOOP_MAX (start_dir fs d) [] (butlast ns) True = Inr (p, tr)"
    using par by (auto simp: locate_def split: sum.splits prod.splits)
  moreover have "start_dir fs' d = start_dir fs d" by (simp add: start_dir_def root split: option.split)
  ultimately have r: "resolve_names fs' SYMLOOP_MAX (start_dir fs' d) [] (butlast ns) True = Inr (p, tr)"
    using resolve_names_extends [OF new_node_extends [OF assms]] by simp
  have "i \<noteq> p" using new dir by auto
  with dir have "dir_lookup fs' p n = Inr i" "fs_node fs' i = Some (mk p i)"
    by (auto simp: fs' add_entry_def update_node_def dir_lookup_def)
  with r ns resolve_names_snoc [of fs' SYMLOOP_MAX "start_dir fs' d" "[]" "butlast ns" "last ns"]
  show ?thesis by (simp add: loc locate_def)
qed

lemma sys_stat_Inr:
  assumes "sys_stat K loc False w = (Inr md, w')"
  shows "locate (k_env K (w_tick w) (w_fs w)) loc False = Inr (md_id md)"
    "w_fs w' = k_env K (w_tick w) (w_fs w)" "stat_call loc False (w_fs w') = Inr md"
  using assms unfolding sys_stat_def syscall_Inr by (auto simp: result_simps stat_call_def)

lemma bind_then_stat_path:
  assumes "sys_bind K loc w = (Inr i, w1)" "sys_stat K loc False w1 = (Inr md, w2)"
  shows "(w_tick w, Ev_Bind loc i) \<in> set (w_log w2) \<and> w_tick w < w_tick w2 \<and>
    (quiet K (Suc (w_tick w)) \<longrightarrow> md_id md = i)"
  using sys_bind_Inr [OF assms(1)] sys_stat_Inr [OF assms(2)] sys_stat_saw [OF assms(2)] new_node_located
  by (fastforce simp: quiet_def)


text \<open>A path that ends at no link leads to the same node whether or not links are followed there.\<close>

lemma resolve_names_snoc_follow:
  "resolve_names fs fuel d trail ns True = Inr (p, tr) \<Longrightarrow> dir_lookup fs p n = Inr i \<Longrightarrow> fs_node fs i = Some nd \<Longrightarrow>
   nd_kind nd \<noteq> Symlink \<Longrightarrow> resolve_names fs fuel d trail (ns @ [n]) True = Inr (i, trail_push tr n)"
proof (induction fs fuel d trail ns True rule: resolve_names.induct)
  case (1 fs fuel d trail)
  then show ?case by simp
next
  case (2 fs fuel d trail m ns)
  from 2(4) obtain j nj where "dir_lookup fs d m = Inr j" "fs_node fs j = Some nj"
    by (auto split: sum.splits option.splits)
  with 2 show ?case by (auto split: if_splits nat.splits)
qed

lemma locate_entry_node:
  assumes "locate_parent fs loc = Inr (p, n)" "dir_lookup fs p n = Inr i" "fs_node fs i = Some nd"
  shows "locate fs loc False = Inr i" "nd_kind nd \<noteq> Symlink \<Longrightarrow> locate fs loc True = Inr i"
proof -
  obtain d ns where loc: "loc = (d, ns)" by (cases loc)
  with assms(1) have ns: "ns \<noteq> []" by (auto simp: locate_parent_def)
  obtain tr where r: "resolve_names fs SYMLOOP_MAX (start_dir fs d) [] (butlast ns) True = Inr (p, tr)" and n: "n = last ns"
    using assms(1) ns loc by (auto simp: locate_def locate_parent_def split: sum.splits prod.splits)
  show "locate fs loc False = Inr i"
    using r n ns assms(2,3) resolve_names_snoc [of fs SYMLOOP_MAX "start_dir fs d" "[]" "butlast ns" "last ns"]
    by (simp add: loc locate_def)
  show "locate fs loc True = Inr i" if "nd_kind nd \<noteq> Symlink"
    using resolve_names_snoc_follow [OF r assms(2,3) that] n ns by (simp add: loc locate_def)
qed

text \<open>Calls when no other process acts.\<close>

lemma syscall_quietE:
  assumes "syscall K f w = (r, w')" "quiet K (w_tick w)"
  obtains (error) e where "r = Inl (Os e)" "w_fs w' = w_fs w"
      "k_fault K (w_tick w) = Some e \<or> (k_fault K (w_tick w) = None \<and> f (w_tick w) (w_fs w) = Inl e)"
    | (ok) x ev where "r = Inr x" "f (w_tick w) (w_fs w) = Inr (x, w_fs w', ev)" "k_fault K (w_tick w) = None"
  using assms by (auto simp: syscall_def Let_def quiet_def split: option.splits sum.splits)

definition still :: "('e, 'a, 'z) sys \<Rightarrow> bool" where
  "still m \<longleftrightarrow> (\<forall>w. w_fs (snd (m w)) = w_fs w)"

lemma stillD: "still m \<Longrightarrow> m w = (r, w') \<Longrightarrow> w_fs w' = w_fs w"
  unfolding still_def by (metis snd_conv)

lemma still_pure [simp]: "still (sys_return x)" "still (sys_fail e)" "still (sys_result r)" "still (sys_ensure b e)"
  by (simp_all add: still_def sys_defs)

lemma still_match: "still m \<Longrightarrow> (\<And>r. still (k r)) \<Longrightarrow> still (sys_match m k)"
  by (auto simp: still_def sys_match_def split: prod.split) (metis snd_conv)

lemma still_then: "still m \<Longrightarrow> (\<And>x. still (k x)) \<Longrightarrow> still (sys_then m k)"
  unfolding sys_then_match by (rule still_match) (simp_all split: sum.split)

lemma still_context: "still m \<Longrightarrow> still (sys_context g m)"
  unfolding sys_context_match by (rule still_match) simp_all

lemmas still_intros = still_match still_then still_context

lemma still_inspect: "(\<And>t. quiet K t) \<Longrightarrow> still (syscall K (inspect f ev))"
  by (simp add: still_def syscall_def Let_def quiet_def inspect_Inr_iff split: option.split sum.split prod.split)

lemma still_calls:
  assumes "\<And>t. quiet K t"
  shows "still (sys_stat K loc follow)" "still (sys_canonicalize K d trail ns)" "still (sys_read K loc)"
proof -
  show "still (sys_stat K loc follow)" "still (sys_canonicalize K d trail ns)"
    by (simp_all add: sys_stat_def sys_canonicalize_def still_inspect [OF assms])
  show "still (sys_read K loc)"
    using assms
    by (auto simp: still_def sys_read_def syscall_def Let_def quiet_def and_then_Inr_iff split: option.split sum.split if_splits)
qed

end
