(* ===== verification/Test_Trust.thy ===== *)
theory Test_Trust
  imports Unix_Fs
begin

text \<open>
  The trust anchor of test builds: \<open>src/proxy_runtime/test_trust.rs\<close>. What is compiled depends on
  configuration flags, which are values here; the environment variable and the PEM parser of the
  \<open>x509_parser\<close> crate are parameters.
\<close>

record build_flags =
  cfg_test :: bool
  cfg_integration_test :: bool

text \<open>A release has neither flag.\<close>

definition release_build :: build_flags where
  "release_build = \<lparr>cfg_test = False, cfg_integration_test = False\<rparr>"

record test_upstream_trust =
  tt_anchor_der :: "string option"

definition trust_default :: test_upstream_trust where
  "trust_default = \<lparr>tt_anchor_der = None\<rparr>"

definition from_der :: "string \<Rightarrow> test_upstream_trust" where
  "from_der anchor_der = \<lparr>tt_anchor_der = Some anchor_der\<rparr>"

definition trust_certificate :: "build_flags \<Rightarrow> test_upstream_trust \<Rightarrow> string option" where
  "trust_certificate build self =
     (if cfg_test build \<or> cfg_integration_test build then tt_anchor_der self else None)"

text \<open>
  \<open>tv_variable\<close> is the value of \<open>BAFFLE_TEST_UPSTREAM_CA\<close>; \<open>tv_parse_pem\<close> gives what follows the
  first PEM block, its label and its contents.
\<close>

record trust_env =
  tv_build :: build_flags
  tv_variable :: "string option"
  tv_parse_pem :: "string \<Rightarrow> (string \<times> string \<times> string) option"

definition from_environment :: "kernel \<Rightarrow> trust_env \<Rightarrow> (failure, test_upstream_trust, 'z) sys" where
  "from_environment K env =
     (if cfg_integration_test (tv_build env) then
        (case tv_variable env of
           None \<Rightarrow> sys_return trust_default
         | Some path \<Rightarrow>
             sys_then (sys_context (Context ''could not read integration upstream CA'') (sys_read K (path_loc K path))) (\<lambda>pem.
               case tv_parse_pem env pem of
                 None \<Rightarrow> sys_fail (Bail ''could not parse integration upstream CA PEM'')
               | Some (remainder, label, contents) \<Rightarrow>
                   if label \<noteq> ''CERTIFICATE'' \<or> \<not> list_all is_ascii_whitespace remainder
                   then sys_fail (Bail ''integration upstream CA must contain one certificate'')
                   else sys_return (from_der contents)))
      else sys_return trust_default)"

lemma logs_from_environment: "logs keeps_entries (from_environment K env)"
  unfolding from_environment_def by (auto intro!: logs_intros split: option.split)

text \<open>
  A release never adds an anchor and does not look at the environment. In an integration test the
  anchor is the contents of the only certificate in the file that the variable names.
\<close>

lemma release_trusts_no_anchor [simp]:
  "tv_build env = release_build \<Longrightarrow> from_environment K env w = (Inr trust_default, w)"
  "trust_certificate release_build trust = None"
  by (simp_all add: from_environment_def trust_certificate_def release_build_def sys_return_def)

lemma from_environment_anchor:
  assumes "from_environment K env w = (Inr trust, w')" "trust_certificate (tv_build env) trust = Some der"
  shows "\<exists>path pem remainder. cfg_integration_test (tv_build env) \<and> tv_variable env = Some path \<and>
    sys_read K (path_loc K path) w = (Inr pem, w') \<and>
    tv_parse_pem env pem = Some (remainder, ''CERTIFICATE'', der) \<and> list_all is_ascii_whitespace remainder"
  using assms
  by (auto simp: from_environment_def trust_certificate_def trust_default_def from_der_def sys_defs map_err_Inr_iff
      split: if_splits option.splits prod.splits sum.splits)

end
