(* ===== verification/Tls_Egress.thy ===== *)
theory Tls_Egress
  imports Header_Credentials Test_Trust
begin

text \<open>
  The upstream side of an intercepted connection: the TLS configuration that \<open>intercept_client\<close> of
  \<open>src/proxy_runtime/rama/tls.rs\<close> puts together, and the middleware it hands to the relay
  (\<open>RamaPolicyLayer\<close> of \<open>http.rs\<close>).

  TLS itself is the \<open>rama\<close> crate. Its configuration objects are modelled as the list of builder
  calls the program makes on them, in order, so that every statement is about what the program
  asks for; which host names and anchors the crate accepts and whether a connector can be made
  from a configuration are the record \<open>tls_lib\<close>.
\<close>

subsection \<open>Errors of a runtime\<close>

datatype proxy_runtime_error = BindSocket io_error | CredentialSeedError io_error | Build string | Run string | Task string

text \<open>The name under which an error is logged, and what is shown of it: never the text inside.\<close>

fun error_class :: "proxy_runtime_error \<Rightarrow> string" where
  "error_class (BindSocket _) = ''socket_bind''"
| "error_class (CredentialSeedError _) = ''credential_seed''"
| "error_class (Build _) = ''proxy_build''"
| "error_class (Run _) = ''proxy_run''"
| "error_class (Task _) = ''task''"

fun error_message :: "proxy_runtime_error \<Rightarrow> string" where
  "error_message (BindSocket e) =
     (if io_kind_of e = AlreadyExistsKind then ''proxy Unix socket path already exists''
      else ''could not bind proxy Unix socket'')"
| "error_message (CredentialSeedError _) = ''could not create credential seed''"
| "error_message (Build _) = ''could not build proxy''"
| "error_message (Run _) = ''proxy runtime failed''"
| "error_message (Task _) = ''proxy runtime task failed''"

subsection \<open>The certificate relay\<close>

text \<open>
  \<open>TlsMitmRelay\<close>: the signing material of the daemon's authority, and whether the logging of
  session keys was disabled.
\<close>

record tls_relay =
  tr_certificate :: string
  tr_private_key :: string
  tr_keylog_disabled :: bool

definition new_cached_relay :: "string \<times> string \<Rightarrow> tls_relay" where
  "new_cached_relay signing_material =
     (let (certificate, private_key) = signing_material in
      \<lparr>tr_certificate = certificate, tr_private_key = private_key, tr_keylog_disabled = True\<rparr>)"

subsection \<open>The TLS configuration of the upstream connection\<close>

text \<open>What the program reads of a ClientHello, and the rest, which it only passes on.\<close>

record client_hello =
  ch_server_name :: "string option"
  ch_parameters :: string

datatype egress_setting = is_FromClientHello: FromClientHello client_hello | is_ServerName: ServerName string
  | ServerVerifyAuto | KeyLogDisabled | ServerTrustAnchors "string list"

type_synonym egress_config = "egress_setting list"

record tls_lib =
  tl_domain :: "string \<Rightarrow> string + string"
  tl_trust_anchors :: "string list \<Rightarrow> string + unit"
  tl_connector :: "egress_config \<Rightarrow> string + unit"

definition rama_host :: "tls_lib \<Rightarrow> destination \<Rightarrow> proxy_runtime_error + string" where
  "rama_host tls destination = map_err Build (tl_domain tls (d_host destination))"

definition egress_config :: "tls_lib \<Rightarrow> build_flags \<Rightarrow> test_upstream_trust \<Rightarrow> client_hello \<Rightarrow> destination \<Rightarrow>
    proxy_runtime_error + egress_config" where
  "egress_config tls build trust hello destination =
     and_then (rama_host tls destination) (\<lambda>name.
     let config = [FromClientHello hello] @ [ServerName name] @ [ServerVerifyAuto] @ [KeyLogDisabled] in
     case trust_certificate build trust of
       Some anchor \<Rightarrow>
         and_then (map_err Build (tl_trust_anchors tls [anchor])) (\<lambda>_. Inr (config @ [ServerTrustAnchors [anchor]]))
     | None \<Rightarrow> Inr config)"

definition connector_data :: "tls_lib \<Rightarrow> build_flags \<Rightarrow> test_upstream_trust \<Rightarrow> client_hello \<Rightarrow> destination \<Rightarrow>
    proxy_runtime_error + egress_config" where
  "connector_data tls build trust hello destination =
     and_then (egress_config tls build trust hello destination) (\<lambda>config.
     and_then (map_err Build (tl_connector tls config)) (\<lambda>_. Inr config))"

text \<open>
  Which setting is in force. The calls are made in order: a later one replaces an earlier one of
  its kind, and taking over a ClientHello replaces them all.
\<close>

definition in_force :: "(egress_setting \<Rightarrow> bool) \<Rightarrow> egress_config \<Rightarrow> egress_setting option" where
  "in_force kind config = List.find (\<lambda>s. kind s \<or> is_FromClientHello s) (rev config)"

definition verified_as :: "egress_config \<Rightarrow> string \<Rightarrow> bool" where
  "verified_as config name \<longleftrightarrow>
     in_force is_ServerName config = Some (ServerName name) \<and>
     in_force ((=) ServerVerifyAuto) config = Some ServerVerifyAuto \<and>
     in_force ((=) KeyLogDisabled) config = Some KeyLogDisabled"

definition extra_anchors :: "egress_config \<Rightarrow> string list" where
  "extra_anchors config = concat (map (\<lambda>s. case s of ServerTrustAnchors as \<Rightarrow> as | _ \<Rightarrow> []) config)"

text \<open>
  A connector is made only from a configuration that verifies the server as the host of the
  destination, whatever the ClientHello says, and trusts beside the system roots at most the
  anchor of a test build. An error is one of building the proxy.
\<close>

lemma connector_data_Inr:
  assumes "connector_data tls build trust hello destination = Inr config"
  shows "\<exists>name. tl_domain tls (d_host destination) = Inr name \<and> verified_as config name"
    "extra_anchors config = (case trust_certificate build trust of None \<Rightarrow> [] | Some der \<Rightarrow> [der])"
    "hd config = FromClientHello hello" "tl_connector tls config = Inr ()"
  using assms
  by (auto simp: connector_data_def egress_config_def rama_host_def result_simps Let_def verified_as_def
      in_force_def extra_anchors_def split: option.splits)

lemma connector_data_Inl: "connector_data tls build trust hello destination = Inl e \<Longrightarrow> \<exists>text. e = Build text"
  by (auto simp: connector_data_def egress_config_def rama_host_def Inl_simps Let_def split: option.splits)

subsection \<open>The middleware of the relay\<close>

text \<open>
  \<open>RamaPolicyLayer\<close> holds what the service needs; the service made from it answers a request with
  \<open>serve\<close>. The counters are not part of it: \<open>serve\<close> returns what it adds to them.
\<close>

record policy_layer =
  pl_policy :: session_policy
  pl_connect_authority :: string
  pl_secrets :: "string \<rightharpoonup> string"

definition layer_serve :: "'h http_lib \<Rightarrow> host_parser \<Rightarrow> policy_layer \<Rightarrow> 'h request \<Rightarrow> 'h outcome" where
  "layer_serve lib hp layer request = serve lib hp (pl_policy layer) (pl_connect_authority layer) (pl_secrets layer) request"

end
