(* ===== verification/Connect_Proxy.thy ===== *)
theory Connect_Proxy
  imports Tls_Egress Telemetry
begin

text \<open>
  CONNECT admission and tunnelling: \<open>src/proxy_runtime/rama/connect.rs\<close> and the decisions of
  \<open>intercept_client\<close> in \<open>tls.rs\<close>.

  A byte stream is the list of what its reads will deliver: chunks of bytes, or a failure. One
  read of at most \<open>n\<close> bytes takes from the first chunk; the empty list is end of file. The
  network is an environment of outcomes (\<open>proxy_env\<close>), and a connection handler returns the
  list of what it does to the outside world with the new metrics and its result.
\<close>

subsection \<open>Streams\<close>

datatype io_chunk = Bytes string | IoFail string

fun read_some :: "nat \<Rightarrow> io_chunk list \<Rightarrow> string + string \<times> io_chunk list" where
  "read_some n [] = Inr ([], [])"
| "read_some n (IoFail e # s) = Inl e"
| "read_some n (Bytes b # s) =
     (if b = [] then read_some n s
      else Inr (take n b, if length b \<le> n then s else Bytes (drop n b) # s))"

text \<open>The bytes that a stream delivers before it ends or fails, and whether it ever fails.\<close>

fun stream_bytes :: "io_chunk list \<Rightarrow> string" where
  "stream_bytes [] = []"
| "stream_bytes (IoFail e # s) = []"
| "stream_bytes (Bytes b # s) = b @ stream_bytes s"

definition stream_ok :: "io_chunk list \<Rightarrow> bool" where
  "stream_ok s \<longleftrightarrow> list_all (\<lambda>c. case c of Bytes _ \<Rightarrow> True | IoFail _ \<Rightarrow> False) s"

lemma stream_ok_simps [simp]: "stream_ok []" "stream_ok (Bytes b # s) = stream_ok s"
  "\<not> stream_ok (IoFail e # s)"
  by (simp_all add: stream_ok_def)

lemma read_some_Inr:
  assumes "read_some n s = Inr (r, s')" "0 < n"
  shows "r @ stream_bytes s' = stream_bytes s" "length r \<le> n" "stream_ok s \<Longrightarrow> stream_ok s'"
    "length (stream_bytes s') + length r = length (stream_bytes s)"
    "r = [] \<longleftrightarrow> stream_bytes s = [] \<and> s' = []"
  using assms
  by (induction n s rule: read_some.induct) (auto split: if_splits)

lemma read_some_ok: "stream_ok s \<Longrightarrow> \<exists>r s'. read_some n s = Inr (r, s')"
  by (induction n s rule: read_some.induct) auto

text \<open>A read that delivers something makes the stream smaller.\<close>

lemma read_some_smaller:
  "read_some n s = Inr (r, s') \<Longrightarrow> 0 < n \<Longrightarrow> r \<noteq> [] \<Longrightarrow> length (stream_bytes s') < length (stream_bytes s)"
  using read_some_Inr(4) [of n s r s'] by (cases r) auto

subsection \<open>Reading the CONNECT request\<close>

definition MAX_CONNECT_HEADER_BYTES :: nat where
  "MAX_CONNECT_HEADER_BYTES = 16 * 1024"

definition READ_BUFFER_BYTES :: nat where
  "READ_BUFFER_BYTES = 4096"

datatype connect_error = HeadersTooLarge | EarlyEof | HeadersNotAscii | MissingRequestLine
  | OnlyConnect | InvalidHeader | DuplicateHost | StreamError string

definition CRLF :: string where
  "CRLF = [CHR 0x0D, CHR 0x0A]"

text \<open>\<open>bytes.windows(n).position(..)\<close> and \<open>str::split\<close> with a string pattern.\<close>

fun find_sub :: "string \<Rightarrow> string \<Rightarrow> nat option" where
  "find_sub pat [] = (if pat = [] then Some 0 else None)"
| "find_sub pat (c # s) = (if prefix pat (c # s) then Some 0 else map_option Suc (find_sub pat s))"

function split_str :: "string \<Rightarrow> string \<Rightarrow> string list" where
  "split_str pat s =
     (case find_sub pat s of
        None \<Rightarrow> [s]
      | Some i \<Rightarrow> if pat = [] then [s] else take i s # split_str pat (drop (i + length pat) s))"
  by pat_completeness auto

lemma find_sub_bound: "find_sub pat s = Some i \<Longrightarrow> i + length pat \<le> length s"
  by (induction pat s arbitrary: i rule: find_sub.induct)
    (auto split: if_splits dest: prefix_length_le)

termination split_str
  by (relation "measure (length \<circ> snd)") (auto dest!: find_sub_bound simp: neq_Nil_conv)

function read_header :: "string \<Rightarrow> io_chunk list \<Rightarrow> connect_error + nat \<times> string \<times> io_chunk list" where
  "read_header bytes stream =
     (let remaining = (MAX_CONNECT_HEADER_BYTES + READ_BUFFER_BYTES) - length bytes in
      if remaining = 0 then Inl HeadersTooLarge
      else
        (let read_size = min remaining READ_BUFFER_BYTES in
         case read_some read_size stream of
           Inl e \<Rightarrow> Inl (StreamError e)
         | Inr (r, stream') \<Rightarrow>
             if r = [] then Inl EarlyEof
             else
               (let bytes' = bytes @ r in
                case find_sub (CRLF @ CRLF) bytes' of
                  Some position \<Rightarrow>
                    if position + 4 \<le> MAX_CONNECT_HEADER_BYTES
                    then Inr (position + 4, bytes', stream') else Inl HeadersTooLarge
                | None \<Rightarrow>
                    if length bytes' \<ge> MAX_CONNECT_HEADER_BYTES then Inl HeadersTooLarge
                    else read_header bytes' stream')))"
  by pat_completeness auto
termination
  by (relation "measure (\<lambda>(_, s). length (stream_bytes s))")
    (auto simp: READ_BUFFER_BYTES_def intro!: read_some_smaller)

declare read_header.simps [simp del] split_str.simps [simp del]

record parsed_connect =
  pc_authority :: string
  pc_host :: "string option"
  pc_has_body :: bool
  pc_read_ahead :: string

fun parse_header_lines :: "string option \<Rightarrow> bool \<Rightarrow> string list \<Rightarrow> connect_error + string option \<times> bool" where
  "parse_header_lines host has_body [] = Inr (host, has_body)"
| "parse_header_lines host has_body (line # lines) =
     (case split_once CHR '':'' line of
        None \<Rightarrow> Inl InvalidHeader
      | Some (name, value) \<Rightarrow>
          if eq_ignore_ascii_case name ''host'' then
            (if host \<noteq> None then Inl DuplicateHost
             else parse_header_lines (Some (trim value)) has_body lines)
          else if eq_ignore_ascii_case name ''transfer-encoding'' then parse_header_lines host True lines
          else if eq_ignore_ascii_case name ''content-length'' then
            (if trim value \<noteq> ''0'' then parse_header_lines host True lines
             else parse_header_lines host has_body lines)
          else if eq_ignore_ascii_case name ''expect'' then parse_header_lines host True lines
          else parse_header_lines host has_body lines)"

text \<open>The header block, without its read-ahead: request line and header lines.\<close>

definition parse_connect_header :: "string \<Rightarrow> connect_error + string \<times> string option \<times> bool" where
  "parse_connect_header bytes =
     (if \<not> list_all is_ascii bytes then Inl HeadersNotAscii
      else
        (case split_str CRLF (take (length bytes - 4) bytes) of
           [] \<Rightarrow> Inl MissingRequestLine
         | request_line # lines \<Rightarrow>
             (case split_ascii_whitespace request_line of
                [method, authority, version] \<Rightarrow>
                  if method = ''CONNECT'' \<and> version = ''HTTP/1.1''
                  then and_then (parse_header_lines None False lines) (\<lambda>(host, has_body).
                    Inr (authority, host, has_body))
                  else Inl OnlyConnect
              | _ \<Rightarrow> Inl OnlyConnect)))"

definition read_connect_request :: "io_chunk list \<Rightarrow> connect_error + parsed_connect \<times> io_chunk list" where
  "read_connect_request stream =
     and_then (read_header [] stream) (\<lambda>(header_end, bytes, stream').
     and_then (parse_connect_header (take header_end bytes)) (\<lambda>(authority, host, has_body).
     Inr (\<lparr>pc_authority = authority, pc_host = host, pc_has_body = has_body,
       pc_read_ahead = drop header_end bytes\<rparr>, stream')))"

subsection \<open>The buffered client stream\<close>

text \<open>
  \<open>BufferedConnectIo\<close> hands out what was read beyond the header before it reads on. A plain
  stream behaves as one with nothing read ahead.
\<close>

record buffered =
  bc_inner :: "io_chunk list"
  bc_read_ahead :: string
  bc_offset :: nat

definition buffered_new :: "io_chunk list \<Rightarrow> string \<Rightarrow> buffered" where
  "buffered_new inner read_ahead = \<lparr>bc_inner = inner, bc_read_ahead = read_ahead, bc_offset = 0\<rparr>"

definition poll_read :: "nat \<Rightarrow> buffered \<Rightarrow> string + string \<times> buffered" where
  "poll_read capacity this =
     (if bc_offset this < length (bc_read_ahead this) then
        (let remaining = drop (bc_offset this) (bc_read_ahead this);
             n = min (length remaining) capacity in
         Inr (take n remaining, this\<lparr>bc_offset := bc_offset this + n\<rparr>))
      else
        (case read_some capacity (bc_inner this) of
           Inl e \<Rightarrow> Inl e
         | Inr (r, inner) \<Rightarrow> Inr (r, this\<lparr>bc_inner := inner\<rparr>)))"

definition buffered_bytes :: "buffered \<Rightarrow> string" where
  "buffered_bytes b = drop (bc_offset b) (bc_read_ahead b) @ stream_bytes (bc_inner b)"

lemma poll_read_Inr:
  assumes "poll_read n b = Inr (r, b')" "0 < n"
  shows "r @ buffered_bytes b' = buffered_bytes b" "r = [] \<longleftrightarrow> buffered_bytes b = []"
    "stream_ok (bc_inner b) \<Longrightarrow> stream_ok (bc_inner b')"
proof -
  have "r @ buffered_bytes b' = buffered_bytes b \<and> (r = [] \<longleftrightarrow> buffered_bytes b = []) \<and>
      (stream_ok (bc_inner b) \<longrightarrow> stream_ok (bc_inner b'))"
  proof (cases "bc_offset b < length (bc_read_ahead b)")
    case True
    define n' where "n' = min (length (drop (bc_offset b) (bc_read_ahead b))) n"
    from True assms have r: "r = take n' (drop (bc_offset b) (bc_read_ahead b))"
      "b' = b\<lparr>bc_offset := bc_offset b + n'\<rparr>" by (auto simp: poll_read_def Let_def n'_def)
    have "r @ drop (bc_offset b + n') (bc_read_ahead b) = drop (bc_offset b) (bc_read_ahead b)"
      unfolding r(1) by (metis add.commute append_take_drop_id drop_drop)
    moreover have "r \<noteq> []" using True assms(2) by (simp add: r(1) n'_def)
    ultimately show ?thesis using True by (simp add: buffered_bytes_def r(2))
  next
    case False
    with assms obtain inner where "read_some n (bc_inner b) = Inr (r, inner)" "b' = b\<lparr>bc_inner := inner\<rparr>"
      by (auto simp: poll_read_def split: sum.splits)
    with False read_some_Inr [of n "bc_inner b" r inner] assms(2) show ?thesis
      by (auto simp: buffered_bytes_def)
  qed
  then show "r @ buffered_bytes b' = buffered_bytes b" "r = [] \<longleftrightarrow> buffered_bytes b = []"
    "stream_ok (bc_inner b) \<Longrightarrow> stream_ok (bc_inner b')" by auto
qed

lemma poll_read_smaller:
  assumes "poll_read n b = Inr (r, b')" "0 < n" "r \<noteq> []"
  shows "length (buffered_bytes b') < length (buffered_bytes b)"
  using poll_read_Inr(1) [OF assms(1,2)] assms(3) by (metis append_eq_append_conv2 length_append
    length_greater_0_conv less_add_same_cancel2)

lemma poll_read_ok:
  assumes "stream_ok (bc_inner b)"
  shows "\<exists>r b'. poll_read n b = Inr (r, b')"
  using read_some_ok [OF assms, of n] by (auto simp: poll_read_def Let_def)

subsection \<open>Copying\<close>

text \<open>The writing end: what was sent, whether it was shut down, and after how many more bytes it fails.\<close>

record writer =
  w_sent :: string
  w_shutdown :: bool
  w_room :: "nat option"

definition write_all :: "string \<Rightarrow> writer \<Rightarrow> string + writer" where
  "write_all b w =
     (case w_room w of
        None \<Rightarrow> Inr (w\<lparr>w_sent := w_sent w @ b\<rparr>)
      | Some room \<Rightarrow> if length b \<le> room then Inr (w\<lparr>w_sent := w_sent w @ b, w_room := Some (room - length b)\<rparr>)
          else Inl ''broken pipe'')"

definition U64_MAX :: nat where
  "U64_MAX = 2 ^ 64 - 1"

definition COPY_BUFFER_BYTES :: nat where
  "COPY_BUFFER_BYTES = 8 * 1024"

function copy_until_eof :: "buffered \<Rightarrow> writer \<Rightarrow> nat \<Rightarrow> string + nat \<times> writer" where
  "copy_until_eof reader writer copied =
     (case poll_read COPY_BUFFER_BYTES reader of
        Inl e \<Rightarrow> Inl e
      | Inr (r, reader') \<Rightarrow>
          if r = [] then Inr (copied, writer\<lparr>w_shutdown := True\<rparr>)
          else (case write_all r writer of
              Inl e \<Rightarrow> Inl e
            | Inr writer' \<Rightarrow> copy_until_eof reader' writer' (min (copied + length r) U64_MAX)))"
  by pat_completeness auto
termination
  by (relation "measure (\<lambda>(r, _, _). length (buffered_bytes r))")
    (auto simp: COPY_BUFFER_BYTES_def intro!: poll_read_smaller)

declare copy_until_eof.simps [simp del]

text \<open>\<open>try_join!\<close>: both directions, an error of either one is the result.\<close>

definition copy_bidirectional :: "buffered \<Rightarrow> writer \<Rightarrow> buffered \<Rightarrow> writer \<Rightarrow>
    string + (nat \<times> writer) \<times> (nat \<times> writer)" where
  "copy_bidirectional left_reader right_writer right_reader left_writer =
     and_then (copy_until_eof left_reader right_writer 0) (\<lambda>up.
     and_then (copy_until_eof right_reader left_writer 0) (\<lambda>down. Inr (up, down)))"

subsection \<open>Connection handlers\<close>

datatype connect_outcome = Connected | ConnectFailed string | ConnectTimeout

text \<open>The result of peeking at the ClientHello: found, absent, or an error.\<close>

datatype hello_outcome = HelloFound client_hello | NoHello | HelloError string

record proxy_env =
  pe_read_timeout :: bool
  pe_write_ok :: bool
  pe_connect :: "destination \<Rightarrow> connect_outcome"
  pe_upstream :: "io_chunk list"
  pe_upstream_writer :: writer
  pe_client_writer :: writer
  pe_hello :: hello_outcome
  pe_tls :: tls_lib
  pe_handshake :: "egress_config \<Rightarrow> string + unit"
  pe_relay :: "string + unit"

datatype effect = WriteClient string | Dial destination | CopyStreams destination
  | Handshake tls_relay egress_config destination | Relay policy_layer destination

text \<open>
  What a runtime gives to every connection beside the generation of its policy: the relay that
  signs certificates, the anchor of test builds, and how the program was built.
\<close>

record tls_settings =
  ts_relay :: tls_relay
  ts_trust :: test_upstream_trust
  ts_build :: build_flags

type_synonym handler_result = "effect list \<times> metrics \<times> (proxy_runtime_error + unit)"

definition response_400 :: string where "response_400 = ''HTTP/1.1 400 Bad Request''"
definition response_403 :: string where "response_403 = ''HTTP/1.1 403 Forbidden''"
definition response_408 :: string where "response_408 = ''HTTP/1.1 408 Request Timeout''"
definition response_502 :: string where "response_502 = ''HTTP/1.1 502 Bad Gateway''"
definition response_504 :: string where "response_504 = ''HTTP/1.1 504 Gateway Timeout''"
definition response_200 :: string where "response_200 = ''HTTP/1.1 200 Connection Established''"

definition connection_close :: string where
  "connection_close = CRLF @ ''Connection: close'' @ CRLF @ CRLF"

definition handle_tunnel :: "proxy_env \<Rightarrow> buffered \<Rightarrow> destination \<Rightarrow> metrics \<Rightarrow> handler_result" where
  "handle_tunnel env client destination m =
     (case pe_connect env destination of
        ConnectFailed e \<Rightarrow>
          ([Dial destination, WriteClient (response_502 @ connection_close)], snd (upstream_failure m), Inl (Run e))
      | ConnectTimeout \<Rightarrow>
          ([Dial destination, WriteClient (response_504 @ connection_close)], snd (upstream_failure m), Inr ())
      | Connected \<Rightarrow>
          if \<not> pe_write_ok env
          then ([Dial destination, WriteClient (response_200 @ CRLF @ CRLF)], m, Inl (Run ''write''))
          else ([Dial destination, WriteClient (response_200 @ CRLF @ CRLF), CopyStreams destination], m,
            map_err Run (and_then (copy_bidirectional client (pe_upstream_writer env)
              (buffered_new (pe_upstream env) []) (pe_client_writer env)) (\<lambda>_. Inr ()))))"

definition intercept_client ::
  "proxy_env \<Rightarrow> host_parser \<Rightarrow> session_policy \<Rightarrow> (string \<rightharpoonup> string) \<Rightarrow> tls_settings \<Rightarrow> string \<Rightarrow> destination \<Rightarrow>
    metrics \<Rightarrow> handler_result" where
  "intercept_client env hp policy secrets settings authority destination m =
     (let ok = WriteClient (response_200 @ CRLF @ CRLF) in
      if \<not> pe_write_ok env then ([ok], m, Inl (Run ''write''))
      else (case pe_hello env of
          NoHello \<Rightarrow> ([ok], snd (interception_error m),
            Inl (Run ''interception-required CONNECT did not contain a TLS ClientHello''))
        | HelloError e \<Rightarrow> ([ok], snd (interception_error m), Inl (Run (''could not inspect TLS ClientHello: '' @ e)))
        | HelloFound client_hello \<Rightarrow>
            if \<not> permits_tls_interception_authority hp policy authority (ch_server_name client_hello)
            then ([ok], snd (denied_request m),
              Inl (Run ''TLS SNI does not match the authorized CONNECT authority''))
            else (case pe_connect env destination of
                ConnectFailed e \<Rightarrow> ([ok, Dial destination], snd (upstream_failure m), Inl (Run e))
              | ConnectTimeout \<Rightarrow> ([ok, Dial destination], snd (upstream_failure m), Inr ())
              | Connected \<Rightarrow>
                  (case connector_data (pe_tls env) (ts_build settings) (ts_trust settings) client_hello destination of
                     Inl e \<Rightarrow> ([ok, Dial destination], m, Inl e)
                   | Inr connector \<Rightarrow>
                       (let request_policy = \<lparr>pl_policy = policy, pl_connect_authority = authority, pl_secrets = secrets\<rparr>;
                            handshake = Handshake (ts_relay settings) connector destination in
                        case pe_handshake env connector of
                          Inl e \<Rightarrow> ([ok, Dial destination, handshake], snd (interception_error m), Inl (Run e))
                        | Inr _ \<Rightarrow> ([ok, Dial destination, handshake, Relay request_policy destination],
                            m, map_err Run (pe_relay env)))))))"

definition connect_error_text :: "connect_error \<Rightarrow> string" where
  "connect_error_text e =
     (case e of
        HeadersTooLarge \<Rightarrow> ''CONNECT headers too large''
      | EarlyEof \<Rightarrow> ''early EOF while reading CONNECT headers''
      | HeadersNotAscii \<Rightarrow> ''CONNECT headers are not ASCII''
      | MissingRequestLine \<Rightarrow> ''missing request line''
      | OnlyConnect \<Rightarrow> ''only HTTP/1.1 CONNECT is supported''
      | InvalidHeader \<Rightarrow> ''invalid header''
      | DuplicateHost \<Rightarrow> ''duplicate Host header''
      | StreamError s \<Rightarrow> s)"

definition handle_client ::
  "proxy_env \<Rightarrow> host_parser \<Rightarrow> session_policy \<Rightarrow> (string \<rightharpoonup> string) \<Rightarrow> tls_settings \<Rightarrow> io_chunk list \<Rightarrow>
    metrics \<Rightarrow> handler_result" where
  "handle_client env hp policy secrets settings stream m =
     (if pe_read_timeout env
      then ([WriteClient (response_408 @ connection_close)], m, Inr ())
      else (case read_connect_request stream of
          Inl e \<Rightarrow> ([WriteClient (response_400 @ connection_close)], m, Inl (Run (connect_error_text e)))
        | Inr (parsed, rest) \<Rightarrow>
            (let client = buffered_new rest (pc_read_ahead parsed);
                 host_headers = (case pc_host parsed of None \<Rightarrow> [] | Some h \<Rightarrow> [h]) in
             case authorize_connect_authority hp policy (pc_authority parsed) host_headers of
               Inl _ \<Rightarrow> ([WriteClient (response_403 @ connection_close)], snd (denied_request m), Inr ())
             | Inr (mode, destination) \<Rightarrow>
                 if pc_has_body parsed
                 then ([WriteClient (response_400 @ connection_close)], snd (denied_request m), Inr ())
                 else if mode = TunnelMode then handle_tunnel env client destination m
                 else intercept_client env hp policy secrets settings (pc_authority parsed) destination m)))"

subsection \<open>What reading the request returns\<close>

lemma find_sub_append:
  "find_sub pat s = Some i \<longleftrightarrow> find_sub pat (s @ t) = Some i \<and> i + length pat \<le> length s"
proof (induction pat s arbitrary: i rule: find_sub.induct)
  case (1 pat)
  then show ?case by (cases t) auto
next
  case (2 pat c s)
  have "prefix pat (c # s) \<longleftrightarrow> prefix pat ((c # s) @ t) \<and> length pat \<le> length (c # s)"
    by (metis append_eq_append_conv_if prefix_def prefix_length_le prefix_prefix same_prefix_prefix
        prefix_order.trans prefixI prefix_length_prefix)
  with 2 show ?case
    by (cases i) (auto dest: find_sub_bound)
qed

definition connect_header_spec :: "string \<Rightarrow> connect_error + string \<times> string" where
  "connect_header_spec bytes =
     (case find_sub (CRLF @ CRLF) bytes of
        Some p \<Rightarrow> if p + 4 \<le> MAX_CONNECT_HEADER_BYTES then Inr (take (p + 4) bytes, drop (p + 4) bytes)
          else Inl HeadersTooLarge
      | None \<Rightarrow> if length bytes \<ge> MAX_CONNECT_HEADER_BYTES then Inl HeadersTooLarge else Inl EarlyEof)"

fun map_ok :: "('a \<Rightarrow> 'b) \<Rightarrow> 'e + 'a \<Rightarrow> 'e + 'b" where
  "map_ok f (Inl e) = Inl e"
| "map_ok f (Inr x) = Inr (f x)"

abbreviation terminator :: string where
  "terminator \<equiv> CRLF @ CRLF"

lemma length_CRLF [simp]: "length CRLF = 2"
  by (simp add: CRLF_def)

lemma header_limits: "0 < READ_BUFFER_BYTES" "READ_BUFFER_BYTES < MAX_CONNECT_HEADER_BYTES"
  by (simp_all add: READ_BUFFER_BYTES_def MAX_CONNECT_HEADER_BYTES_def)

text \<open>One round of the loop, when the read succeeds.\<close>

lemma read_header_step:
  assumes "length bytes < MAX_CONNECT_HEADER_BYTES"
  shows "read_header bytes stream =
    (case read_some READ_BUFFER_BYTES stream of
       Inl e \<Rightarrow> Inl (StreamError e)
     | Inr (r, stream') \<Rightarrow>
         if r = [] then Inl EarlyEof
         else (case find_sub terminator (bytes @ r) of
             Some position \<Rightarrow>
               if position + 4 \<le> MAX_CONNECT_HEADER_BYTES
               then Inr (position + 4, bytes @ r, stream') else Inl HeadersTooLarge
           | None \<Rightarrow> if length (bytes @ r) \<ge> MAX_CONNECT_HEADER_BYTES then Inl HeadersTooLarge
               else read_header (bytes @ r) stream'))"
proof -
  have "min (MAX_CONNECT_HEADER_BYTES + READ_BUFFER_BYTES - length bytes) READ_BUFFER_BYTES = READ_BUFFER_BYTES"
    using assms by simp
  moreover have "MAX_CONNECT_HEADER_BYTES + READ_BUFFER_BYTES - length bytes \<noteq> 0"
    using assms by simp
  ultimately show ?thesis
    by (subst read_header.simps) (simp only: Let_def if_False)
qed

lemma connect_header_spec_found:
  assumes "find_sub terminator bytes = Some p"
  shows "connect_header_spec (bytes @ rest) =
    (if p + 4 \<le> MAX_CONNECT_HEADER_BYTES then Inr (take (p + 4) bytes, drop (p + 4) bytes @ rest)
     else Inl HeadersTooLarge)"
  using assms find_sub_append [of terminator bytes p rest] find_sub_bound [OF assms]
  by (simp add: connect_header_spec_def)

lemma connect_header_spec_long:
  assumes "find_sub terminator bytes = None" "length bytes \<ge> MAX_CONNECT_HEADER_BYTES"
  shows "connect_header_spec (bytes @ rest) = Inl HeadersTooLarge"
proof (cases "find_sub terminator (bytes @ rest)")
  case (Some p)
  then have "p + 4 > length bytes" using assms(1) find_sub_append [of terminator bytes p rest] by simp
  with Some assms(2) show ?thesis by (simp add: connect_header_spec_def)
qed (use assms(2) in \<open>simp add: connect_header_spec_def\<close>)

lemma read_header_spec:
  assumes "find_sub terminator bytes = None" "length bytes < MAX_CONNECT_HEADER_BYTES" "stream_ok stream"
  shows "map_ok (\<lambda>(n, bs, s). (take n bs, drop n bs @ stream_bytes s)) (read_header bytes stream) =
    connect_header_spec (bytes @ stream_bytes stream)"
  using assms
proof (induction "length (stream_bytes stream)" arbitrary: bytes stream rule: less_induct)
  case less
  obtain r s where rs: "read_some READ_BUFFER_BYTES stream = Inr (r, s)"
    using read_some_ok [OF less.prems(3)] by blast
  note read = read_some_Inr [OF rs header_limits(1)]
  show ?case
  proof (cases "r = []")
    case True
    then have "stream_bytes stream = []" using read(5) by simp
    with True less.prems rs show ?thesis
      by (simp add: read_header_step connect_header_spec_def)
  next
    case False
    have bytes: "bytes @ stream_bytes stream = (bytes @ r) @ stream_bytes s" using read(1) by simp
    show ?thesis
    proof (cases "find_sub terminator (bytes @ r)")
      case (Some p)
      with False rs less.prems(2) show ?thesis
        using connect_header_spec_found [OF Some, of "stream_bytes s"] unfolding bytes
        by (simp add: read_header_step)
    next
      case None
      note step = less.hyps [OF _ None _ read(3) [OF less.prems(3)]]
      show ?thesis
        using False rs less.prems(2) None step read_some_smaller [OF rs header_limits(1) False]
          connect_header_spec_long [OF None, of "stream_bytes s"] unfolding bytes
        by (simp add: read_header_step)
    qed
  qed
qed

lemma read_header_bounds:
  "read_header bytes stream = Inr (n, bs, s) \<Longrightarrow> length bytes < MAX_CONNECT_HEADER_BYTES \<Longrightarrow>
   n \<le> MAX_CONNECT_HEADER_BYTES \<and> n \<le> length bs \<and> length bs < MAX_CONNECT_HEADER_BYTES + READ_BUFFER_BYTES"
proof (induction "length (stream_bytes stream)" arbitrary: bytes stream rule: less_induct)
  case less
  from less.prems obtain r s' where rs: "read_some READ_BUFFER_BYTES stream = Inr (r, s')" "r \<noteq> []"
    by (auto simp: read_header_step split: sum.splits if_splits)
  have "length (bytes @ r) < MAX_CONNECT_HEADER_BYTES + READ_BUFFER_BYTES"
    using less.prems(2) read_some_Inr(2) [OF rs(1) header_limits(1)] by simp
  moreover note read_some_smaller [OF rs(1) header_limits(1) rs(2)]
  moreover have "case find_sub terminator (bytes @ r) of
      Some p \<Rightarrow> n = p + 4 \<and> p + 4 \<le> MAX_CONNECT_HEADER_BYTES \<and> bs = bytes @ r
    | None \<Rightarrow> length (bytes @ r) < MAX_CONNECT_HEADER_BYTES \<and> read_header (bytes @ r) s' = Inr (n, bs, s)"
    using less.prems(1) rs unfolding read_header_step [OF less.prems(2)]
    by (auto split: option.splits if_splits)
  ultimately show ?case
    using less.hyps [of s' "bytes @ r"] by (auto split: option.splits dest: find_sub_bound)
qed

lemma read_header_ok:
  "stream_ok stream \<Longrightarrow> length bytes < MAX_CONNECT_HEADER_BYTES \<Longrightarrow> read_header bytes stream = Inr (n, bs, s) \<Longrightarrow>
   stream_ok s"
proof (induction "length (stream_bytes stream)" arbitrary: bytes stream rule: less_induct)
  case less
  obtain r s' where rs: "read_some READ_BUFFER_BYTES stream = Inr (r, s')" "r \<noteq> []"
    using less.prems by (auto simp: read_header_step split: sum.splits if_splits)
  note read_some_Inr(3) [OF rs(1) header_limits(1) less.prems(1)]
    read_some_smaller [OF rs(1) header_limits(1) rs(2)]
  then show ?case
    using less.hyps [of s' "bytes @ r"] less.prems(3) rs unfolding read_header_step [OF less.prems(2)]
    by (auto split: option.splits if_splits)
qed

lemma find_sub_empty [simp]: "find_sub terminator [] = None"
  by (simp add: CRLF_def)


lemma copy_until_eof_ok:
  assumes "stream_ok (bc_inner reader)" "w_room w = None" "copied \<le> U64_MAX"
  shows "copy_until_eof reader w copied =
    Inr (min (copied + length (buffered_bytes reader)) U64_MAX,
         w\<lparr>w_sent := w_sent w @ buffered_bytes reader, w_shutdown := True\<rparr>)"
  using assms
proof (induction "length (buffered_bytes reader)" arbitrary: reader w copied rule: less_induct)
  case less
  have pos: "0 < COPY_BUFFER_BYTES" by (simp add: COPY_BUFFER_BYTES_def)
  obtain r b where rb: "poll_read COPY_BUFFER_BYTES reader = Inr (r, b)"
    using poll_read_ok [OF less.prems(1)] by blast
  note read = poll_read_Inr [OF rb pos]
  show ?case
  proof (cases "r = []")
    case True
    with read(2) rb less.prems(3) show ?thesis by (subst copy_until_eof.simps) simp
  next
    case False
    have w: "write_all r w = Inr (w\<lparr>w_sent := w_sent w @ r\<rparr>)" by (simp add: write_all_def less.prems(2))
    have "copy_until_eof reader w copied =
        copy_until_eof b (w\<lparr>w_sent := w_sent w @ r\<rparr>) (min (copied + length r) U64_MAX)"
      using False rb w by (subst copy_until_eof.simps) simp
    also have "\<dots> = Inr (min (min (copied + length r) U64_MAX + length (buffered_bytes b)) U64_MAX,
        w\<lparr>w_sent := w_sent w @ r @ buffered_bytes b, w_shutdown := True\<rparr>)"
      using less.hyps [OF poll_read_smaller [OF rb pos False] read(3) [OF less.prems(1)]] less.prems(2)
      by simp
    finally show ?thesis unfolding read(1) [symmetric] by (simp add: min_def)
  qed
qed

text \<open>The request as a function of all bytes the client sends: what follows the header is read-ahead.\<close>

definition connect_request_spec :: "string \<Rightarrow> connect_error + parsed_connect" where
  "connect_request_spec bytes =
     and_then (connect_header_spec bytes) (\<lambda>(header, rest).
     and_then (parse_connect_header header) (\<lambda>(authority, host, has_body).
     Inr \<lparr>pc_authority = authority, pc_host = host, pc_has_body = has_body, pc_read_ahead = rest\<rparr>))"

lemma map_ok_Inr: "map_ok f r = Inr y \<longleftrightarrow> (\<exists>x. r = Inr x \<and> y = f x)"
  by (cases r) auto

lemma read_connect_request_spec:
  assumes "stream_ok stream"
  shows "map_ok (\<lambda>(p, rest). p\<lparr>pc_read_ahead := pc_read_ahead p @ stream_bytes rest\<rparr>)
      (read_connect_request stream) = connect_request_spec (stream_bytes stream)"
proof (cases "read_header [] stream")
  case (Inl e)
  then have "connect_header_spec (stream_bytes stream) = Inl e"
    using read_header_spec [OF find_sub_empty _ assms] header_limits by simp
  with Inl show ?thesis by (simp add: read_connect_request_def connect_request_spec_def)
next
  case (Inr x)
  obtain n bs s where x: "x = (n, bs, s)" by (cases x) auto
  have "connect_header_spec (stream_bytes stream) = Inr (take n bs, drop n bs @ stream_bytes s)"
    using read_header_spec [OF find_sub_empty _ assms] header_limits Inr x by simp
  with Inr x show ?thesis
    by (cases "parse_connect_header (take n bs)")
      (auto simp: read_connect_request_def connect_request_spec_def)
qed

definition writes_client :: "effect \<Rightarrow> bool" where
  "writes_client e \<longleftrightarrow> (case e of WriteClient _ \<Rightarrow> True | _ \<Rightarrow> False)"

lemma handle_tunnel_effects:
  "handle_tunnel env client d m = (es, m', res) \<Longrightarrow>
     length (filter writes_client es) = 1 \<and> hd es = Dial d \<and> (\<forall>d'. Dial d' \<in> set es \<longrightarrow> d' = d) \<and>
     (\<forall>layer d'. Relay layer d' \<notin> set es)"
  by (auto simp: handle_tunnel_def writes_client_def split: connect_outcome.splits if_splits)

lemma intercept_client_effects:
  assumes "intercept_client env hp policy secrets settings authority d m = (es, m', res)"
  shows "length (filter writes_client es) = 1"
    "Dial d' \<in> set es \<Longrightarrow> d' = d \<and> (\<exists>hello. pe_hello env = HelloFound hello \<and>
      permits_tls_interception_authority hp policy authority (ch_server_name hello))"
    "Relay layer d' \<in> set es \<Longrightarrow> d' = d \<and>
      layer = \<lparr>pl_policy = policy, pl_connect_authority = authority, pl_secrets = secrets\<rparr> \<and>
      (\<exists>hello config. pe_hello env = HelloFound hello \<and>
        connector_data (pe_tls env) (ts_build settings) (ts_trust settings) hello d = Inr config \<and>
        es = [WriteClient (response_200 @ CRLF @ CRLF), Dial d, Handshake (ts_relay settings) config d, Relay layer d])"
  using assms
  by (auto simp: intercept_client_def writes_client_def Let_def
      split: hello_outcome.splits connect_outcome.splits if_splits sum.splits)

text \<open>The rule of an intercepted CONNECT: there is one per host.\<close>

lemma intercepted_rule:
  assumes "wf_session c"
    and "authorize_connect_authority hp (session_policy_compile hmac b64url c seed) authority hosts = Inr (mode, d)"
    and "parse_authority_text hp authority (Some 443) = Inr d'" "rule \<in> set (sc_rules c)" "hr_host rule = d_host d'"
  shows "d' = d \<and> hr_mode rule = mode"
proof -
  have dist: "distinct (map hr_host (sc_rules c))" using assms(1) by (simp add: wf_session_def)
  have "d' = d" using assms(2,3) by (auto simp: authorize_connect_Inr)
  moreover have "sp_rules (session_policy_compile hmac b64url c seed) (d_host d') = Some (compile_rule hmac b64url c seed rule)"
    using compile_lookup [OF dist] assms(4,5) by blast
  ultimately show ?thesis using assms(2) by (simp add: authorize_connect_Inr)
qed

definition host_list :: "parsed_connect \<Rightarrow> string list" where
  "host_list p = (case pc_host p of None \<Rightarrow> [] | Some h \<Rightarrow> [h])"

lemma handle_client_cases:
  assumes "handle_client env hp policy secrets settings stream m = (es, m', res)"
  obtains (refused) response where "es = [WriteClient response]"
  | (tunnel) p rest d where "read_connect_request stream = Inr (p, rest)" "\<not> pc_has_body p"
      "authorize_connect_authority hp policy (pc_authority p) (host_list p) = Inr (TunnelMode, d)"
      "handle_tunnel env (buffered_new rest (pc_read_ahead p)) d m = (es, m', res)"
  | (intercept) p rest d where "read_connect_request stream = Inr (p, rest)" "\<not> pc_has_body p"
      "authorize_connect_authority hp policy (pc_authority p) (host_list p) = Inr (InterceptMode, d)"
      "intercept_client env hp policy secrets settings (pc_authority p) d m = (es, m', res)"
proof (cases "pe_read_timeout env")
  case True
  with assms refused show thesis by (auto simp: handle_client_def)
next
  case False
  show thesis
  proof (cases "read_connect_request stream")
    case (Inl e)
    with False assms refused show thesis by (auto simp: handle_client_def)
  next
    case (Inr pr)
    obtain p rest where pr: "pr = (p, rest)" by fastforce
    show thesis
    proof (cases "authorize_connect_authority hp policy (pc_authority p) (host_list p)")
      case (Inl e)
      with Inr pr False assms refused show thesis
        by (auto simp: handle_client_def host_list_def Let_def)
    next
      case auth: (Inr md)
      obtain mode d where md: "md = (mode, d)" by fastforce
      show thesis
        using Inr pr False assms auth md refused tunnel intercept
        by (cases "pc_has_body p"; cases mode) (auto simp: handle_client_def host_list_def Let_def)
    qed
  qed
qed

subsection \<open>Properties\<close>

text \<open>
  C22. Reading a CONNECT request does not depend on how the network cuts the bytes into pieces:
  request, error and the bytes left for the tunnel are a function of the byte sequence alone.
  The header is at most 16 KiB and less than 20 KiB are ever buffered.
\<close>

theorem connect_request_chunking:
  assumes "stream_ok stream"
  shows "map_ok (\<lambda>(p, rest). p\<lparr>pc_read_ahead := pc_read_ahead p @ stream_bytes rest\<rparr>)
      (read_connect_request stream) = connect_request_spec (stream_bytes stream) \<and>
    (\<forall>n bytes rest. read_header [] stream = Inr (n, bytes, rest) \<longrightarrow>
       n \<le> MAX_CONNECT_HEADER_BYTES \<and> n \<le> length bytes \<and>
       length bytes < MAX_CONNECT_HEADER_BYTES + READ_BUFFER_BYTES)"
  using read_connect_request_spec [OF assms] read_header_bounds [of "[]" stream] header_limits by auto

definition example_stream :: "io_chunk list" where
  "example_stream = [Bytes ''CONNECT web.com HTTP/1.1'', Bytes [CHR 0x0D], Bytes [CHR 0x0A, CHR 0x0D, CHR 0x0A, CHR ''x'']]"

lemma example_request:
  "connect_request_spec (stream_bytes example_stream) =
     Inr \<lparr>pc_authority = ''web.com'', pc_host = None, pc_has_body = False, pc_read_ahead = ''x''\<rparr>"
proof -
  let ?line = "''CONNECT web.com HTTP/1.1''"
  have "find_sub terminator (?line @ CRLF @ CRLF @ ''x'') = Some 24"
    by (simp add: CRLF_def)
  then have h: "connect_header_spec (stream_bytes example_stream) = Inr (?line @ CRLF @ CRLF, ''x'')"
    by (simp add: example_stream_def connect_header_spec_def CRLF_def MAX_CONNECT_HEADER_BYTES_def)
  have "split_str CRLF ?line = [?line]" by (subst split_str.simps) (simp add: CRLF_def)
  moreover have "split_ascii_whitespace ?line = [''CONNECT'', ''web.com'', ''HTTP/1.1'']"
    by (simp add: eval_simps)
  moreover have "list_all is_ascii (?line @ CRLF @ CRLF)" by (simp add: CRLF_def eval_simps)
  moreover have "take (length (?line @ CRLF @ CRLF) - 4) (?line @ CRLF @ CRLF) = ?line" by simp
  ultimately have "parse_connect_header (?line @ CRLF @ CRLF) = Inr (''web.com'', None, False)"
    unfolding parse_connect_header_def by (simp only: simp_thms if_True if_False list.case
        parse_header_lines.simps and_then.simps prod.case)
  with h show ?thesis by (simp add: connect_request_spec_def)
qed

theorem connect_request_chunking_witness:
  "\<exists>p rest. read_connect_request example_stream = Inr (p, rest) \<and> pc_authority p = ''web.com'' \<and>
     pc_read_ahead p @ stream_bytes rest = ''x''"
proof -
  have "stream_ok example_stream" by (simp add: example_stream_def)
  from connect_request_chunking [OF this] obtain p rest where
    "read_connect_request example_stream = Inr (p, rest)"
    "p\<lparr>pc_read_ahead := pc_read_ahead p @ stream_bytes rest\<rparr> =
       \<lparr>pc_authority = ''web.com'', pc_host = None, pc_has_body = False, pc_read_ahead = ''x''\<rparr>"
    by (auto simp: example_request map_ok_Inr)
  then show ?thesis by (cases p) auto
qed

text \<open>
  C37. A tunnel is transparent: when neither peer fails, the upstream server receives exactly
  the bytes the client sent after the header of its request, in order and including those that
  were read together with the header, the client receives exactly the bytes of the server, and
  both directions are shut down after the last byte.
\<close>

theorem tunnel_transparent:
  assumes "stream_ok stream" and "read_connect_request stream = Inr (p, rest)"
    and "stream_ok upstream" and "w_room up = None" and "w_room down = None"
  shows "\<exists>i. find_sub terminator (stream_bytes stream) = Some i \<and>
    (let sent = drop (i + 4) (stream_bytes stream); received = stream_bytes upstream in
     copy_bidirectional (buffered_new rest (pc_read_ahead p)) up (buffered_new upstream []) down =
       Inr ((min (length sent) U64_MAX, up\<lparr>w_sent := w_sent up @ sent, w_shutdown := True\<rparr>),
            (min (length received) U64_MAX, down\<lparr>w_sent := w_sent down @ received, w_shutdown := True\<rparr>)))"
proof -
  from read_connect_request_spec [OF assms(1)] assms(2)
  have spec: "connect_request_spec (stream_bytes stream) = Inr (p\<lparr>pc_read_ahead := pc_read_ahead p @ stream_bytes rest\<rparr>)"
    by simp
  then obtain header where h: "connect_header_spec (stream_bytes stream) = Inr (header, pc_read_ahead p @ stream_bytes rest)"
    by (cases p) (auto simp: connect_request_spec_def result_simps)
  then obtain i where i: "find_sub terminator (stream_bytes stream) = Some i"
    "header = take (i + 4) (stream_bytes stream)"
    "pc_read_ahead p @ stream_bytes rest = drop (i + 4) (stream_bytes stream)"
    by (auto simp: connect_header_spec_def split: option.splits if_splits)
  have "stream_ok rest"
  proof -
    from assms(2) obtain n bs where "read_header [] stream = Inr (n, bs, rest)"
      by (auto simp: read_connect_request_def result_simps)
    then show ?thesis using read_header_ok [OF assms(1), of "[]"] header_limits by auto
  qed
  then show ?thesis
    using assms(3-) i
    by (auto simp: copy_bidirectional_def copy_until_eof_ok buffered_new_def buffered_bytes_def Let_def)
qed

theorem tunnel_transparent_witness:
  "\<exists>p rest n m. read_connect_request example_stream = Inr (p, rest) \<and>
     copy_bidirectional (buffered_new rest (pc_read_ahead p)) \<lparr>w_sent = [], w_shutdown = False, w_room = None\<rparr>
       (buffered_new [Bytes ''a'', Bytes ''b''] []) \<lparr>w_sent = [], w_shutdown = False, w_room = None\<rparr> =
     Inr ((n, \<lparr>w_sent = ''x'', w_shutdown = True, w_room = None\<rparr>),
          (m, \<lparr>w_sent = ''ab'', w_shutdown = True, w_room = None\<rparr>))"
proof -
  let ?w = "\<lparr>w_sent = [], w_shutdown = False, w_room = None\<rparr>"
  have ok: "stream_ok example_stream" by (simp add: example_stream_def)
  obtain p rest where pr: "read_connect_request example_stream = Inr (p, rest)"
    using read_connect_request_spec [OF ok] by (auto simp: example_request map_ok_Inr)
  have "find_sub terminator (stream_bytes example_stream) = Some 24"
    by (simp add: example_stream_def CRLF_def)
  moreover have "drop 28 (stream_bytes example_stream) = ''x''" by (simp add: example_stream_def)
  ultimately show ?thesis
    using tunnel_transparent [OF ok pr, of "[Bytes ''a'', Bytes ''b'']" ?w ?w] pr
    by (auto simp: Let_def)
qed

text \<open>
  C2. A connection is answered and dialled as the policy says: every handled connection gets
  exactly one response line; the proxy opens an upstream connection only to the destination
  that the policy authorised for the request, which then has no body; for an intercepted host
  only after the ClientHello named that host; and requests are relayed only over it.
\<close>

theorem upstream_dial_authorized:
  assumes "handle_client env hp policy secrets settings stream m = (es, m', res)"
  shows "length (filter writes_client es) = 1 \<and>
    (\<forall>d. Dial d \<in> set es \<longrightarrow> (\<exists>p rest mode. read_connect_request stream = Inr (p, rest) \<and> \<not> pc_has_body p \<and>
       authorize_connect_authority hp policy (pc_authority p) (host_list p) = Inr (mode, d) \<and>
       (mode = InterceptMode \<longrightarrow> (\<exists>hello. pe_hello env = HelloFound hello \<and>
          permits_tls_interception_authority hp policy (pc_authority p) (ch_server_name hello))))) \<and>
    (\<forall>layer d. Relay layer d \<in> set es \<longrightarrow> Dial d \<in> set es \<and> pl_policy layer = policy \<and> pl_secrets layer = secrets \<and>
       (\<exists>p rest. read_connect_request stream = Inr (p, rest) \<and> pl_connect_authority layer = pc_authority p \<and>
          authorize_connect_authority hp policy (pc_authority p) (host_list p) = Inr (InterceptMode, d)))"
  using assms
proof (cases rule: handle_client_cases)
  case (refused response)
  then show ?thesis by (simp add: writes_client_def)
next
  case (tunnel p rest d)
  then show ?thesis using handle_tunnel_effects [OF tunnel(4)] by force
next
  case (intercept p rest d)
  note e = intercept_client_effects [OF intercept(4)]
  have "pl_policy layer = policy \<and> pl_secrets layer = secrets \<and> pl_connect_authority layer = pc_authority p \<and>
      d' = d \<and> Dial d \<in> set es" if "Relay layer d' \<in> set es" for layer d'
    using e(3) [OF that] by auto
  with intercept e(1,2) show ?thesis by blast
qed

definition example_hello :: client_hello where
  "example_hello = \<lparr>ch_server_name = Some ''web.com'', ch_parameters = ''h2''\<rparr>"

text \<open>A TLS library that takes every name and every configuration.\<close>

definition example_tls :: tls_lib where
  "example_tls = \<lparr>tl_domain = Inr, tl_trust_anchors = (\<lambda>_. Inr ()), tl_connector = (\<lambda>_. Inr ())\<rparr>"

definition example_env :: proxy_env where
  "example_env = \<lparr>pe_read_timeout = False, pe_write_ok = True, pe_connect = (\<lambda>_. Connected),
     pe_upstream = [], pe_upstream_writer = \<lparr>w_sent = [], w_shutdown = False, w_room = None\<rparr>,
     pe_client_writer = \<lparr>w_sent = [], w_shutdown = False, w_room = None\<rparr>,
     pe_hello = HelloFound example_hello, pe_tls = example_tls, pe_handshake = (\<lambda>_. Inr ()),
     pe_relay = Inr ()\<rparr>"

definition example_settings :: tls_settings where
  "example_settings = \<lparr>ts_relay = new_cached_relay (''certificate'', ''key''), ts_trust = trust_default,
     ts_build = release_build\<rparr>"

definition example_destination :: destination where
  "example_destination = \<lparr>d_host = ''web.com'', d_port = 443\<rparr>"

definition example_layer :: policy_layer where
  "example_layer = \<lparr>pl_policy = session_policy_compile (\<lambda>k m. m) id example_session ''s'',
     pl_connect_authority = ''web.com'', pl_secrets = [''api.token'' \<mapsto> ''real'']\<rparr>"

lemma example_handled:
  "\<exists>es m' res. handle_client example_env plain_hosts (session_policy_compile (\<lambda>k m. m) id example_session ''s'')
     [''api.token'' \<mapsto> ''real''] example_settings example_stream metrics_default = (es, m', res) \<and>
     Dial example_destination \<in> set es \<and> Relay example_layer example_destination \<in> set es"
proof -
  let ?p = "session_policy_compile (\<lambda>k m. m) id example_session ''s''"
  let ?d = example_destination
  have ok: "stream_ok example_stream" by (simp add: example_stream_def)
  obtain p rest where pr: "read_connect_request example_stream = Inr (p, rest)"
    "p\<lparr>pc_read_ahead := pc_read_ahead p @ stream_bytes rest\<rparr> =
       \<lparr>pc_authority = ''web.com'', pc_host = None, pc_has_body = False, pc_read_ahead = ''x''\<rparr>"
    using read_connect_request_spec [OF ok] by (auto simp: example_request map_ok_Inr)
  then have p: "pc_authority p = ''web.com''" "pc_host p = None" "\<not> pc_has_body p" by (cases p; auto)+
  have rule: "sp_rules ?p ''web.com'' = Some (compile_rule (\<lambda>k m. m) id example_session ''s''
      (hd (sc_rules example_session)))"
    by (simp add: session_policy_compile_def example_session_def)
  have auth: "authorize_connect_authority plain_hosts ?p ''web.com'' [] = Inr (InterceptMode, ?d)"
    using rule by (simp add: authorize_connect_Inr example_authorities validate_host_header_text_def example_destination_def)
      (simp add: example_session_def)
  have sni: "permits_tls_interception_authority plain_hosts ?p ''web.com'' (Some ''web.com'')"
    using auth by (simp add: permits_tls_interception_authority_def normalize_example example_destination_def)
  have connector: "\<exists>config. connector_data example_tls release_build trust_default example_hello ?d = Inr config"
    by (simp add: connector_data_def egress_config_def rama_host_def example_tls_def)
  show ?thesis
    using pr(1) p auth sni connector
    by (auto simp: handle_client_def example_env_def example_settings_def example_hello_def example_layer_def
        intercept_client_def Let_def)
qed

theorem upstream_dial_authorized_witness:
  "\<exists>es m' res. handle_client example_env plain_hosts (session_policy_compile (\<lambda>k m. m) id example_session ''s'')
     [''api.token'' \<mapsto> ''real''] example_settings example_stream metrics_default = (es, m', res) \<and>
     Dial example_destination \<in> set es \<and> length (filter writes_client es) = 1"
proof -
  obtain es m' res where h: "handle_client example_env plain_hosts
      (session_policy_compile (\<lambda>k m. m) id example_session ''s'') [''api.token'' \<mapsto> ''real''] example_settings
      example_stream metrics_default = (es, m', res)" "Dial example_destination \<in> set es"
    using example_handled by blast
  with upstream_dial_authorized [OF h(1)] show ?thesis by auto
qed

text \<open>
  C3. An intercepted request reaches only the server that its rule names. When a request of an
  intercepted connection is forwarded, the proxy had dialled the destination of the CONNECT, and
  before any request the TLS connection to it was made with a configuration in which the server
  is verified, as the host of that destination whatever the ClientHello of the client says, in
  which session keys are not logged, and which trusts beside the system roots only the anchor of
  a test build, in a release none. That host, port and path are those of one rule of the session,
  which intercepts; and every header with an injected credential carries the secret of the
  connection's own generation.
\<close>

theorem intercepted_connection_bound:
  assumes "http_lib_laws lib" and "wf_session c"
    and "handle_client env hp (session_policy_compile hmac b64url c seed) secrets settings stream m = (es, m', res)"
    and "Relay layer d \<in> set es" and "layer_serve lib hp layer request = Forward r'"
  shows "\<exists>config name rule.
    es = [WriteClient (response_200 @ CRLF @ CRLF), Dial d, Handshake (ts_relay settings) config d, Relay layer d] \<and>
    tl_domain (pe_tls env) (d_host d) = Inr name \<and> verified_as config name \<and>
    extra_anchors config = (if ts_build settings = release_build then []
      else case trust_certificate (ts_build settings) (ts_trust settings) of None \<Rightarrow> [] | Some der \<Rightarrow> [der]) \<and>
    rule \<in> set (sc_rules c) \<and> hr_mode rule = InterceptMode \<and> hr_host rule = d_host d \<and> d_port d \<in> set (hr_ports rule) \<and>
    (hr_paths rule \<noteq> [] \<longrightarrow> (\<exists>p. rq_path r' = Some p \<and> canonicalize_path p = Inr p \<and>
      (\<exists>pattern \<in> set (hr_paths rule). matches_path_pattern pattern p))) \<and>
    (\<forall>i \<in> set (hr_inject rule). effective_credential_mode c (hi_secret i) = Inject \<longrightarrow>
      (\<exists>secret text v. secrets (hi_secret i) = Some secret \<and> format_injected_secret lib i secret = Inr text \<and>
        header_value lib text = Some v \<and> get_all lib (rq_headers r') (header_key i) = [v]))"
  using assms(3)
proof (cases rule: handle_client_cases)
  case (refused response)
  with assms(4) show ?thesis by simp
next
  case (tunnel p rest d')
  with assms(4) handle_tunnel_effects [OF tunnel(4)] show ?thesis by blast
next
  case (intercept p rest d')
  let ?policy = "session_policy_compile hmac b64url c seed"
  let ?compile = "compile_credential hmac b64url c seed"
  from intercept_client_effects(3) [OF intercept(4) assms(4)] obtain hello config where
    layer: "d' = d" "layer = \<lparr>pl_policy = ?policy, pl_connect_authority = pc_authority p, pl_secrets = secrets\<rparr>"
    and config: "connector_data (pe_tls env) (ts_build settings) (ts_trust settings) hello d = Inr config"
    and es: "es = [WriteClient (response_200 @ CRLF @ CRLF), Dial d, Handshake (ts_relay settings) config d, Relay layer d]"
    by blast
  from connector_data_Inr(1) [OF config] obtain name where
    name: "tl_domain (pe_tls env) (d_host d) = Inr name" "verified_as config name" by blast
  from assms(5) have run: "serve lib hp ?policy (pc_authority p) secrets request = Forward r'"
    by (simp add: layer_serve_def layer(2))
  show ?thesis
  proof (rule forwarded_rule [OF assms(2) run])
    fix d2 rule
    assume r: "parse_authority_text hp (pc_authority p) (Some 443) = Inr d2" "rule \<in> set (sc_rules c)"
      "hr_host rule = d_host d2" "d_port d2 \<in> set (hr_ports rule)"
      "if hr_paths rule = [] then rq_path r' = rq_path request
       else \<exists>p. rq_path r' = Some p \<and> canonicalize_path p = Inr p \<and>
         (\<exists>pattern \<in> set (hr_paths rule). matches_path_pattern pattern p)"
      and creds: "apply_header_credentials lib (rq_headers request) (map ?compile (hr_inject rule)) secrets =
        Inr (rq_headers r')" "distinct (map cred_key (map ?compile (hr_inject rule)))"
    from intercepted_rule [OF assms(2) intercept(3) r(1-3)] layer(1) have d: "d2 = d" "hr_mode rule = InterceptMode" by simp_all
    have fields: "cc_injection (?compile i) = i" "cc_mode (?compile i) = effective_credential_mode c (hi_secret i)" for i
      by (simp_all add: compile_credential_def Let_def)
    have "\<exists>secret text v. secrets (hi_secret i) = Some secret \<and> format_injected_secret lib i secret = Inr text \<and>
        header_value lib text = Some v \<and> get_all lib (rq_headers r') (header_key i) = [v]"
      if "i \<in> set (hr_inject rule)" "effective_credential_mode c (hi_secret i) = Inject" for i
      using injected_header [OF assms(1) creds, of "?compile i"] that by (simp add: fields)
    with r d es name connector_data_Inr(2) [OF config] show ?thesis
      by (intro exI [of _ config] exI [of _ name] exI [of _ rule]) auto
  qed
qed

theorem intercepted_connection_bound_witness:
  "\<exists>es m' res r' config. handle_client example_env plain_hosts
       (session_policy_compile (\<lambda>k m. m) id example_session ''s'') [''api.token'' \<mapsto> ''real''] example_settings
       example_stream metrics_default = (es, m', res) \<and>
     layer_serve example_lib plain_hosts example_layer Header_Credentials.example_request = Forward r' \<and>
     Handshake (new_cached_relay (''certificate'', ''key'')) config example_destination \<in> set es \<and>
     verified_as config ''web.com'' \<and> extra_anchors config = []"
proof -
  let ?p = "session_policy_compile (\<lambda>k m. m) id example_session ''s''"
  let ?s = "[''api.token'' \<mapsto> ''real''] :: string \<rightharpoonup> string"
  obtain es m' res where h: "handle_client example_env plain_hosts ?p ?s example_settings example_stream metrics_default =
      (es, m', res)" "Relay example_layer example_destination \<in> set es"
    using example_handled by blast
  obtain r' where r': "layer_serve example_lib plain_hosts example_layer Header_Credentials.example_request = Forward r'"
    using example_forwards [of ?s "''real''"] by (fastforce simp: layer_serve_def example_layer_def)
  from intercepted_connection_bound [OF example_lib_laws example_wf h r'] obtain config name where
    "Handshake (ts_relay example_settings) config example_destination \<in> set es"
    "tl_domain (pe_tls example_env) (d_host example_destination) = Inr name" "verified_as config name"
    "extra_anchors config = []"
    by (fastforce simp: example_settings_def)
  with h(1) r' show ?thesis
    by (auto simp: example_settings_def example_env_def example_tls_def example_destination_def)
qed

end
