(* ===== verification/Runtime_Ingress.thy ===== *)
theory Runtime_Ingress
  imports Session_Manager Connect_Proxy
begin

text \<open>
  The accept loop of a proxy runtime (\<open>run_proxy\<close> of \<open>proxy_runtime/rama/ingress.rs\<close>) and the
  tasks around it (\<open>proxy_runtime/rama.rs\<close>). The runtimes of a session share the connection
  permits, the listener gate and the counters; each has its listener, the policy generation that
  new connections get, its cancellation tokens and the set of its connection tasks.

  A poll of the loop is a function, and so is every other operation; the step relation interleaves
  them. A connection task is queued, then serves, and when its future is dropped it gives back its
  permit and leaves the gauge together.
\<close>

subsection \<open>State\<close>

text \<open>
  A task that was aborted remembers whether it had started; a task that returned or panicked has
  released its permit and waits to be joined.
\<close>

datatype task_state = Queued | Serving | Aborting bool | Returned | Panicked string

record connection =
  cn_stream :: "io_chunk list"
  cn_generation :: generation
  cn_state :: task_state

datatype phase = Accepting | Draining | Finished "proxy_runtime_error + unit"

record listener =
  ln_generation :: u64
  ln_current :: generation
  ln_cancelled :: bool
  ln_retirement :: bool
  ln_retired :: bool
  ln_guard :: bool
  ln_phase :: phase
  ln_connections :: "connection list"
  ln_reported :: bool

record runtime_event =
  re_listener_generation :: u64
  re_retired :: bool
  re_result :: "proxy_runtime_error + unit"

record ingress =
  in_permits :: nat
  in_gate :: u64
  in_metrics :: metrics
  in_tls :: tls_settings
  in_listeners :: "listener list"
  in_events :: "runtime_event list"

definition ingress_new :: "tls_settings \<Rightarrow> nat \<Rightarrow> u64 \<Rightarrow> ingress" where
  "ingress_new tls max_connections gate = \<lparr>in_permits = max_connections, in_gate = gate, in_metrics = metrics_default,
     in_tls = tls, in_listeners = [], in_events = []\<rparr>"

definition listener_start :: "u64 \<Rightarrow> generation \<Rightarrow> listener" where
  "listener_start listener_generation generation = \<lparr>ln_generation = listener_generation, ln_current = generation,
     ln_cancelled = False, ln_retirement = False, ln_retired = False, ln_guard = True, ln_phase = Accepting,
     ln_connections = [], ln_reported = False\<rparr>"

fun unreleased :: "task_state \<Rightarrow> bool" where
  "unreleased Queued = True"
| "unreleased Serving = True"
| "unreleased (Aborting started) = True"
| "unreleased _ = False"

fun counted :: "task_state \<Rightarrow> bool" where
  "counted Serving = True"
| "counted (Aborting started) = started"
| "counted _ = False"

subsection \<open>The accept loop\<close>

text \<open>Dropping the set of tasks aborts those that have not ended.\<close>

definition abort_connection :: "connection \<Rightarrow> connection" where
  "abort_connection c = c\<lparr>cn_state := Aborting (counted (cn_state c))\<rparr>"

definition abort_connections :: "connection list \<Rightarrow> connection list" where
  "abort_connections cs = map abort_connection (filter (\<lambda>c. unreleased (cn_state c)) cs)"

definition return_error :: "proxy_runtime_error \<Rightarrow> listener \<Rightarrow> listener" where
  "return_error e l = l\<lparr>ln_phase := Finished (Inl e), ln_connections := abort_connections (ln_connections l)\<rparr>"

definition remove_nth :: "nat \<Rightarrow> 'a list \<Rightarrow> 'a list" where
  "remove_nth j xs = take j xs @ drop (Suc j) xs"

text \<open>
  One turn of the loop: the tokens first, then a task that has ended, then the listener. The
  result is the listener and the permits afterwards.
\<close>

definition proxy_poll :: "nat option \<Rightarrow> (io_error + io_chunk list) option \<Rightarrow> u64 \<Rightarrow> nat \<Rightarrow> listener \<Rightarrow> listener \<times> nat" where
  "proxy_poll joined accepted gate permits l =
     (if ln_cancelled l \<or> ln_retirement l then (l\<lparr>ln_phase := Draining, ln_guard := False\<rparr>, permits)
      else (case joined of
         Some j \<Rightarrow>
           (case cn_state (ln_connections l ! j) of
              Panicked e \<Rightarrow> (return_error (Task e) l, permits)
            | _ \<Rightarrow> (l\<lparr>ln_connections := remove_nth j (ln_connections l)\<rparr>, permits))
       | None \<Rightarrow>
           (case accepted of
              None \<Rightarrow> (l, permits)
            | Some (Inl e) \<Rightarrow> (return_error (BindSocket e) l, permits)
            | Some (Inr stream) \<Rightarrow>
                if gate \<noteq> ln_generation l then (l, permits)
                else if permits = 0 then (l, permits)
                else (l\<lparr>ln_connections := ln_connections l @
                        [\<lparr>cn_stream = stream, cn_generation = ln_current l, cn_state = Queued\<rparr>]\<rparr>, permits - 1))))"

text \<open>After the loop: the remaining tasks are joined, whatever their result.\<close>

definition drain_poll :: "nat option \<Rightarrow> listener \<Rightarrow> listener" where
  "drain_poll joined l =
     (case joined of
        Some j \<Rightarrow> l\<lparr>ln_connections := remove_nth j (ln_connections l)\<rparr>
      | None \<Rightarrow> if ln_connections l = [] then l\<lparr>ln_phase := Finished (Inr ())\<rparr> else l)"

text \<open>The tasks of a set that have ended: joining is ready when there is one.\<close>

definition joinable :: "listener \<Rightarrow> nat option \<Rightarrow> bool" where
  "joinable l joined =
     (case joined of
        Some j \<Rightarrow> j < length (ln_connections l) \<and> \<not> unreleased (cn_state (ln_connections l ! j))
      | None \<Rightarrow> list_all (\<lambda>c. unreleased (cn_state c)) (ln_connections l))"

subsection \<open>The runtime around it\<close>

definition mark_retiring :: "listener \<Rightarrow> listener" where
  "mark_retiring l = l\<lparr>ln_retired := True\<rparr>"

definition listener_retire :: "listener \<Rightarrow> listener" where
  "listener_retire l = (mark_retiring l)\<lparr>ln_retirement := True\<rparr>"

text \<open>Aborting the task of the loop drops the set of connections, unless the loop has returned.\<close>

definition abort_task :: "listener \<Rightarrow> listener" where
  "abort_task l =
     (case ln_phase l of
        Finished _ \<Rightarrow> l
      | _ \<Rightarrow> return_error (Task ''task was cancelled'') l)"

definition shutdown_listener :: "listener \<Rightarrow> listener" where
  "shutdown_listener l = l\<lparr>ln_guard := False, ln_cancelled := True\<rparr>"

definition drop_runtime :: "listener \<Rightarrow> listener" where
  "drop_runtime l = (abort_task (l\<lparr>ln_cancelled := True\<rparr>))\<lparr>ln_guard := False\<rparr>"

text \<open>The task that waits for the loop: a listener that was replaced reports only when it was retired.\<close>

definition report_exit :: "u64 \<Rightarrow> listener \<Rightarrow> runtime_event option" where
  "report_exit gate l =
     (case ln_phase l of
        Finished result \<Rightarrow>
          if ln_retired l \<or> gate = ln_generation l
          then Some \<lparr>re_listener_generation = ln_generation l, re_retired = ln_retired l, re_result = result\<rparr>
          else None
      | _ \<Rightarrow> None)"

subsection \<open>Steps\<close>

definition set_listener :: "nat \<Rightarrow> listener \<Rightarrow> ingress \<Rightarrow> ingress" where
  "set_listener i l s = s\<lparr>in_listeners := (in_listeners s)[i := l]\<rparr>"

definition set_connection :: "nat \<Rightarrow> nat \<Rightarrow> task_state \<Rightarrow> ingress \<Rightarrow> ingress" where
  "set_connection i j st s =
     (let l = in_listeners s ! i in
      set_listener i (l\<lparr>ln_connections := (ln_connections l)[j := (ln_connections l ! j)\<lparr>cn_state := st\<rparr>]\<rparr>) s)"

definition state_at :: "ingress \<Rightarrow> nat \<Rightarrow> nat \<Rightarrow> task_state \<Rightarrow> bool" where
  "state_at s i j st \<longleftrightarrow> i < length (in_listeners s) \<and> j < length (ln_connections (in_listeners s ! i)) \<and>
     cn_state (ln_connections (in_listeners s ! i) ! j) = st"

text \<open>A task ends: its guard leaves the gauge and its permit is free.\<close>

definition release :: "metrics \<Rightarrow> ingress \<Rightarrow> ingress" where
  "release m s = s\<lparr>in_permits := in_permits s + 1, in_metrics := m\<rparr>"

definition same_gauges :: "metrics \<Rightarrow> metrics \<Rightarrow> bool" where
  "same_gauges m m' \<longleftrightarrow> active_connections m' = active_connections m \<and> accepted_connections m' = accepted_connections m"

inductive ingress_step :: "host_parser \<Rightarrow> ingress \<Rightarrow> ingress \<Rightarrow> bool" for hp where
  poll: "i < length (in_listeners s) \<Longrightarrow> ln_phase (in_listeners s ! i) = Accepting \<Longrightarrow>
     joinable (in_listeners s ! i) joined \<Longrightarrow>
     proxy_poll joined accepted (in_gate s) (in_permits s) (in_listeners s ! i) = (l, permits) \<Longrightarrow>
     ingress_step hp s ((set_listener i l s)\<lparr>in_permits := permits\<rparr>)"
| drain: "i < length (in_listeners s) \<Longrightarrow> ln_phase (in_listeners s ! i) = Draining \<Longrightarrow>
     joinable (in_listeners s ! i) joined \<Longrightarrow>
     ingress_step hp s (set_listener i (drain_poll joined (in_listeners s ! i)) s)"
| serve: "state_at s i j Queued \<Longrightarrow>
     ingress_step hp s ((set_connection i j Serving s)\<lparr>in_metrics := connection_started (in_metrics s)\<rparr>)"
| serve_end: "state_at s i j Serving \<Longrightarrow> c = ln_connections (in_listeners s ! i) ! j \<Longrightarrow>
     handle_client env hp (pg_policy (cn_generation c)) (map_of (pg_secrets (cn_generation c))) (in_tls s) (cn_stream c) (in_metrics s) = (effects, m, result) \<Longrightarrow>
     ingress_step hp s (release (connection_stopped m) (set_connection i j Returned s))"
| serve_panic: "state_at s i j Serving \<Longrightarrow> same_gauges (in_metrics s) m \<Longrightarrow>
     ingress_step hp s (release (connection_stopped m) (set_connection i j (Panicked e) s))"
| abort_end: "state_at s i j (Aborting started) \<Longrightarrow> same_gauges (in_metrics s) m \<Longrightarrow>
     ingress_step hp s (release (if started then connection_stopped m else m) (set_connection i j Returned s))"
| start: "ingress_step hp s (s\<lparr>in_listeners := in_listeners s @ [listener_start listener_generation generation]\<rparr>)"
| replace: "i < length (in_listeners s) \<Longrightarrow>
     ingress_step hp s (set_listener i ((in_listeners s ! i)\<lparr>ln_current := generation\<rparr>) s)"
| gate: "ingress_step hp s (s\<lparr>in_gate := listener_generation\<rparr>)"
| retire: "i < length (in_listeners s) \<Longrightarrow> f = mark_retiring \<or> f = listener_retire \<Longrightarrow>
     ingress_step hp s (set_listener i (f (in_listeners s ! i)) s)"
| shutdown: "i < length (in_listeners s) \<Longrightarrow>
     ingress_step hp s (set_listener i (shutdown_listener (in_listeners s ! i)) s)"
| grace_over: "i < length (in_listeners s) \<Longrightarrow> ln_cancelled (in_listeners s ! i) \<Longrightarrow>
     ingress_step hp s ((set_listener i (abort_task (in_listeners s ! i)) s)\<lparr>in_metrics := snd (forced_shutdown (in_metrics s))\<rparr>)"
| dropped: "i < length (in_listeners s) \<Longrightarrow>
     ingress_step hp s (set_listener i (drop_runtime (in_listeners s ! i)) s)"
| report: "i < length (in_listeners s) \<Longrightarrow> ln_phase (in_listeners s ! i) = Finished result \<Longrightarrow>
     \<not> ln_reported (in_listeners s ! i) \<Longrightarrow>
     ingress_step hp s ((set_listener i ((in_listeners s ! i)\<lparr>ln_reported := True\<rparr>) s)
       \<lparr>in_events := in_events s @ (case report_exit (in_gate s) (in_listeners s ! i) of None \<Rightarrow> [] | Some e \<Rightarrow> [e])\<rparr>)"

definition ingress_reachable :: "host_parser \<Rightarrow> tls_settings \<Rightarrow> nat \<Rightarrow> u64 \<Rightarrow> ingress \<Rightarrow> bool" where
  "ingress_reachable hp tls max_connections gate s \<longleftrightarrow> (ingress_step hp)\<^sup>*\<^sup>* (ingress_new tls max_connections gate) s"

subsection \<open>Permits and gauges\<close>

definition held_in :: "connection list \<Rightarrow> nat" where
  "held_in cs = length (filter (\<lambda>c. unreleased (cn_state c)) cs)"

definition counted_in :: "connection list \<Rightarrow> nat" where
  "counted_in cs = length (filter (\<lambda>c. counted (cn_state c)) cs)"

definition held :: "ingress \<Rightarrow> nat" where
  "held s = sum_list (map (\<lambda>l. held_in (ln_connections l)) (in_listeners s))"

definition serving :: "ingress \<Rightarrow> nat" where
  "serving s = sum_list (map (\<lambda>l. counted_in (ln_connections l)) (in_listeners s))"

definition ingress_inv :: "nat \<Rightarrow> ingress \<Rightarrow> bool" where
  "ingress_inv max_connections s \<longleftrightarrow> in_permits s + held s = max_connections \<and>
     active_connections (in_metrics s) = of_nat (serving s)"

lemma counted_unreleased: "counted st \<Longrightarrow> unreleased st"
  by (cases st) auto

lemma counted_le_held: "counted_in cs \<le> held_in cs"
  by (induction cs) (auto simp: counted_in_def held_in_def dest: counted_unreleased)

lemma serving_le_held: "serving s \<le> held s"
  unfolding serving_def held_def by (rule sum_list_mono) (rule counted_le_held)

text \<open>The counts of one set of tasks.\<close>

lemma counts_abort [simp]:
  "held_in (abort_connections cs) = held_in cs" "counted_in (abort_connections cs) = counted_in cs"
  by (induction cs)
    (auto simp: held_in_def counted_in_def abort_connections_def abort_connection_def dest: counted_unreleased)

lemma counts_snoc:
  "held_in (cs @ [c]) = held_in cs + of_bool (unreleased (cn_state c))"
  "counted_in (cs @ [c]) = counted_in cs + of_bool (counted (cn_state c))"
  by (simp_all add: held_in_def counted_in_def)

lemma counts_nth:
  assumes "j < length cs"
  shows "held_in cs = held_in (take j cs) + of_bool (unreleased (cn_state (cs ! j))) + held_in (drop (Suc j) cs)"
    "counted_in cs = counted_in (take j cs) + of_bool (counted (cn_state (cs ! j))) + counted_in (drop (Suc j) cs)"
  using arg_cong [OF id_take_nth_drop [OF assms], of held_in] arg_cong [OF id_take_nth_drop [OF assms], of counted_in]
  by (simp_all add: held_in_def counted_in_def)

lemma counts_update:
  assumes "j < length cs"
  shows "held_in (cs[j := c]) + of_bool (unreleased (cn_state (cs ! j))) = held_in cs + of_bool (unreleased (cn_state c))"
    "counted_in (cs[j := c]) + of_bool (counted (cn_state (cs ! j))) = counted_in cs + of_bool (counted (cn_state c))"
  using counts_nth [OF assms] counts_nth [of j "cs[j := c]"] assms by simp_all

lemma counts_remove:
  assumes "j < length cs" "\<not> unreleased (cn_state (cs ! j))"
  shows "held_in (remove_nth j cs) = held_in cs" "counted_in (remove_nth j cs) = counted_in cs"
  using counts_nth [OF assms(1)] assms(2) counted_unreleased [of "cn_state (cs ! j)"]
  by (auto simp: remove_nth_def held_in_def counted_in_def)

text \<open>A step on one listener.\<close>

lemma counts_set_listener:
  assumes "i < length (in_listeners s)"
  shows "held (set_listener i l s) + held_in (ln_connections (in_listeners s ! i)) = held s + held_in (ln_connections l)"
    "serving (set_listener i l s) + counted_in (ln_connections (in_listeners s ! i)) = serving s + counted_in (ln_connections l)"
proof -
  have le: "f (in_listeners s ! i) \<le> sum_list (map f (in_listeners s))" for f :: "listener \<Rightarrow> nat"
    using elem_le_sum_list [of i "map f (in_listeners s)"] assms by simp
  show "held (set_listener i l s) + held_in (ln_connections (in_listeners s ! i)) = held s + held_in (ln_connections l)"
    using assms le [of "\<lambda>l. held_in (ln_connections l)"]
    by (simp add: held_def set_listener_def map_update sum_list_update)
  show "serving (set_listener i l s) + counted_in (ln_connections (in_listeners s ! i)) = serving s + counted_in (ln_connections l)"
    using assms le [of "\<lambda>l. counted_in (ln_connections l)"]
    by (simp add: serving_def set_listener_def map_update sum_list_update)
qed

lemma counts_fields [simp]:
  "held (s\<lparr>in_permits := p\<rparr>) = held s" "serving (s\<lparr>in_permits := p\<rparr>) = serving s"
  "held (s\<lparr>in_metrics := m\<rparr>) = held s" "serving (s\<lparr>in_metrics := m\<rparr>) = serving s"
  "held (s\<lparr>in_gate := g\<rparr>) = held s" "serving (s\<lparr>in_gate := g\<rparr>) = serving s"
  "held (s\<lparr>in_events := es\<rparr>) = held s" "serving (s\<lparr>in_events := es\<rparr>) = serving s"
  by (simp_all add: held_def serving_def)

lemma set_listener_fields [simp]:
  "in_permits (set_listener i l s) = in_permits s" "in_metrics (set_listener i l s) = in_metrics s"
  "in_gate (set_listener i l s) = in_gate s" "in_events (set_listener i l s) = in_events s"
  by (simp_all add: set_listener_def)

lemma set_connection_fields [simp]:
  "in_permits (set_connection i j st s) = in_permits s" "in_metrics (set_connection i j st s) = in_metrics s"
  by (simp_all add: set_connection_def Let_def)

lemma inv_set_listener:
  assumes "ingress_inv n s" "i < length (in_listeners s)"
    "held_in (ln_connections l) = held_in (ln_connections (in_listeners s ! i))"
    "counted_in (ln_connections l) = counted_in (ln_connections (in_listeners s ! i))"
  shows "ingress_inv n (set_listener i l s)"
  using assms counts_set_listener [OF assms(2), of l] by (simp add: ingress_inv_def)

lemma counts_set_connection:
  assumes "state_at s i j st0"
  shows "held (set_connection i j st s) + of_bool (unreleased st0) = held s + of_bool (unreleased st)"
    "serving (set_connection i j st s) + of_bool (counted st0) = serving s + of_bool (counted st)"
proof -
  let ?l = "in_listeners s ! i" and ?c = "(ln_connections (in_listeners s ! i) ! j)\<lparr>cn_state := st\<rparr>"
  from assms have ij: "i < length (in_listeners s)" "j < length (ln_connections ?l)" "cn_state (ln_connections ?l ! j) = st0"
    by (simp_all add: state_at_def)
  show "held (set_connection i j st s) + of_bool (unreleased st0) = held s + of_bool (unreleased st)"
    "serving (set_connection i j st s) + of_bool (counted st0) = serving s + of_bool (counted st)"
    using counts_set_listener [OF ij(1), of "?l\<lparr>ln_connections := (ln_connections ?l)[j := ?c]\<rparr>"] counts_update [OF ij(2), of ?c] ij(3)
    by (simp_all add: set_connection_def Let_def)
qed

lemma proxy_poll_counts:
  assumes "proxy_poll joined accepted gate permits l = (l', permits')" "joinable l joined"
  shows "permits' + held_in (ln_connections l') = permits + held_in (ln_connections l)"
    "counted_in (ln_connections l') = counted_in (ln_connections l)"
  using assms
  by (auto simp: proxy_poll_def joinable_def return_error_def counts_remove counts_snoc
      split: if_splits option.splits sum.splits task_state.splits)

lemma drain_poll_counts:
  assumes "joinable l joined"
  shows "held_in (ln_connections (drain_poll joined l)) = held_in (ln_connections l)"
    "counted_in (ln_connections (drain_poll joined l)) = counted_in (ln_connections l)"
  using assms by (auto simp: drain_poll_def joinable_def counts_remove split: option.splits)

lemma abort_task_counts [simp]:
  "held_in (ln_connections (abort_task l)) = held_in (ln_connections l)"
  "counted_in (ln_connections (abort_task l)) = counted_in (ln_connections l)"
  by (simp_all add: abort_task_def return_error_def split: phase.split)

text \<open>The handler leaves the gauges alone.\<close>

lemma handle_client_gauges:
  "handle_client env hp policy secrets settings stream m = (effects, m', result) \<Longrightarrow> same_gauges m m'"
  by (auto simp: handle_client_def handle_tunnel_def intercept_client_def same_gauges_def metrics_defs Let_def
      split: if_splits sum.splits option.splits connect_outcome.splits hello_outcome.splits prod.splits)

lemma inv_set_connection:
  assumes "ingress_inv n s" "state_at s i j st0" "unreleased st0" "\<not> unreleased st" "same_gauges (in_metrics s) m"
  shows "ingress_inv n (release (if counted st0 then connection_stopped m else m) (set_connection i j st s))"
proof -
  have st: "\<not> counted st" using assms(4) counted_unreleased by blast
  from counts_set_connection(1) [OF assms(2), of st] assms(3,4) have "held (set_connection i j st s) + 1 = held s" by simp
  moreover from counts_set_connection(2) [OF assms(2), of st] st
  have "serving (set_connection i j st s) + of_bool (counted st0) = serving s" by simp
  moreover from this have "of_nat (serving s) = (of_nat (serving (set_connection i j st s)) + of_bool (counted st0) :: u64)"
    by (metis of_nat_add of_nat_of_bool)
  ultimately show ?thesis
    using assms(1,5) by (simp add: ingress_inv_def release_def same_gauges_def metrics_defs)
qed

lemma ingress_step_inv:
  assumes "ingress_step hp s s'" "ingress_inv n s"
  shows "ingress_inv n s'"
  using assms
proof (induction rule: ingress_step.induct)
  case (poll i s joined accepted l permits)
  from proxy_poll_counts [OF poll(4,3)] counts_set_listener [OF poll(1), of l] poll(5)
  show ?case by (simp add: ingress_inv_def)
next
  case (drain i s joined)
  from inv_set_listener [OF drain(4,1)] drain_poll_counts [OF drain(3)] show ?case by simp
next
  case (serve s i j)
  from counts_set_connection [OF serve(1), of Serving] serve(2)
  show ?case by (simp add: ingress_inv_def metrics_defs)
next
  case (serve_end s i j c env effects m result)
  from inv_set_connection [OF serve_end(4,1), of Returned m] handle_client_gauges [OF serve_end(3)] show ?case by simp
next
  case (serve_panic s i j m e)
  from inv_set_connection [OF serve_panic(3,1), of "Panicked e" m] serve_panic(2) show ?case by simp
next
  case (abort_end s i j started m)
  from inv_set_connection [OF abort_end(3,1), of Returned m] abort_end(2) show ?case by simp
next
  case (start s listener_generation generation)
  then show ?case by (simp add: ingress_inv_def held_def serving_def listener_start_def held_in_def counted_in_def)
next
  case (grace_over i s)
  from inv_set_listener [OF grace_over(3,1), of "abort_task (in_listeners s ! i)"]
  show ?case by (simp add: ingress_inv_def metrics_defs)
next
  case (report i s result)
  from inv_set_listener [OF report(4,1), of "(in_listeners s ! i)\<lparr>ln_reported := True\<rparr>"]
  show ?case by (simp add: ingress_inv_def)
next
  case (dropped i s)
  show ?case by (rule inv_set_listener [OF dropped(2,1)]) (simp_all add: drop_runtime_def)
next
  case (retire i s f)
  show ?case by (rule inv_set_listener [OF retire(3,1)]) (use retire(2) in \<open>auto simp: mark_retiring_def listener_retire_def\<close>)
next
  case (replace i s generation)
  show ?case by (rule inv_set_listener [OF replace(2,1)]) simp_all
next
  case (shutdown i s)
  show ?case by (rule inv_set_listener [OF shutdown(2,1)]) (simp_all add: shutdown_listener_def)
qed (simp add: ingress_inv_def)

interpretation permits: invariant_system "ingress_new tls n g" "ingress_step hp" "ingress_inv n" for tls n g hp
proof
  show "ingress_inv n (ingress_new tls n g)"
    by (simp add: ingress_inv_def ingress_new_def metrics_default_def held_def serving_def)
qed (rule ingress_step_inv)


subsection \<open>Admission\<close>

text \<open>The connections of a listener after a step, told apart by what they carry.\<close>

definition same_connection :: "connection \<Rightarrow> connection \<Rightarrow> bool" where
  "same_connection c c' \<longleftrightarrow> cn_stream c' = cn_stream c \<and> cn_generation c' = cn_generation c"

definition kept_connections :: "connection list \<Rightarrow> connection list \<Rightarrow> bool" where
  "kept_connections cs cs' \<longleftrightarrow> (\<forall>c' \<in> set cs'. \<exists>c \<in> set cs. same_connection c c')"

definition admits :: "u64 \<Rightarrow> nat \<Rightarrow> listener \<Rightarrow> bool" where
  "admits gate permits l \<longleftrightarrow> ln_phase l = Accepting \<and> \<not> ln_cancelled l \<and> \<not> ln_retirement l \<and>
     gate = ln_generation l \<and> 0 < permits"

lemma kept_refl [simp]: "kept_connections cs cs"
  by (auto simp: kept_connections_def same_connection_def)

lemma kept_abort [simp]: "kept_connections cs (abort_connections cs)"
  by (auto simp: kept_connections_def same_connection_def abort_connections_def abort_connection_def)

lemma kept_remove [simp]: "kept_connections cs (remove_nth j cs)"
  by (auto simp: kept_connections_def same_connection_def remove_nth_def dest: in_set_takeD in_set_dropD)

lemma kept_update: "j < length cs \<Longrightarrow> same_connection (cs ! j) c \<Longrightarrow> kept_connections cs (cs[j := c])"
  by (auto simp: kept_connections_def same_connection_def dest!: set_update_subset_insert [THEN subsetD] intro: nth_mem)

lemma kept_abort_task [simp]: "kept_connections (ln_connections l) (ln_connections (abort_task l))"
  by (simp add: abort_task_def return_error_def split: phase.split)

definition follows :: "u64 \<Rightarrow> nat \<Rightarrow> listener \<Rightarrow> listener \<Rightarrow> bool" where
  "follows gate permits l l' \<longleftrightarrow> ln_generation l' = ln_generation l \<and>
     (ln_cancelled l \<longrightarrow> ln_cancelled l') \<and> (ln_retirement l \<longrightarrow> ln_retirement l') \<and>
     (kept_connections (ln_connections l) (ln_connections l') \<or>
      (admits gate permits l \<and> (\<exists>c. ln_connections l' = ln_connections l @ [c] \<and> cn_generation c = ln_current l)))"

lemma proxy_poll_follows:
  assumes "proxy_poll joined accepted gate permits l = (l', permits')" "ln_phase l = Accepting"
  shows "follows gate permits l l'"
  using assms
  by (auto simp: follows_def proxy_poll_def return_error_def admits_def split: if_splits option.splits sum.splits task_state.splits)

lemma follows_same:
  "ln_generation l' = ln_generation l \<Longrightarrow> ln_cancelled l \<longrightarrow> ln_cancelled l' \<Longrightarrow> ln_retirement l \<longrightarrow> ln_retirement l' \<Longrightarrow>
   kept_connections (ln_connections l) (ln_connections l') \<Longrightarrow> follows gate permits l l'"
  by (simp add: follows_def)

lemma follows_one:
  assumes "in_listeners s' = (in_listeners s)[i := l]" "i < length (in_listeners s)" "follows gate permits (in_listeners s ! i) l"
  shows "length (in_listeners s) \<le> length (in_listeners s') \<and>
    (\<forall>k < length (in_listeners s). follows gate permits (in_listeners s ! k) (in_listeners s' ! k))"
  using assms by (auto simp: nth_list_update follows_same)

lemma follows_connection:
  assumes "in_listeners s' = in_listeners (set_connection i j st s)" "state_at s i j st0"
  shows "length (in_listeners s) \<le> length (in_listeners s') \<and>
    (\<forall>k < length (in_listeners s). follows gate permits (in_listeners s ! k) (in_listeners s' ! k))"
  using assms
  by (intro follows_one [where i = i], unfold set_connection_def set_listener_def Let_def, simp, simp add: state_at_def,
      intro follows_same) (auto simp: state_at_def same_connection_def intro: kept_update)

lemma ingress_step_follows:
  assumes "ingress_step hp s s'"
  shows "length (in_listeners s) \<le> length (in_listeners s') \<and>
    (\<forall>i < length (in_listeners s). follows (in_gate s) (in_permits s) (in_listeners s ! i) (in_listeners s' ! i))"
  using assms
proof cases
  case (poll i joined accepted l permits)
  show ?thesis by (rule follows_one [OF _ poll(2) proxy_poll_follows [OF poll(5,3)]]) (simp add: poll(1) set_listener_def)
next
  case (serve i j)
  show ?thesis by (rule follows_connection [OF _ serve(2)]) (simp add: serve(1))
next
  case (serve_end i j c env effects m result)
  show ?thesis by (rule follows_connection [OF _ serve_end(2)]) (simp add: serve_end(1) release_def)
next
  case (serve_panic i j m e)
  show ?thesis by (rule follows_connection [OF _ serve_panic(2)]) (simp add: serve_panic(1) release_def)
next
  case (abort_end i j started m)
  show ?thesis by (rule follows_connection [OF _ abort_end(2)]) (simp add: abort_end(1) release_def)
next
  case (start listener_generation generation)
  then show ?thesis by (auto simp: nth_append intro: follows_same)
next
  case (drain i joined)
  show ?thesis
    by (rule follows_one [OF _ drain(2), where l = "drain_poll joined (in_listeners s ! i)"])
      (auto simp: drain(1) set_listener_def drain_poll_def follows_same split: option.split)
next
  case (retire i f)
  show ?thesis
    by (rule follows_one [OF _ retire(2), where l = "f (in_listeners s ! i)"])
      (use retire(3) in \<open>auto simp: retire(1) set_listener_def mark_retiring_def listener_retire_def follows_same\<close>)
next
  case (replace i generation)
  show ?thesis
    by (rule follows_one [OF _ replace(2)]) (auto simp: replace(1) set_listener_def follows_same)
next
  case (shutdown i)
  show ?thesis
    by (rule follows_one [OF _ shutdown(2)]) (auto simp: shutdown(1) set_listener_def shutdown_listener_def follows_same)
next
  case (grace_over i)
  show ?thesis
    by (rule follows_one [OF _ grace_over(2), where l = "abort_task (in_listeners s ! i)"])
      (auto simp: grace_over(1) set_listener_def abort_task_def return_error_def follows_same split: phase.split)
next
  case (dropped i)
  show ?thesis
    by (rule follows_one [OF _ dropped(2), where l = "drop_runtime (in_listeners s ! i)"])
      (auto simp: dropped(1) set_listener_def drop_runtime_def abort_task_def return_error_def follows_same split: phase.split)
next
  case (report i result)
  show ?thesis
    by (rule follows_one [OF _ report(2)]) (auto simp: report(1) set_listener_def follows_same)
qed (simp add: follows_same)

lemma ingress_steps_follow:
  assumes "(ingress_step hp)\<^sup>*\<^sup>* s t" "i < length (in_listeners s)"
  shows "i < length (in_listeners t)" "ln_generation (in_listeners t ! i) = ln_generation (in_listeners s ! i)"
    "ln_cancelled (in_listeners s ! i) \<Longrightarrow> ln_cancelled (in_listeners t ! i)"
    "ln_retirement (in_listeners s ! i) \<Longrightarrow> ln_retirement (in_listeners t ! i)"
proof -
  from assms have "i < length (in_listeners t) \<and> ln_generation (in_listeners t ! i) = ln_generation (in_listeners s ! i) \<and>
    (ln_cancelled (in_listeners s ! i) \<longrightarrow> ln_cancelled (in_listeners t ! i)) \<and>
    (ln_retirement (in_listeners s ! i) \<longrightarrow> ln_retirement (in_listeners t ! i))"
  proof (induction rule: rtranclp_induct)
    case (step t u)
    with ingress_step_follows [OF step(2)] show ?case by (fastforce simp: follows_def)
  qed simp
  then show "i < length (in_listeners t)" "ln_generation (in_listeners t ! i) = ln_generation (in_listeners s ! i)"
    "ln_cancelled (in_listeners s ! i) \<Longrightarrow> ln_cancelled (in_listeners t ! i)"
    "ln_retirement (in_listeners s ! i) \<Longrightarrow> ln_retirement (in_listeners t ! i)" by simp_all
qed

text \<open>
  C14. A connection that a listener has after a run was there before, with the policy generation it
  had, or the listener took it at a state of the run in which the gate named this
  listener, a permit was free and neither token was set; then it carries the policy generation that
  was current at that moment. So no listener takes a connection after its cancellation or
  retirement, whatever the gate says, and reloading never changes the policy of a connection
  in progress.
\<close>

theorem admission_follows_gate:
  assumes "(ingress_step hp)\<^sup>*\<^sup>* s s'" "i < length (in_listeners s)" "c' \<in> set (ln_connections (in_listeners s' ! i))"
  shows "(\<exists>c \<in> set (ln_connections (in_listeners s ! i)). cn_stream c' = cn_stream c \<and> cn_generation c' = cn_generation c) \<or>
    (\<not> ln_cancelled (in_listeners s ! i) \<and> \<not> ln_retirement (in_listeners s ! i) \<and>
     (\<exists>t. (ingress_step hp)\<^sup>*\<^sup>* s t \<and> (ingress_step hp)\<^sup>*\<^sup>* t s' \<and> in_gate t = ln_generation (in_listeners t ! i) \<and>
        0 < in_permits t \<and> ln_phase (in_listeners t ! i) = Accepting \<and>
        \<not> ln_cancelled (in_listeners t ! i) \<and> \<not> ln_retirement (in_listeners t ! i) \<and>
        cn_generation c' = ln_current (in_listeners t ! i)))"
  using assms(1,3)
proof (induction arbitrary: c' rule: rtranclp_induct)
  case base
  then show ?case by blast
next
  case (step t u)
  note i = ingress_steps_follow [OF step(1) assms(2)]
  from ingress_step_follows [OF step(2)] i(1) have f: "follows (in_gate t) (in_permits t) (in_listeners t ! i) (in_listeners u ! i)" by blast
  have old: ?case if c: "c \<in> set (ln_connections (in_listeners t ! i))" "same_connection c c'" for c
    using step.IH [OF c(1)] c(2) step(2) unfolding same_connection_def by (metis rtranclp.rtrancl_into_rtrancl)
  from f step.prems show ?case
    unfolding follows_def
  proof (elim conjE disjE exE)
    assume "kept_connections (ln_connections (in_listeners t ! i)) (ln_connections (in_listeners u ! i))"
    with step.prems old show ?case by (auto simp: kept_connections_def)
  next
    fix c
    assume a: "admits (in_gate t) (in_permits t) (in_listeners t ! i)" "cn_generation c = ln_current (in_listeners t ! i)"
      and "ln_connections (in_listeners u ! i) = ln_connections (in_listeners t ! i) @ [c]"
    with step.prems consider "c' \<in> set (ln_connections (in_listeners t ! i))" | "c' = c" by auto
    then show ?case
    proof cases
      case 1
      then show ?thesis using old by (simp add: same_connection_def)
    next
      case 2
      with a i step(1,2) show ?thesis unfolding admits_def by blast
    qed
  qed
qed

subsection \<open>The end of a listener\<close>

lemma joinable_exists: "\<exists>joined. joinable l joined"
proof (cases "list_all (\<lambda>c. unreleased (cn_state c)) (ln_connections l)")
  case True
  then show ?thesis by (auto simp: joinable_def intro: exI [of _ None])
next
  case False
  then obtain j where "j < length (ln_connections l)" "\<not> unreleased (cn_state (ln_connections l ! j))"
    by (auto simp: list_all_length)
  then show ?thesis by (auto simp: joinable_def intro: exI [of _ "Some j"])
qed

definition draining :: "nat \<Rightarrow> ingress \<Rightarrow> connection list \<Rightarrow> bool" where
  "draining i s cs \<longleftrightarrow> i < length (in_listeners s) \<and> ln_phase (in_listeners s ! i) = Draining \<and> ln_connections (in_listeners s ! i) = cs"

lemma draining_set:
  assumes "draining i s (c # cs)"
  shows "draining i (release m (set_connection i 0 st s)) (c\<lparr>cn_state := st\<rparr> # cs)"
    "draining i ((set_connection i 0 st s)\<lparr>in_metrics := m\<rparr>) (c\<lparr>cn_state := st\<rparr> # cs)"
  using assms by (auto simp: draining_def release_def set_connection_def set_listener_def Let_def)

text \<open>The first connection of a draining listener ends and is joined.\<close>

lemma first_ends:
  assumes "draining i s (c # cs)"
  shows "\<exists>s' c'. (ingress_step hp)\<^sup>*\<^sup>* s s' \<and> draining i s' (c' # cs) \<and> \<not> unreleased (cn_state c')"
proof -
  fix env
  have serving: "\<exists>s' c'. (ingress_step hp)\<^sup>*\<^sup>* t s' \<and> draining i s' (c' # cs) \<and> \<not> unreleased (cn_state c')"
    if "draining i t (d # cs)" "cn_state d = Serving" for t d
  proof -
    have "state_at t i 0 Serving" using that by (simp add: draining_def state_at_def)
    moreover obtain effects m result where
      "handle_client env hp (pg_policy (cn_generation d)) (map_of (pg_secrets (cn_generation d))) (in_tls t) (cn_stream d) (in_metrics t) = (effects, m, result)"
      by (metis prod_cases3)
    ultimately have "ingress_step hp t (release (connection_stopped m) (set_connection i 0 Returned t))"
      using that(1) by (intro serve_end) (auto simp: draining_def)
    with draining_set(1) [OF that(1), of _ Returned] show ?thesis
      by (intro exI conjI) (rule r_into_rtranclp, assumption, assumption, simp)
  qed
  show ?thesis
  proof (cases "cn_state c")
    case Queued
    then have "state_at s i 0 Queued" using assms by (simp add: draining_def state_at_def)
    from serve [OF this, of hp] serving [OF draining_set(2) [OF assms, of "connection_started (in_metrics s)" Serving]]
    show ?thesis by (auto intro: converse_rtranclp_into_rtranclp)
  next
    case Serving
    then show ?thesis using serving [OF assms] by blast
  next
    case (Aborting b)
    then have "state_at s i 0 (Aborting b)" using assms by (simp add: draining_def state_at_def)
    from abort_end [OF this, of "in_metrics s" hp] draining_set(1) [OF assms, of _ Returned]
    show ?thesis by (intro exI conjI) (rule r_into_rtranclp, auto simp: same_gauges_def)
  qed (use assms in fastforce)+
qed

lemma draining_ends:
  "draining i s cs \<Longrightarrow> \<exists>s'. (ingress_step hp)\<^sup>*\<^sup>* s s' \<and> ln_phase (in_listeners s' ! i) = Finished (Inr ()) \<and>
     ln_connections (in_listeners s' ! i) = []"
proof (induction cs arbitrary: s)
  case Nil
  then have "ingress_step hp s (set_listener i (drain_poll None (in_listeners s ! i)) s)"
    by (intro drain) (auto simp: draining_def joinable_def)
  with Nil show ?case
    by (intro exI [of _ "set_listener i (drain_poll None (in_listeners s ! i)) s"])
      (auto simp: draining_def drain_poll_def set_listener_def)
next
  case (Cons c cs)
  from first_ends [OF this(2)] obtain t c' where t: "(ingress_step hp)\<^sup>*\<^sup>* s t" "draining i t (c' # cs)" "\<not> unreleased (cn_state c')"
    by blast
  let ?u = "set_listener i (drain_poll (Some 0) (in_listeners t ! i)) t"
  have "ingress_step hp t ?u" using t(2,3) by (intro drain) (auto simp: draining_def joinable_def)
  moreover have "draining i ?u cs"
    using t(2) by (auto simp: draining_def drain_poll_def set_listener_def remove_nth_def)
  ultimately show ?case using Cons.IH t(1) by (meson rtranclp.rtrancl_into_rtrancl rtranclp_trans)
qed

text \<open>
  C31. A listener whose token is set can always finish: from every state in which its loop has not
  returned, its connections can end and be joined, and the loop returns without an error and with
  no connection left.
\<close>

theorem stopped_listener_finishes:
  assumes "i < length (in_listeners s)" "ln_cancelled (in_listeners s ! i) \<or> ln_retirement (in_listeners s ! i)"
    "\<forall>r. ln_phase (in_listeners s ! i) \<noteq> Finished r"
  shows "\<exists>s'. (ingress_step hp)\<^sup>*\<^sup>* s s' \<and> ln_phase (in_listeners s' ! i) = Finished (Inr ()) \<and>
    ln_connections (in_listeners s' ! i) = []"
proof (cases "ln_phase (in_listeners s ! i)")
  case Accepting
  obtain joined where j: "joinable (in_listeners s ! i) joined" using joinable_exists by blast
  let ?l = "(in_listeners s ! i)\<lparr>ln_phase := Draining, ln_guard := False\<rparr>"
  have "proxy_poll joined None (in_gate s) (in_permits s) (in_listeners s ! i) = (?l, in_permits s)"
    using assms(2) by (simp add: proxy_poll_def)
  from poll [OF assms(1) Accepting j this, of hp]
  have "ingress_step hp s ((set_listener i ?l s)\<lparr>in_permits := in_permits s\<rparr>)" .
  moreover have "draining i ((set_listener i ?l s)\<lparr>in_permits := in_permits s\<rparr>) (ln_connections (in_listeners s ! i))"
    using assms(1) by (simp add: draining_def set_listener_def)
  ultimately show ?thesis using draining_ends by (meson converse_rtranclp_into_rtranclp)
next
  case Draining
  with assms(1) have "draining i s (ln_connections (in_listeners s ! i))" by (simp add: draining_def)
  then show ?thesis by (rule draining_ends)
qed (use assms(3) in simp)

subsection \<open>An instance\<close>

text \<open>One listener with one permit takes a connection, which then starts.\<close>

definition example_generation :: generation where
  "example_generation = \<lparr>pg_policy = session_policy_compile (\<lambda>k m. m) id example_session ''s'', pg_secrets = []\<rparr>"

definition example_connection :: "task_state \<Rightarrow> connection" where
  "example_connection st = \<lparr>cn_stream = example_stream, cn_generation = example_generation, cn_state = st\<rparr>"

definition example_ingress :: "nat \<Rightarrow> metrics \<Rightarrow> connection list \<Rightarrow> ingress" where
  "example_ingress permits m cs = \<lparr>in_permits = permits, in_gate = 1, in_metrics = m, in_tls = example_settings,
     in_listeners = [(listener_start 1 example_generation)\<lparr>ln_connections := cs\<rparr>], in_events = []\<rparr>"

lemma example_listening: "ingress_step hp (ingress_new example_settings 1 1) (example_ingress 1 metrics_default [])"
  using ingress_step.start [of hp "ingress_new example_settings 1 1" 1 example_generation]
  by (simp add: ingress_new_def example_ingress_def listener_start_def)

lemma example_taken:
  "ingress_step hp (example_ingress 1 metrics_default []) (example_ingress 0 metrics_default [example_connection Queued])"
  using ingress_step.poll [of 0 "example_ingress 1 metrics_default []" None "Some (Inr example_stream)" _ _ hp]
  by (simp add: example_ingress_def listener_start_def proxy_poll_def joinable_def set_listener_def example_connection_def)

lemma example_serves:
  "ingress_step hp (example_ingress 0 metrics_default [example_connection Queued])
     (example_ingress 0 (connection_started metrics_default) [example_connection Serving])"
  using ingress_step.serve [of "example_ingress 0 metrics_default [example_connection Queued]" 0 0 hp]
  by (simp add: example_ingress_def listener_start_def state_at_def set_connection_def set_listener_def example_connection_def)


theorem admission_follows_gate_witness:
  "\<exists>t. (ingress_step plain_hosts)\<^sup>*\<^sup>* (example_ingress 1 metrics_default []) t \<and> in_gate t = ln_generation (in_listeners t ! 0) \<and>
     0 < in_permits t \<and> example_generation = ln_current (in_listeners t ! 0)"
proof -
  let ?s = "example_ingress 1 metrics_default []" and ?s' = "example_ingress 0 metrics_default [example_connection Queued]"
  have run: "(ingress_step plain_hosts)\<^sup>*\<^sup>* ?s ?s'" by (rule r_into_rtranclp) (rule example_taken)
  have mem: "0 < length (in_listeners ?s)" "example_connection Queued \<in> set (ln_connections (in_listeners ?s' ! 0))"
    by (simp_all add: example_ingress_def)
  have "ln_connections (in_listeners ?s ! 0) = []" by (simp add: example_ingress_def)
  with admission_follows_gate [OF run mem] show ?thesis by (auto simp: example_connection_def)
qed

theorem stopped_listener_finishes_witness:
  "\<exists>s s'. ln_connections (in_listeners s ! 0) = [example_connection Serving] \<and> ln_cancelled (in_listeners s ! 0) \<and>
     (ingress_step plain_hosts)\<^sup>*\<^sup>* s s' \<and> ln_phase (in_listeners s' ! 0) = Finished (Inr ()) \<and> ln_connections (in_listeners s' ! 0) = []"
proof -
  let ?s = "example_ingress 0 (connection_started metrics_default) [example_connection Serving]"
  let ?t = "set_listener 0 (shutdown_listener (in_listeners ?s ! 0)) ?s"
  have t: "ln_connections (in_listeners ?t ! 0) = [example_connection Serving]" "ln_cancelled (in_listeners ?t ! 0)"
    "0 < length (in_listeners ?t)" "\<forall>r. ln_phase (in_listeners ?t ! 0) \<noteq> Finished r"
    by (simp_all add: set_listener_def shutdown_listener_def example_ingress_def listener_start_def)
  from stopped_listener_finishes [OF t(3) disjI1 [OF t(2)] t(4), of plain_hosts] t(1,2) show ?thesis by blast
qed

end
