(* ===== verification/Ca_Files.thy ===== *)
theory Ca_Files
  imports Unix_Fs Control_Config
begin

text \<open>
  The certificate authority of the daemon (\<open>ca.rs\<close>): loading and checking a certificate and
  its key, generating a pair without replacing anything, and exporting the public certificate.
  Parsing, key generation and signing belong to libraries and are parameters in the record
  \<open>ca_lib\<close>. The vectors of temporary and of linked files, and the sequence number of
  temporary names, are fields that extend the world. A path is the location it denotes.
\<close>

subsection \<open>Libraries\<close>

datatype key_usage = KeyCertSign | CrlSign

record certificate_params =
  cp_not_before :: int
  cp_not_after :: int
  cp_common_name :: string
  cp_is_ca :: bool
  cp_key_usages :: "key_usage list"

text \<open>
  What the checks read of a parsed certificate: two extensions, each invalid, absent or with its
  flag, whether it is valid now, and the encoded public key.
\<close>

record x509 =
  x_basic_constraints :: "unit + bool option"
  x_key_usage :: "unit + bool option"
  x_valid :: bool
  x_subject_pki :: string

record 'k ca_lib =
  cl_now :: int
  cl_pid :: nat
  cl_generate_key :: "string + 'k"
  cl_self_signed :: "certificate_params \<Rightarrow> 'k \<Rightarrow> string + string"
  cl_key_pem :: "'k \<Rightarrow> string"
  cl_key_from_pem :: "string \<Rightarrow> 'k option"
  cl_public_key_pem :: "'k \<Rightarrow> string"
  cl_parse_pem :: "string \<Rightarrow> (string \<times> string \<times> string) option"
  cl_parse_certificate :: "string \<Rightarrow> (string \<times> x509) option"
  cl_issuer :: "string \<Rightarrow> 'k \<Rightarrow> bool"
  cl_runtime_certificate :: "string \<Rightarrow> bool"
  cl_runtime_key :: "string \<Rightarrow> bool"
  cl_can_sign :: "string \<Rightarrow> 'k \<Rightarrow> bool"

definition GENERATED_CA_VALIDITY_DAYS :: int where "GENERATED_CA_VALIDITY_DAYS = 365"
definition GENERATED_CA_CLOCK_SKEW_SECONDS :: int where "GENERATED_CA_CLOCK_SKEW_SECONDS = 5 * 60"

subsection \<open>Loading\<close>

record managed_ca =
  mc_certificate :: string
  mc_private_key :: string
  mc_public_certificate_pem :: string

text \<open>The checks of \<open>PublicCaCertificate::load\<close> on the contents of the file.\<close>

definition check_certificate :: "x509 \<Rightarrow> failure + unit" where
  "check_certificate certificate =
     and_then (map_err (\<lambda>_. Bail ''CA certificate has invalid Basic Constraints'') (x_basic_constraints certificate)) (\<lambda>c.
     and_then (ok_or (Bail ''CA certificate must have Basic Constraints'') c) (\<lambda>ca.
     and_then (ensure ca (Bail ''CA certificate is not marked as a certificate authority'')) (\<lambda>_.
     and_then (map_err (\<lambda>_. Bail ''CA certificate has invalid Key Usage'') (x_key_usage certificate)) (\<lambda>u.
     and_then (ok_or (Bail ''CA certificate must have Key Usage'') u) (\<lambda>sign.
     and_then (ensure sign (Bail ''CA certificate is not permitted to sign certificates'')) (\<lambda>_.
     ensure (x_valid certificate) (Bail ''CA certificate is not currently valid'')))))))"

definition check_public_certificate :: "'k ca_lib \<Rightarrow> string \<Rightarrow> failure + unit" where
  "check_public_certificate lib pem =
     and_then (ok_or (Bail ''could not parse CA certificate PEM'') (cl_parse_pem lib pem)) (\<lambda>(remainder, label, contents).
     and_then (ensure (label = ''CERTIFICATE'' \<and> list_all is_ascii_whitespace remainder)
       (Bail ''CA certificate file must contain one CERTIFICATE PEM block'')) (\<lambda>_.
     and_then (ok_or (Bail ''could not parse CA certificate'') (cl_parse_certificate lib contents)) (\<lambda>(remainder, certificate).
     and_then (ensure (remainder = []) (Bail ''CA certificate contains trailing data'')) (\<lambda>_.
     check_certificate certificate))))"

definition public_certificate_load :: "kernel \<Rightarrow> 'k ca_lib \<Rightarrow> location \<Rightarrow> (failure, string, 'z) sys" where
  "public_certificate_load K lib path =
     sys_then (sys_context (Context ''could not inspect CA certificate file'') (sys_stat K path True)) (\<lambda>md.
     sys_then (sys_ensure (md_kind md = RegularFile) (Bail ''CA certificate path must be a regular file'')) (\<lambda>_.
     sys_then (sys_context (Context ''could not read CA certificate file'') (sys_read K path)) (\<lambda>pem.
     sys_then (sys_result (check_public_certificate lib pem)) (\<lambda>_.
       sys_return pem))))"

definition validate_private_key_permissions :: "metadata \<Rightarrow> failure + unit" where
  "validate_private_key_permissions md =
     ensure (md_mode md AND 0xE3F = 0 \<and> md_mode md AND 0x49 = 0 \<and> md_mode md AND 0x100 \<noteq> 0)
       (Bail ''CA private key permissions must allow owner read access only'')"

definition read_private_key :: "kernel \<Rightarrow> location \<Rightarrow> (failure, string, 'z) sys" where
  "read_private_key K path =
     sys_then (sys_context (Context ''could not inspect CA private key file'') (sys_stat K path False)) (\<lambda>md.
     sys_then (sys_ensure (md_kind md = RegularFile) (Bail ''CA private key path must be a regular, non-symlink file'')) (\<lambda>_.
     sys_then (sys_result (validate_private_key_permissions md)) (\<lambda>_.
     sys_context (Context ''could not read CA private key file'') (sys_read K path))))"

text \<open>The checks of \<open>ManagedCa::load\<close> on the two texts.\<close>

definition check_pair :: "'k ca_lib \<Rightarrow> string \<Rightarrow> string \<Rightarrow> failure + managed_ca" where
  "check_pair lib pem key_bytes =
     and_then (ensure (utf8_valid key_bytes) (Bail ''CA private key is not valid PEM text'')) (\<lambda>_.
     and_then (ok_or (Bail ''could not parse CA private key'') (cl_key_from_pem lib key_bytes)) (\<lambda>key_pair.
     and_then (ok_or (Bail ''could not parse CA certificate PEM'') (cl_parse_pem lib pem)) (\<lambda>(_, _, contents).
     and_then (ok_or (Bail ''could not parse CA certificate'') (cl_parse_certificate lib contents)) (\<lambda>(_, certificate).
     and_then (ok_or (Bail ''could not inspect CA public key'') (cl_parse_pem lib (cl_public_key_pem lib key_pair))) (\<lambda>(_, _, public_key).
     and_then (ensure (x_subject_pki certificate = public_key) (Bail ''CA certificate and private key do not match'')) (\<lambda>_.
     and_then (ensure (utf8_valid pem) (Bail ''CA certificate is not valid PEM text'')) (\<lambda>_.
     and_then (ensure (cl_issuer lib pem key_pair) (Bail ''CA certificate cannot be used as an issuer'')) (\<lambda>_.
     and_then (ensure (cl_runtime_certificate lib pem) (Bail ''could not load CA certificate for proxy runtime'')) (\<lambda>_.
     and_then (ensure (cl_runtime_key lib key_bytes) (Bail ''could not load CA private key for proxy runtime'')) (\<lambda>_.
     and_then (ensure (cl_can_sign lib pem key_pair) (Bail ''CA private key cannot sign certificates'')) (\<lambda>_.
       Inr \<lparr>mc_certificate = pem, mc_private_key = key_bytes, mc_public_certificate_pem = pem\<rparr>)))))))))))"

definition managed_ca_load :: "kernel \<Rightarrow> 'k ca_lib \<Rightarrow> location \<Rightarrow> location \<Rightarrow> (failure, managed_ca, 'z) sys" where
  "managed_ca_load K lib certificate private_key =
     sys_then (public_certificate_load K lib certificate) (\<lambda>pem.
     sys_then (read_private_key K private_key) (\<lambda>key_bytes.
     sys_result (check_pair lib pem key_bytes)))"

text \<open>\<open>runtime_signing_material\<close> and \<open>public_certificate_pem\<close>: what the rest of the daemon gets.\<close>

definition runtime_signing_material :: "managed_ca \<Rightarrow> string \<times> string" where
  "runtime_signing_material ca = (mc_certificate ca, mc_private_key ca)"

definition public_certificate_pem :: "managed_ca \<Rightarrow> string" where
  "public_certificate_pem ca = mc_public_certificate_pem ca"

subsection \<open>Initialization\<close>

record linked_target =
  lt_target :: location
  lt_identity :: file_id

record ca_world = world +
  cw_sequence :: u64
  cw_temporary_paths :: "location list"
  cw_linked_targets :: "linked_target list"

type_synonym ('e, 'a) csys = "ca_world \<Rightarrow> ('e + 'a) \<times> ca_world"

text \<open>The parent directory of a path, the working directory when it has none.\<close>

definition parent_loc :: "kernel \<Rightarrow> string \<Rightarrow> location" where
  "parent_loc K path =
     (case parent_components (components path) of
        None \<Rightarrow> (Some (k_cwd K), [])
      | Some cs \<Rightarrow>
          if cs = [] then (Some (k_cwd K), [])
          else (fst (path_loc K path), concat (map component_names cs)))"

text \<open>The canonical parent as the names from the root.\<close>

definition validate_target_parent :: "kernel \<Rightarrow> string \<Rightarrow> string \<Rightarrow> (failure, string list, 'z) sys" where
  "validate_target_parent K path label =
     (let parent = parent_loc K path in
      sys_then (sys_context (Context (''parent directory for '' @ label @ '' '' @ path @ '' must already exist; create it first''))
        (sys_stat K parent True)) (\<lambda>md.
      sys_then (sys_ensure (md_kind md = Directory) (Bail (''parent path for '' @ label @ '' '' @ path @ '' is not a directory''))) (\<lambda>_.
      sys_context (Context (''could not resolve parent directory for '' @ label @ '' '' @ path))
        (sys_canonicalize K (fst parent) (if fst parent = None then [] else names_of (k_cwd_path K)) (snd parent)))))"

fun join_text :: "string \<Rightarrow> string list \<Rightarrow> string" where
  "join_text sep [] = []"
| "join_text sep [x] = x"
| "join_text sep (x # y # ys) = x @ sep @ join_text sep (y # ys)"

fun find_conflicts :: "kernel \<Rightarrow> (string \<times> string) list \<Rightarrow> string list \<Rightarrow> (failure, string list, 'z) sys" where
  "find_conflicts K [] conflicts = sys_return conflicts"
| "find_conflicts K ((path, label) # targets) conflicts =
     sys_match (sys_stat K (path_loc K path) False) (\<lambda>r. case r of
       Inr _ \<Rightarrow> find_conflicts K targets (conflicts @ [label @ '' '' @ path])
     | Inl e \<Rightarrow>
         if io_kind_of e = NotFoundKind then find_conflicts K targets conflicts
         else sys_fail (Context (''could not inspect '' @ label @ '' target '' @ path) e))"

definition next_sequence :: "('e, u64) csys" where
  "next_sequence w = (Inr (cw_sequence w), w\<lparr>cw_sequence := cw_sequence w + 1\<rparr>)"

definition push_temporary :: "location \<Rightarrow> ('e, unit) csys" where
  "push_temporary path w = (Inr (), w\<lparr>cw_temporary_paths := cw_temporary_paths w @ [path]\<rparr>)"

definition push_linked :: "linked_target \<Rightarrow> ('e, unit) csys" where
  "push_linked target w = (Inr (), w\<lparr>cw_linked_targets := cw_linked_targets w @ [target]\<rparr>)"

definition temporary_name :: "'k ca_lib \<Rightarrow> u64 \<Rightarrow> string" where
  "temporary_name lib sequence =
     ''.baffle-ca-init-'' @ nat_to_string (cl_pid lib) @ ''-'' @ nat_to_string (unat sequence) @ ''.tmp''"

definition fill_temporary_file :: "kernel \<Rightarrow> location \<Rightarrow> string \<Rightarrow> u32 \<Rightarrow> string \<Rightarrow> file_id \<Rightarrow> (failure, location) csys" where
  "fill_temporary_file K temporary contents mode label file =
     sys_then (push_temporary temporary) (\<lambda>_.
     sys_then (sys_context (Context (''could not set permissions on temporary '' @ label)) (sys_fchmod K file mode)) (\<lambda>_.
     sys_then (sys_context (Context (''could not write temporary '' @ label)) (sys_write K file contents)) (\<lambda>_.
     sys_then (sys_context (Context (''could not finish writing temporary '' @ label)) (sys_sync K file)) (\<lambda>_.
       sys_return temporary))))"

fun temporary_attempts :: "nat \<Rightarrow> kernel \<Rightarrow> 'k ca_lib \<Rightarrow> string \<Rightarrow> string \<Rightarrow> u32 \<Rightarrow> string \<Rightarrow> (failure, location) csys" where
  "temporary_attempts 0 K lib target contents mode label =
     sys_fail (Bail (''could not allocate a temporary '' @ label @ '' beside '' @ target))"
| "temporary_attempts (Suc n) K lib target contents mode label =
     sys_then next_sequence (\<lambda>sequence.
       let parent = parent_loc K target; temporary = (fst parent, snd parent @ [temporary_name lib sequence]) in
       sys_match (sys_create_new K temporary mode) (\<lambda>r. case r of
         Inr file \<Rightarrow> fill_temporary_file K temporary contents mode label file
       | Inl e \<Rightarrow>
           if io_kind_of e = AlreadyExistsKind then temporary_attempts n K lib target contents mode label
           else sys_fail (Context (''could not create temporary '' @ label @ '' beside '' @ target) e)))"

definition write_temporary_file :: "kernel \<Rightarrow> 'k ca_lib \<Rightarrow> string \<Rightarrow> string \<Rightarrow> u32 \<Rightarrow> string \<Rightarrow> (failure, location) csys" where
  "write_temporary_file = temporary_attempts 128"

definition install_without_overwrite :: "kernel \<Rightarrow> location \<Rightarrow> string \<Rightarrow> string \<Rightarrow> (failure, unit) csys" where
  "install_without_overwrite K temporary target label =
     sys_then (sys_context (Context (''could not inspect temporary '' @ label)) (sys_stat K temporary True)) (\<lambda>md.
     sys_match (sys_link K temporary (path_loc K target)) (\<lambda>r. case r of
       Inr _ \<Rightarrow> push_linked \<lparr>lt_target = path_loc K target, lt_identity = md_id md\<rparr>
     | Inl e \<Rightarrow>
         if io_kind_of e = AlreadyExistsKind
         then sys_fail (Bail (''refusing to overwrite existing '' @ label @ '' '' @ target))
         else sys_fail (Context (''could not install '' @ label @ '' at '' @ target) e)))"

definition generated_params :: "int \<Rightarrow> certificate_params" where
  "generated_params now = \<lparr>cp_not_before = now - GENERATED_CA_CLOCK_SKEW_SECONDS,
     cp_not_after = now + GENERATED_CA_VALIDITY_DAYS * 24 * 60 * 60, cp_common_name = ''Baffle Interception CA'',
     cp_is_ca = True, cp_key_usages = [KeyCertSign, CrlSign]\<rparr>"

definition generate_pair :: "'k ca_lib \<Rightarrow> failure + string \<times> string" where
  "generate_pair lib =
     and_then (map_err (\<lambda>e. Context_of ''could not generate P-256 CA private key'' (Bail e)) (cl_generate_key lib)) (\<lambda>key_pair.
     and_then (map_err (\<lambda>e. Context_of ''could not create self-signed Baffle CA certificate'' (Bail e))
       (cl_self_signed lib (generated_params (cl_now lib)) key_pair)) (\<lambda>certificate_pem.
       Inr (cl_key_pem lib key_pair, certificate_pem)))"

definition initialize_pair :: "kernel \<Rightarrow> 'k ca_lib \<Rightarrow> ca_config \<Rightarrow> (failure, unit) csys" where
  "initialize_pair K lib config =
     sys_then (sys_result (generate_pair lib)) (\<lambda>(key_pem, certificate_pem).
     sys_then (write_temporary_file K lib (ca_private_key config) key_pem 0x180 ''private key'') (\<lambda>temporary_key.
     sys_then (write_temporary_file K lib (ca_certificate config) certificate_pem 0x1A4 ''certificate'') (\<lambda>temporary_certificate.
     sys_then (sys_context (Context_of ''generated CA pair failed Baffle validation'')
       (managed_ca_load K lib temporary_certificate temporary_key)) (\<lambda>_.
     sys_then (install_without_overwrite K temporary_key (ca_private_key config) ''CA private key'') (\<lambda>_.
     sys_then (install_without_overwrite K temporary_certificate (ca_certificate config) ''CA certificate'') (\<lambda>_.
     sys_then (sys_context (Context_of ''installed CA pair failed Baffle validation'')
       (managed_ca_load K lib (path_loc K (ca_certificate config)) (path_loc K (ca_private_key config)))) (\<lambda>_.
       sys_return ())))))))"

subsection \<open>Cleanup\<close>

text \<open>Each cleanup reports the removals that failed; a file that is already gone is no failure.\<close>

definition remove_reporting :: "kernel \<Rightarrow> location \<Rightarrow> ('e, (location \<times> io_error) list, 'z) sys" where
  "remove_reporting K path =
     sys_match (sys_unlink K path) (\<lambda>r. case r of
       Inr _ \<Rightarrow> sys_return []
     | Inl e \<Rightarrow> if io_kind_of e = NotFoundKind then sys_return [] else sys_return [(path, e)])"

fun remove_paths :: "kernel \<Rightarrow> location list \<Rightarrow> ('e, (location \<times> io_error) list, 'z) sys" where
  "remove_paths K [] = sys_return []"
| "remove_paths K (path # paths) =
     sys_then (remove_reporting K path) (\<lambda>errors.
     sys_then (remove_paths K paths) (\<lambda>rest. sys_return (errors @ rest)))"

definition file_has_identity :: "kernel \<Rightarrow> location \<Rightarrow> file_id \<Rightarrow> (io_error, bool, 'z) sys" where
  "file_has_identity K path identity =
     sys_match (sys_stat K path False) (\<lambda>r. case r of
       Inr md \<Rightarrow> sys_return (md_kind md = RegularFile \<and> md_id md = identity)
     | Inl e \<Rightarrow> if io_kind_of e = NotFoundKind then sys_return False else sys_fail e)"

definition remove_linked :: "kernel \<Rightarrow> linked_target \<Rightarrow> ('e, (location \<times> io_error) list, 'z) sys" where
  "remove_linked K linked =
     sys_match (file_has_identity K (lt_target linked) (lt_identity linked)) (\<lambda>r. case r of
       Inr same \<Rightarrow> if same then remove_reporting K (lt_target linked) else sys_return []
     | Inl e \<Rightarrow> sys_return [(lt_target linked, e)])"

fun remove_linked_list :: "kernel \<Rightarrow> linked_target list \<Rightarrow> ('e, (location \<times> io_error) list, 'z) sys" where
  "remove_linked_list K [] = sys_return []"
| "remove_linked_list K (linked # targets) =
     sys_then (remove_linked K linked) (\<lambda>errors.
     sys_then (remove_linked_list K targets) (\<lambda>rest. sys_return (errors @ rest)))"

text \<open>From the last link to the first.\<close>

definition remove_linked_targets :: "kernel \<Rightarrow> linked_target list \<Rightarrow> ('e, (location \<times> io_error) list, 'z) sys" where
  "remove_linked_targets K linked = remove_linked_list K (rev linked)"

definition finish_initialize :: "kernel \<Rightarrow> failure + unit \<Rightarrow> (failure, unit) csys" where
  "finish_initialize K result w =
     (case result of
        Inr _ \<Rightarrow>
          sys_then (remove_paths K (cw_temporary_paths w)) (\<lambda>temporary_cleanup.
            if temporary_cleanup = [] then sys_return ()
            else sys_then (remove_linked_targets K (cw_linked_targets w)) (\<lambda>rollback_errors.
              sys_fail (With_cleanup (Bail ''CA validation succeeded, but temporary files could not be removed'')
                (temporary_cleanup @ rollback_errors)))) w
      | Inl error \<Rightarrow>
          sys_then (remove_linked_targets K (cw_linked_targets w)) (\<lambda>rollback_errors.
          sys_then (remove_paths K (cw_temporary_paths w)) (\<lambda>temporary_cleanup.
            if rollback_errors @ temporary_cleanup = [] then sys_fail error
            else sys_fail (With_cleanup error (rollback_errors @ temporary_cleanup)))) w)"

definition fresh_vectors :: "('e, unit) csys" where
  "fresh_vectors w = (Inr (), w\<lparr>cw_temporary_paths := [], cw_linked_targets := []\<rparr>)"

definition check_targets :: "kernel \<Rightarrow> ca_config \<Rightarrow> (failure, unit, 'z) sys" where
  "check_targets K config =
     sys_then (validate_target_parent K (ca_certificate config) ''CA certificate'') (\<lambda>certificate_parent.
     sys_then (validate_target_parent K (ca_private_key config) ''CA private key'') (\<lambda>private_key_parent.
     sys_then (sys_result (ok_or (Bail ''CA certificate path must name a file'') (file_name (ca_certificate config)))) (\<lambda>certificate_name.
     sys_then (sys_result (ok_or (Bail ''CA private key path must name a file'') (file_name (ca_private_key config)))) (\<lambda>private_key_name.
     sys_then (sys_ensure (certificate_parent @ [certificate_name] \<noteq> private_key_parent @ [private_key_name])
       (Bail ''CA certificate and private key must use different paths'')) (\<lambda>_.
     sys_then (find_conflicts K [(ca_certificate config, ''CA certificate''), (ca_private_key config, ''CA private key'')] []) (\<lambda>conflicts.
     sys_ensure (conflicts = []) (Bail (''refusing to overwrite existing '' @ join_text '' and '' conflicts))))))))"

definition initialize :: "kernel \<Rightarrow> 'k ca_lib \<Rightarrow> ca_config \<Rightarrow> (failure, unit) csys" where
  "initialize K lib config =
     sys_then (check_targets K config) (\<lambda>_.
     sys_then fresh_vectors (\<lambda>_.
     sys_match (initialize_pair K lib config) (finish_initialize K)))"

subsection \<open>Export\<close>

definition export_public_certificate :: "kernel \<Rightarrow> 'k ca_lib \<Rightarrow> ca_config \<Rightarrow> string \<Rightarrow> (failure, unit, 'z) sys" where
  "export_public_certificate K lib config output =
     sys_then (public_certificate_load K lib (path_loc K (ca_certificate config))) (\<lambda>pem.
     sys_then (sys_context (Context (''could not create CA certificate output '' @ output))
       (sys_create_new K (path_loc K output) 0x1A4)) (\<lambda>file.
     sys_then (sys_context (Context (''could not write CA certificate output '' @ output)) (sys_write K file pem)) (\<lambda>_.
     sys_context (Context (''could not finish CA certificate output '' @ output)) (sys_sync K file))))"

text \<open>Libraries that know one pair, for the examples.\<close>

definition example_ca_lib :: "unit ca_lib" where
  "example_ca_lib = \<lparr>cl_now = 0, cl_pid = 5, cl_generate_key = Inr (), cl_self_signed = \<lambda>_ _. Inr ''cert'', cl_key_pem = \<lambda>_. ''key'',
     cl_key_from_pem = \<lambda>s. if s = ''key'' then Some () else None, cl_public_key_pem = \<lambda>_. ''pub'',
     cl_parse_pem = \<lambda>s. if s = ''cert'' then Some ([], ''CERTIFICATE'', ''c'') else if s = ''pub'' then Some ([], ''PUBLIC KEY'', ''p'') else None,
     cl_parse_certificate = \<lambda>s. Some ([], \<lparr>x_basic_constraints = Inr (Some True), x_key_usage = Inr (Some True),
       x_valid = True, x_subject_pki = ''p''\<rparr>),
     cl_issuer = \<lambda>_ _. True, cl_runtime_certificate = \<lambda>_. True, cl_runtime_key = \<lambda>_. True, cl_can_sign = \<lambda>_ _. True\<rparr>"

end
