(* ===== verification/Ca_Initialize.thy ===== *)
theory Ca_Initialize
  imports Ca_Files
begin

text \<open>
  \<open>ca-init\<close> makes the pair or nothing. While it runs, the file system is the one before
  with new files laid over it, and every such file is recorded either as a temporary path or as a
  linked target; cleanup that reports no error removes exactly those.
\<close>

subsection \<open>Files laid over a file system\<close>

text \<open>
  While a pair is made, the file system is the one before with some new files: \<open>M\<close> gives for a
  directory and a name the new node there. Under every such name the old file system has no entry.
\<close>

definition overlay :: "unix_fs \<Rightarrow> unix_fs \<Rightarrow> (file_id \<times> string \<Rightarrow> file_id option) \<Rightarrow> bool" where
  "overlay fs0 fs M \<longleftrightarrow> fs_root fs = fs_root fs0 \<and>
     (\<forall>d nd0. fs_node fs0 d = Some nd0 \<longrightarrow> (\<exists>nd. fs_node fs d = Some nd \<and> nd_kind nd = nd_kind nd0 \<and>
        nd_data nd = nd_data nd0 \<and>
        (\<forall>n. map_of (nd_entries nd) n = (case M (d, n) of Some i \<Rightarrow> Some i | None \<Rightarrow> map_of (nd_entries nd0) n)))) \<and>
     (\<forall>d n i. M (d, n) = Some i \<longrightarrow>
        dir_lookup fs0 d n = Inl ENOENT \<and> fs_node fs0 d \<noteq> None \<and> fs_node fs0 i = None \<and>
        (\<exists>nd. fs_node fs i = Some nd \<and> nd_kind nd = RegularFile))"

lemma overlay_refl: "overlay fs fs Map.empty"
  by (simp add: overlay_def)

lemma overlay_node:
  assumes "overlay fs0 fs M" "fs_node fs0 d = Some nd0"
  shows "\<exists>nd. fs_node fs d = Some nd \<and> nd_kind nd = nd_kind nd0 \<and> nd_data nd = nd_data nd0 \<and>
    (\<forall>n. map_of (nd_entries nd) n = (case M (d, n) of Some i \<Rightarrow> Some i | None \<Rightarrow> map_of (nd_entries nd0) n))"
  using assms by (simp add: overlay_def)

lemma overlay_new:
  assumes "overlay fs0 fs M" "M (d, n) = Some i"
  shows "dir_lookup fs0 d n = Inl ENOENT" "fs_node fs0 d \<noteq> None" "fs_node fs0 i = None"
    "\<exists>nd. fs_node fs i = Some nd \<and> nd_kind nd = RegularFile"
  using assms by (simp_all add: overlay_def)

lemma overlay_lookup:
  assumes "overlay fs0 fs M" "fs_node fs0 d \<noteq> None"
  shows "dir_lookup fs d n = (case M (d, n) of Some i \<Rightarrow> Inr i | None \<Rightarrow> dir_lookup fs0 d n)"
proof -
  obtain nd0 where nd0: "fs_node fs0 d = Some nd0" using assms(2) by auto
  from overlay_node [OF assms(1) this] obtain nd where nd: "fs_node fs d = Some nd" "nd_kind nd = nd_kind nd0"
    "map_of (nd_entries nd) n = (case M (d, n) of Some i \<Rightarrow> Some i | None \<Rightarrow> map_of (nd_entries nd0) n)" by blast
  show ?thesis
  proof (cases "M (d, n)")
    case None
    with nd nd0 show ?thesis by (simp add: dir_lookup_def)
  next
    case (Some i)
    from overlay_new(1) [OF assms(1) this] nd0 have "nd_kind nd0 = Directory"
      by (auto simp: dir_lookup_def split: if_splits)
    with Some nd nd0 show ?thesis by (simp add: dir_lookup_def)
  qed
qed

lemma overlay_extends: "overlay fs0 fs M \<Longrightarrow> extends_fs fs0 fs"
  unfolding extends_fs_def
proof (intro conjI allI impI)
  assume o: "overlay fs0 fs M"
  then show "fs_root fs = fs_root fs0" by (simp add: overlay_def)
  fix d n i
  assume i: "dir_lookup fs0 d n = Inr i"
  then have "fs_node fs0 d \<noteq> None" by (auto simp: dir_lookup_def split: option.splits)
  with overlay_lookup [OF o this, of n] overlay_new(1) [OF o, of d n] i
  show "dir_lookup fs d n = Inr i" by (auto split: option.splits)
next
  fix i nd
  assume "overlay fs0 fs M" "fs_node fs0 i = Some nd"
  from overlay_node [OF this]
  show "\<exists>nd'. fs_node fs i = Some nd' \<and> nd_kind nd' = nd_kind nd \<and> nd_data nd' = nd_data nd" by blast
qed

lemma overlay_parent:
  assumes "overlay fs0 fs M" "locate_parent fs0 loc = Inr (p, n)"
  shows "locate_parent fs loc = Inr (p, n)"
proof -
  obtain d ns where loc: "loc = (d, ns)" by (cases loc)
  have root: "start_dir fs d = start_dir fs0 d"
    using assms(1) by (simp add: overlay_def start_dir_def split: option.split)
  from assms(2) obtain tr where "resolve_names fs0 SYMLOOP_MAX (start_dir fs0 d) [] (butlast ns) True = Inr (p, tr)"
    "ns \<noteq> []" "n = last ns"
    by (auto simp: loc locate_parent_def locate_def split: if_splits sum.splits prod.splits)
  with resolve_names_extends [OF overlay_extends [OF assms(1)]] show ?thesis
    by (simp add: loc locate_parent_def locate_def root)
qed


lemma overlayI:
  assumes "fs_root fs = fs_root fs0"
    "\<And>d nd0. fs_node fs0 d = Some nd0 \<Longrightarrow> \<exists>nd. fs_node fs d = Some nd \<and> nd_kind nd = nd_kind nd0 \<and>
        nd_data nd = nd_data nd0 \<and>
        (\<forall>n. map_of (nd_entries nd) n = (case M (d, n) of Some i \<Rightarrow> Some i | None \<Rightarrow> map_of (nd_entries nd0) n))"
    "\<And>d n i. M (d, n) = Some i \<Longrightarrow>
        dir_lookup fs0 d n = Inl ENOENT \<and> fs_node fs0 d \<noteq> None \<and> fs_node fs0 i = None \<and>
        (\<exists>nd. fs_node fs i = Some nd \<and> nd_kind nd = RegularFile)"
  shows "overlay fs0 fs M"
  using assms unfolding overlay_def by blast

lemma overlay_root: "overlay fs0 fs M \<Longrightarrow> fs_root fs = fs_root fs0"
  by (simp add: overlay_def)

lemma dir_lookup_absent:
  "dir_lookup fs d n = Inl ENOENT \<longleftrightarrow>
     (case fs_node fs d of None \<Rightarrow> True | Some nd \<Rightarrow> nd_kind nd = Directory \<and> map_of (nd_entries nd) n = None)"
  by (auto simp: dir_lookup_def ok_or_Inl_iff split: option.split)

lemma overlay_add_node:
  assumes "overlay fs0 fs M" "fs_node fs i = None"
  shows "overlay fs0 (fs\<lparr>fs_node := (fs_node fs)(i \<mapsto> nd)\<rparr>) M"
proof (rule overlayI)
  fix d nd0
  assume "fs_node fs0 d = Some nd0"
  from overlay_node [OF assms(1) this] assms(2)
  show "\<exists>nd'. fs_node (fs\<lparr>fs_node := (fs_node fs)(i \<mapsto> nd)\<rparr>) d = Some nd' \<and> nd_kind nd' = nd_kind nd0 \<and> nd_data nd' = nd_data nd0 \<and>
      (\<forall>n. map_of (nd_entries nd') n = (case M (d, n) of Some i \<Rightarrow> Some i | None \<Rightarrow> map_of (nd_entries nd0) n))"
    by auto
next
  fix d n j
  assume "M (d, n) = Some j"
  from overlay_new [OF assms(1) this] assms(2)
  show "dir_lookup fs0 d n = Inl ENOENT \<and> fs_node fs0 d \<noteq> None \<and> fs_node fs0 j = None \<and>
      (\<exists>nd'. fs_node (fs\<lparr>fs_node := (fs_node fs)(i \<mapsto> nd)\<rparr>) j = Some nd' \<and> nd_kind nd' = RegularFile)"
    by auto
qed (simp add: overlay_root [OF assms(1)])

lemma overlay_update:
  assumes "overlay fs0 fs M" "fs_node fs0 i = None" "\<And>nd. nd_kind (f nd) = nd_kind nd"
  shows "overlay fs0 (update_node fs i f) M"
proof (rule overlayI)
  fix d nd0
  assume d: "fs_node fs0 d = Some nd0"
  then have "d \<noteq> i" using assms(2) by auto
  with overlay_node [OF assms(1) d]
  show "\<exists>nd'. fs_node (update_node fs i f) d = Some nd' \<and> nd_kind nd' = nd_kind nd0 \<and> nd_data nd' = nd_data nd0 \<and>
      (\<forall>n. map_of (nd_entries nd') n = (case M (d, n) of Some i \<Rightarrow> Some i | None \<Rightarrow> map_of (nd_entries nd0) n))"
    by (simp add: update_node_def)
next
  fix d n j
  assume "M (d, n) = Some j"
  from overlay_new [OF assms(1) this] assms(3)
  show "dir_lookup fs0 d n = Inl ENOENT \<and> fs_node fs0 d \<noteq> None \<and> fs_node fs0 j = None \<and>
      (\<exists>nd'. fs_node (update_node fs i f) j = Some nd' \<and> nd_kind nd' = RegularFile)"
    by (auto simp: update_node_def)
qed (simp add: overlay_root [OF assms(1)] update_node_def)

lemma overlay_add_entry:
  assumes "overlay fs0 fs M" "dir_lookup fs p n = Inl ENOENT" "fs_node fs0 p = Some nd0" "nd_kind nd0 = Directory"
    "fs_node fs0 i = None" "fs_node fs i = Some nd" "nd_kind nd = RegularFile"
  shows "overlay fs0 (add_entry fs p n i) (M((p, n) \<mapsto> i))" "M (p, n) = None"
proof -
  have look: "dir_lookup fs p n = (case M (p, n) of Some i \<Rightarrow> Inr i | None \<Rightarrow> dir_lookup fs0 p n)"
    by (rule overlay_lookup [OF assms(1)]) (simp add: assms(3))
  then show M: "M (p, n) = None" using assms(2) by (auto split: option.splits)
  with look assms(2) have free: "dir_lookup fs0 p n = Inl ENOENT" by simp
  have ip: "i \<noteq> p" using assms(3,5) by auto
  show "overlay fs0 (add_entry fs p n i) (M((p, n) \<mapsto> i))"
  proof (rule overlayI)
    fix d nd0
    assume "fs_node fs0 d = Some nd0"
    from overlay_node [OF assms(1) this] obtain nd where nd: "fs_node fs d = Some nd" "nd_kind nd = nd_kind nd0"
      "nd_data nd = nd_data nd0"
      "\<And>m. map_of (nd_entries nd) m = (case M (d, m) of Some i \<Rightarrow> Some i | None \<Rightarrow> map_of (nd_entries nd0) m)" by blast
    then show "\<exists>nd. fs_node (add_entry fs p n i) d = Some nd \<and> nd_kind nd = nd_kind nd0 \<and> nd_data nd = nd_data nd0 \<and>
        (\<forall>m. map_of (nd_entries nd) m = (case (M((p, n) \<mapsto> i)) (d, m) of Some i \<Rightarrow> Some i | None \<Rightarrow> map_of (nd_entries nd0) m))"
      by (cases "d = p") (auto simp: add_entry_def update_node_def)
  next
    fix d m j
    assume "(M((p, n) \<mapsto> i)) (d, m) = Some j"
    then have "(d = p \<and> m = n \<and> j = i) \<or> M (d, m) = Some j" by (auto split: if_splits)
    then show "dir_lookup fs0 d m = Inl ENOENT \<and> fs_node fs0 d \<noteq> None \<and> fs_node fs0 j = None \<and>
      (\<exists>nd. fs_node (add_entry fs p n i) j = Some nd \<and> nd_kind nd = RegularFile)"
    proof
      assume "M (d, m) = Some j"
      from overlay_new [OF assms(1) this] show ?thesis by (auto simp: add_entry_def update_node_def)
    next
      assume "d = p \<and> m = n \<and> j = i"
      with free assms(3,5,6,7) ip show ?thesis by (simp add: add_entry_def update_node_def)
    qed
  qed (simp add: overlay_root [OF assms(1)] add_entry_def update_node_def)
qed

lemma overlay_remove:
  assumes "overlay fs0 fs M" "M (p, n) = Some i"
  shows "overlay fs0 (remove_entry fs p n) (M((p, n) := None))"
proof (rule overlayI)
  fix d nd0
  assume nd0: "fs_node fs0 d = Some nd0"
  from overlay_node [OF assms(1) this] obtain nd where nd: "fs_node fs d = Some nd" "nd_kind nd = nd_kind nd0"
    "nd_data nd = nd_data nd0"
    "\<And>m. map_of (nd_entries nd) m = (case M (d, m) of Some i \<Rightarrow> Some i | None \<Rightarrow> map_of (nd_entries nd0) m)" by blast
  have "map_of (nd_entries nd0) n = None" if "d = p"
    using overlay_new(1) [OF assms] that nd0 by (simp add: dir_lookup_absent)
  with nd show "\<exists>nd. fs_node (remove_entry fs p n) d = Some nd \<and> nd_kind nd = nd_kind nd0 \<and> nd_data nd = nd_data nd0 \<and>
      (\<forall>m. map_of (nd_entries nd) m = (case (M((p, n) := None)) (d, m) of Some i \<Rightarrow> Some i | None \<Rightarrow> map_of (nd_entries nd0) m))"
    by (cases "d = p") (auto simp: remove_entry_def update_node_def delete_conv')
next
  fix d m j
  assume "(M((p, n) := None)) (d, m) = Some j"
  then have "M (d, m) = Some j" by (auto split: if_splits)
  from overlay_new [OF assms(1) this]
  show "dir_lookup fs0 d m = Inl ENOENT \<and> fs_node fs0 d \<noteq> None \<and> fs_node fs0 j = None \<and>
    (\<exists>nd. fs_node (remove_entry fs p n) j = Some nd \<and> nd_kind nd = RegularFile)"
    by (auto simp: remove_entry_def update_node_def)
qed (simp add: overlay_root [OF assms(1)] remove_entry_def update_node_def)

subsection \<open>All or nothing\<close>

text \<open>
  The files laid over the file system are exactly the recorded ones, and a linked target has the
  identity that was recorded with it.
\<close>

definition tracked :: "unix_fs \<Rightarrow> (file_id \<times> string \<Rightarrow> file_id option) \<Rightarrow> location list \<Rightarrow> linked_target list \<Rightarrow> bool" where
  "tracked fs0 M temps links \<longleftrightarrow>
     Inr ` dom M = locate_parent fs0 ` (set temps \<union> lt_target ` set links) \<and>
     (\<forall>l \<in> set links. locate_parent fs0 (lt_target l) \<notin> locate_parent fs0 ` set temps \<and>
        (\<exists>k. locate_parent fs0 (lt_target l) = Inr k \<and> M k = Some (lt_identity l)))"

definition ca_inv :: "unix_fs \<Rightarrow> ca_world \<Rightarrow> bool" where
  "ca_inv fs0 w \<longleftrightarrow> (\<exists>M. overlay fs0 (w_fs w) M \<and> tracked fs0 M (cw_temporary_paths w) (cw_linked_targets w))"

definition target_parent :: "unix_fs \<Rightarrow> kernel \<Rightarrow> string \<Rightarrow> file_id \<Rightarrow> bool" where
  "target_parent fs K path p \<longleftrightarrow> locate fs (parent_loc K path) True = Inr p \<and>
     (\<exists>nd. fs_node fs p = Some nd \<and> nd_kind nd = Directory)"

lemma path_loc_parent:
  assumes "file_name path = Some n"
  shows "path_loc K path = (fst (parent_loc K path), snd (parent_loc K path) @ [n])"
proof -
  obtain cs where cs: "components path = cs @ [Normal n]"
    using assms by (auto simp: file_name_def split: list.splits component.splits)
  have "cs \<noteq> []" if "is_absolute path"
    using components_absolute [OF that] cs by (cases cs) auto
  then show ?thesis by (auto simp: parent_loc_def path_loc_def names_of_def cs parent_components_def)
qed

lemma locate_parent_snoc:
  "locate fs loc True = Inr p \<Longrightarrow> locate_parent fs (fst loc, snd loc @ [n]) = Inr (p, n)"
  by (cases loc) (simp add: locate_parent_def)

lemma frames_ca:
  assumes "frames (m :: ('e, 'a) csys)" "m w = (r, w')"
  shows "cw_temporary_paths w' = cw_temporary_paths w \<and> cw_linked_targets w' = cw_linked_targets w"
proof -
  have "world.more w' = world.more w" using assms unfolding frames_def by (metis snd_conv)
  then show ?thesis by (cases w; cases w') simp
qed

lemma ca_inv_still:
  assumes "frames (m :: ('e, 'a) csys)" "still m" "m w = (r, w')"
  shows "ca_inv fs0 w' = ca_inv fs0 w"
  using frames_ca [OF assms(1,3)] stillD [OF assms(2,3)] by (simp add: ca_inv_def)

lemma still_load:
  assumes "\<And>t. quiet K t"
  shows "still (public_certificate_load K lib path)" "still (read_private_key K path)"
    "still (managed_ca_load K lib certificate private_key)"
  unfolding managed_ca_load_def public_certificate_load_def read_private_key_def
  by (intro still_intros still_calls [OF assms] still_pure)+

lemma frames_load:
  "frames (public_certificate_load K lib path)" "frames (read_private_key K path)"
  "frames (managed_ca_load K lib certificate private_key)"
  unfolding managed_ca_load_def public_certificate_load_def read_private_key_def
  by (intro frames_intros frames_calls frames_pure)+

lemma still_check_targets:
  assumes "\<And>t. quiet K t"
  shows "still (check_targets K config)" "frames (check_targets K config)"
proof -
  have f: "still (find_conflicts K targets cs)" "frames (find_conflicts K targets cs)" for targets cs
    by (induction targets arbitrary: cs)
      (auto intro!: still_intros still_calls [OF assms] frames_intros split: sum.split)
  show "still (check_targets K config)" "frames (check_targets K config)"
    unfolding check_targets_def validate_target_parent_def Let_def
    by (intro still_intros frames_intros still_calls [OF assms] still_pure frames_calls frames_pure f)+
qed

lemma sys_stat_quiet:
  assumes "sys_stat K loc follow w = (Inr md, w')" "quiet K (w_tick w)"
  shows "\<exists>i nd. locate (w_fs w) loc follow = Inr i \<and> fs_node (w_fs w) i = Some nd \<and> md = stat_of i nd \<and> w_fs w' = w_fs w"
  using assms unfolding sys_stat_def syscall_Inr
  by (auto simp: result_simps stat_call_def node_at_def quiet_def)

lemma validate_target_parent_ok:
  assumes "validate_target_parent K path label w = (Inr tr, w')" "\<And>t. quiet K t"
  shows "(\<exists>p. target_parent (w_fs w) K path p) \<and> w_fs w' = w_fs w"
proof
  show "\<exists>p. target_parent (w_fs w) K path p"
    using assms(1) unfolding validate_target_parent_def Let_def
    by (auto elim!: sys_thenE sys_contextE dest!: sys_stat_quiet [OF _ assms(2)]
        simp: target_parent_def sys_ensure_def split: if_splits)
  have "still (validate_target_parent K path label)"
    unfolding validate_target_parent_def Let_def by (intro still_intros still_calls [OF assms(2)] still_pure)
  then show "w_fs w' = w_fs w" using assms(1) by (rule stillD)
qed

text \<open>Creating a temporary file and linking it.\<close>

lemma overlay_fresh: "overlay fs0 fs M \<Longrightarrow> fs_node fs i = None \<Longrightarrow> fs_node fs0 i = None"
  using overlay_node [of fs0 fs M i] by (cases "fs_node fs0 i") auto

lemma overlay_slot:
  assumes "overlay fs0 fs M" "free_slot fs loc = Inr (p, n)" "locate_parent fs0 loc = Inr (q, m)"
  shows "p = q" "n = m" "dir_lookup fs q m = Inl ENOENT"
  using assms(2) overlay_parent [OF assms(1,3)]
  by (auto simp: free_slot_def result_simps split: sum.splits if_splits)

lemma overlay_create:
  assumes "sys_create_new K loc mode w = (Inr i, w')" "\<And>t. quiet K t" "overlay fs0 (w_fs w) M"
    "locate_parent fs0 loc = Inr (p, n)" "fs_node fs0 p = Some nd0" "nd_kind nd0 = Directory"
  shows "overlay fs0 (w_fs w') (M((p, n) \<mapsto> i)) \<and> M (p, n) = None \<and> fs_node fs0 i = None"
proof -
  from assms(1,2) obtain q m where slot: "free_slot (w_fs w) loc = Inr (q, m)" and i: "fs_node (w_fs w) i = None"
    and w': "w_fs w' = add_entry ((w_fs w)\<lparr>fs_node := (fs_node (w_fs w))(i \<mapsto> file_node K mode q i)\<rparr>) q m i"
    unfolding sys_create_new_def syscall_Inr by (auto simp: result_simps quiet_def)
  note qm = overlay_slot [OF assms(3) slot assms(4)]
  have o: "overlay fs0 ((w_fs w)\<lparr>fs_node := (fs_node (w_fs w))(i \<mapsto> file_node K mode q i)\<rparr>) M"
    by (rule overlay_add_node [OF assms(3) i])
  have "p \<noteq> i" using overlay_node [OF assms(3,5)] i by auto
  then have free: "dir_lookup ((w_fs w)\<lparr>fs_node := (fs_node (w_fs w))(i \<mapsto> file_node K mode q i)\<rparr>) p n = Inl ENOENT"
    using qm(3) by (simp add: dir_lookup_def)
  show ?thesis
    using overlay_add_entry [OF o free assms(5,6) overlay_fresh [OF assms(3) i]] overlay_fresh [OF assms(3) i] qm w'
    by (simp add: file_node_def)
qed

lemma overlay_sys_update:
  assumes "sys_update K (\<lambda>fs. Inr i) f ev w = (r, w')" "\<And>t. quiet K t" "overlay fs0 (w_fs w) M" "fs_node fs0 i = None"
    "\<And>nd. nd_kind (f nd) = nd_kind nd"
  shows "overlay fs0 (w_fs w') M"
  using assms(1) overlay_update [OF assms(3-5)] unfolding sys_update_def
  by (elim syscall_quietE [OF _ assms(2)]) (auto simp: result_simps assms(3))

text \<open>A recorded temporary file is there.\<close>

lemma tracked_temporary:
  assumes "overlay fs0 fs M" "tracked fs0 M temps links" "loc \<in> set temps"
  shows "\<exists>k i nd. locate_parent fs0 loc = Inr k \<and> M k = Some i \<and> fs_node fs0 i = None \<and> fs_node fs i = Some nd \<and>
    nd_kind nd = RegularFile \<and> locate fs loc True = Inr i \<and> locate fs loc False = Inr i"
proof -
  have "locate_parent fs0 loc \<in> Inr ` dom M" using assms(2,3) by (simp add: tracked_def)
  then obtain p n i where k: "locate_parent fs0 loc = Inr (p, n)" "M (p, n) = Some i" by auto
  from overlay_new [OF assms(1) k(2)] obtain nd where
    nd: "fs_node fs0 i = None" "fs_node fs i = Some nd" "nd_kind nd = RegularFile" "fs_node fs0 p \<noteq> None" by auto
  have "dir_lookup fs p n = Inr i" using overlay_lookup [OF assms(1) nd(4), of n] k(2) by simp
  from locate_entry_node [OF overlay_parent [OF assms(1) k(1)] this nd(2)] nd k show ?thesis by auto
qed

lemma tracked_elsewhere:
  assumes "tracked fs0 M temps links" "M k = None"
  shows "Inr k \<notin> locate_parent fs0 ` (set temps \<union> lt_target ` set links)"
proof
  assume "Inr k \<in> locate_parent fs0 ` (set temps \<union> lt_target ` set links)"
  then have "Inr k \<in> (Inr ` dom M :: (errno + file_id \<times> string) set)" using assms(1) by (simp add: tracked_def)
  with assms(2) show False by auto
qed

lemma tracked_links:
  assumes "tracked fs0 M temps links" "M k = None" "l \<in> set links"
  shows "locate_parent fs0 (lt_target l) \<notin> insert (Inr k) (locate_parent fs0 ` set temps)"
    "\<exists>k'. locate_parent fs0 (lt_target l) = Inr k' \<and> (M(k \<mapsto> i)) k' = Some (lt_identity l)"
proof -
  obtain k' where k': "locate_parent fs0 (lt_target l) = Inr k'" "M k' = Some (lt_identity l)"
    "locate_parent fs0 (lt_target l) \<notin> locate_parent fs0 ` set temps"
    using assms(1,3) by (auto simp: tracked_def)
  with assms(2) have "k' \<noteq> k" by auto
  with k' show "locate_parent fs0 (lt_target l) \<notin> insert (Inr k) (locate_parent fs0 ` set temps)"
    "\<exists>k'. locate_parent fs0 (lt_target l) = Inr k' \<and> (M(k \<mapsto> i)) k' = Some (lt_identity l)" by auto
qed

lemma tracked_push_temporary:
  assumes "tracked fs0 M temps links" "locate_parent fs0 loc = Inr k" "M k = None"
  shows "tracked fs0 (M(k \<mapsto> i)) (temps @ [loc]) links"
  unfolding tracked_def
proof (intro conjI ballI)
  show "Inr ` dom (M(k \<mapsto> i)) = locate_parent fs0 ` (set (temps @ [loc]) \<union> lt_target ` set links)"
    using assms(1,2) by (simp add: tracked_def image_Un)
next
  fix l
  assume "l \<in> set links"
  from tracked_links [OF assms(1,3) this] assms(2)
  show "locate_parent fs0 (lt_target l) \<notin> locate_parent fs0 ` set (temps @ [loc])"
    "\<exists>k'. locate_parent fs0 (lt_target l) = Inr k' \<and> (M(k \<mapsto> i)) k' = Some (lt_identity l)" by auto
qed

lemma tracked_push_linked:
  assumes "tracked fs0 M temps links" "locate_parent fs0 loc = Inr k" "M k = None"
  shows "tracked fs0 (M(k \<mapsto> i)) temps (links @ [\<lparr>lt_target = loc, lt_identity = i\<rparr>])"
  unfolding tracked_def
proof (intro conjI ballI)
  show "Inr ` dom (M(k \<mapsto> i)) = locate_parent fs0 ` (set temps \<union> lt_target ` set (links @ [\<lparr>lt_target = loc, lt_identity = i\<rparr>]))"
    using assms(1,2) by (simp add: tracked_def image_Un)
next
  fix l
  assume "l \<in> set (links @ [\<lparr>lt_target = loc, lt_identity = i\<rparr>])"
  then consider "l \<in> set links" | "l = \<lparr>lt_target = loc, lt_identity = i\<rparr>" by auto
  then have "locate_parent fs0 (lt_target l) \<notin> locate_parent fs0 ` set temps \<and>
    (\<exists>k'. locate_parent fs0 (lt_target l) = Inr k' \<and> (M(k \<mapsto> i)) k' = Some (lt_identity l))"
  proof cases
    case 1
    with tracked_links [OF assms(1,3) this] show ?thesis by blast
  next
    case 2
    with tracked_elsewhere [OF assms(1,3)] assms(2) show ?thesis by (auto intro: exI [of _ k])
  qed
  then show "locate_parent fs0 (lt_target l) \<notin> locate_parent fs0 ` set temps"
    "\<exists>k'. locate_parent fs0 (lt_target l) = Inr k' \<and> (M(k \<mapsto> i)) k' = Some (lt_identity l)" by blast+
qed

lemma fill_temporary_inv:
  assumes "fill_temporary_file K loc contents mode label i w = (r, w')" "\<And>t. quiet K t"
    "overlay fs0 (w_fs w) (M(k \<mapsto> i))" "M k = None" "locate_parent fs0 loc = Inr k"
    "tracked fs0 M (cw_temporary_paths w) (cw_linked_targets w)" "fs_node fs0 i = None"
  shows "ca_inv fs0 w' \<and> cw_temporary_paths w' = cw_temporary_paths w @ [loc] \<and>
    cw_linked_targets w' = cw_linked_targets w \<and> (\<forall>t. r = Inr t \<longrightarrow> t = loc)"
proof -
  let ?I = "\<lambda>v :: ca_world. overlay fs0 (w_fs v) (M(k \<mapsto> i)) \<and> cw_temporary_paths v = cw_temporary_paths w @ [loc] \<and>
    cw_linked_targets v = cw_linked_targets w"
  have step: "triple ?I (sys_context g (m :: (io_error, unit) csys)) (\<lambda>_. ?I)"
    if "m = sys_update K (\<lambda>fs. Inr i) f ev" "\<And>nd. nd_kind (f nd) = nd_kind nd" for m f ev and g :: "io_error \<Rightarrow> failure"
  proof (intro triple_context tripleI)
    fix v q v'
    assume v: "?I v" "m v = (q, v')"
    from v(1) have "overlay fs0 (w_fs v) (M(k \<mapsto> i))" by simp
    from overlay_sys_update [OF v(2) [unfolded that(1)] assms(2) this assms(7) that(2)] frames_ca [of m v q v', OF _ v(2)] v(1)
    show "?I v'" by (simp add: that(1) sys_update_def)
  qed
  have "triple ?I (sys_then (sys_context g1 (sys_fchmod K i mode :: (io_error, unit) csys)) (\<lambda>_.
      sys_then (sys_context g2 (sys_write K i contents)) (\<lambda>_.
      sys_then (sys_context g3 (sys_sync K i)) (\<lambda>_. sys_return loc))))
    (\<lambda>r v. ?I v \<and> (\<forall>t. r = Inr t \<longrightarrow> t = loc))" for g1 g2 g3 :: "io_error \<Rightarrow> failure"
    by (rule triple_then, rule step, rule sys_fchmod_def, simp,
        rule triple_then, rule step, rule sys_write_def, simp,
        rule triple_then, rule step, rule sys_sync_def) (simp_all add: triple_def sys_return_def)
  note filled = tripleD [OF this]
  have "?I w' \<and> (\<forall>t. r = Inr t \<longrightarrow> t = loc)"
    using assms(1) unfolding fill_temporary_file_def
    by (rule sys_thenE) (simp add: push_temporary_def, rule filled, assumption, auto simp: push_temporary_def assms(3))
  then show ?thesis
    using tracked_push_temporary [OF assms(6,5,4)] by (auto simp: ca_inv_def)
qed

text \<open>What a step of the construction keeps: the invariant, and what was recorded before.\<close>

definition ca_step :: "unix_fs \<Rightarrow> ca_world \<Rightarrow> ca_world \<Rightarrow> bool" where
  "ca_step fs0 w w' \<longleftrightarrow> ca_inv fs0 w' \<and> set (cw_temporary_paths w) \<subseteq> set (cw_temporary_paths w') \<and>
     set (cw_linked_targets w) \<subseteq> set (cw_linked_targets w')"

lemma ca_step_refl: "ca_inv fs0 w \<Longrightarrow> ca_step fs0 w w"
  by (simp add: ca_step_def)

lemma ca_step_trans: "ca_step fs0 w w1 \<Longrightarrow> ca_step fs0 w1 w2 \<Longrightarrow> ca_step fs0 w w2"
  by (auto simp: ca_step_def)

lemma ca_step_inv: "ca_step fs0 w w' \<Longrightarrow> ca_inv fs0 w'"
  by (simp add: ca_step_def)

lemma ca_step_still:
  "frames (m :: ('e, 'a) csys) \<Longrightarrow> still m \<Longrightarrow> m w = (r, w') \<Longrightarrow> ca_inv fs0 w \<Longrightarrow> ca_step fs0 w w'"
  using ca_inv_still [of m w r w' fs0] frames_ca [of m w r w'] by (simp add: ca_step_def)

lemma sys_create_error:
  assumes "sys_create_new K loc mode w = (Inl e, w')" "\<And>t. quiet K t" "ca_inv fs0 (w :: ca_world)"
  shows "ca_step fs0 w w'"
proof -
  have "w_fs w' = w_fs w" using assms(1,2) by (auto simp: sys_create_new_def elim: syscall_quietE)
  with frames_ca [OF frames_calls(16) assms(1)] assms(3) show ?thesis by (simp add: ca_inv_def ca_step_def)
qed

lemma temporary_attempts_inv:
  assumes "temporary_attempts n K lib target contents mode label w = (r, w')" "\<And>t. quiet K t"
    "ca_inv fs0 w" "target_parent fs0 K target p"
  shows "ca_step fs0 w w' \<and> (\<forall>t. r = Inr t \<longrightarrow> t \<in> set (cw_temporary_paths w')) \<and>
    cw_linked_targets w' = cw_linked_targets w"
  using assms(1,3)
proof (induction n arbitrary: w)
  case 0
  then show ?case by (simp add: ca_step_refl)
next
  case (Suc n)
  let ?loc = "(fst (parent_loc K target), snd (parent_loc K target) @ [temporary_name lib (cw_sequence w)])"
  let ?w = "w\<lparr>cw_sequence := cw_sequence w + 1\<rparr>"
  have inv: "ca_inv fs0 ?w" using Suc.prems(2) by (simp add: ca_inv_def)
  have same: "ca_step fs0 ?w v \<Longrightarrow> ca_step fs0 w v" for v by (simp add: ca_step_def)
  from assms(4) obtain nd where p: "locate_parent fs0 ?loc = Inr (p, temporary_name lib (cw_sequence w))"
    "fs_node fs0 p = Some nd" "nd_kind nd = Directory" by (auto simp: target_parent_def locate_parent_snoc)
  from Suc.prems(1) obtain q w1 where create: "sys_create_new K ?loc mode ?w = (q, w1)"
    and rest: "(case q of Inr file \<Rightarrow> fill_temporary_file K ?loc contents mode label file
       | Inl e \<Rightarrow> if io_kind_of e = AlreadyExistsKind then temporary_attempts n K lib target contents mode label
           else sys_fail (Context (''could not create temporary '' @ label @ '' beside '' @ target) e)) w1 = (r, w')"
    by (auto simp: next_sequence_def Let_def elim!: sys_thenE sys_matchE)
  show ?case
  proof (cases q)
    case (Inl e)
    with create have "ca_step fs0 ?w w1" using sys_create_error [OF _ assms(2) inv] by blast
    moreover have "cw_linked_targets w1 = cw_linked_targets w" using frames_ca [OF frames_calls(16) create] by simp
    ultimately show ?thesis
      using rest Inl Suc.IH [of w1]
      by (auto split: if_splits dest: ca_step_inv intro: same ca_step_trans)
  next
    case (Inr j)
    obtain M where M: "overlay fs0 (w_fs ?w) M" "tracked fs0 M (cw_temporary_paths ?w) (cw_linked_targets ?w)"
      using inv by (auto simp: ca_inv_def)
    note made = overlay_create [OF create [unfolded Inr] assms(2) M(1) p]
    have kept: "cw_temporary_paths w1 = cw_temporary_paths w" "cw_linked_targets w1 = cw_linked_targets w"
      using frames_ca [OF frames_calls(16) create] by simp_all
    from rest Inr have "fill_temporary_file K ?loc contents mode label j w1 = (r, w')" by simp
    from fill_temporary_inv [OF this assms(2) conjunct1 [OF made] _ p(1)] made M(2) kept
    show ?thesis by (auto simp: ca_step_def)
  qed
qed

lemma overlay_link:
  assumes "sys_link K source loc w = (Inr u, w')" "\<And>t. quiet K t" "overlay fs0 (w_fs w) M"
    "locate_parent fs0 loc = Inr (p, n)" "fs_node fs0 p = Some nd0" "nd_kind nd0 = Directory"
    "locate (w_fs w) source False = Inr i" "fs_node fs0 i = None" "fs_node (w_fs w) i = Some nd" "nd_kind nd = RegularFile"
  shows "overlay fs0 (w_fs w') (M((p, n) \<mapsto> i)) \<and> M (p, n) = None"
proof -
  from assms(1,2,7) obtain q m where slot: "free_slot (w_fs w) loc = Inr (q, m)" and w': "w_fs w' = add_entry (w_fs w) q m i"
    unfolding sys_link_def syscall_Inr by (auto simp: result_simps quiet_def split: if_splits)
  note qm = overlay_slot [OF assms(3) slot assms(4)]
  show ?thesis
    using overlay_add_entry [OF assms(3) qm(3) assms(5,6,8,9,10)] w' qm by simp
qed

lemma install_inv:
  assumes "install_without_overwrite K temporary target label w = (r, w')" "\<And>t. quiet K t" "ca_inv fs0 w"
    "target_parent fs0 K target p" "file_name target = Some n" "temporary \<in> set (cw_temporary_paths w)"
  shows "ca_step fs0 w w' \<and> (r = Inr () \<longrightarrow>
    map lt_target (cw_linked_targets w') = map lt_target (cw_linked_targets w) @ [path_loc K target])"
  using assms(1) unfolding install_without_overwrite_def
proof (rule sys_thenE)
  fix e
  assume "sys_context (Context (''could not inspect temporary '' @ label)) (sys_stat K temporary True) w = (Inl e, w')" "r = Inl e"
  then show ?thesis
    using ca_step_still [OF frames_context [OF frames_calls(1)] still_context [OF still_calls(1) [OF assms(2)]] _ assms(3)] by blast
next
  fix md w1
  assume "sys_context (Context (''could not inspect temporary '' @ label)) (sys_stat K temporary True) w = (Inr md, w1)"
  then have stat: "sys_stat K temporary True w = (Inr md, w1)" by (auto elim: sys_contextE)
  assume "sys_match (sys_link K temporary (path_loc K target)) (\<lambda>r. case r of
       Inl e \<Rightarrow> if io_kind_of e = AlreadyExistsKind
         then sys_fail (Bail (''refusing to overwrite existing '' @ label @ '' '' @ target))
         else sys_fail (Context (''could not install '' @ label @ '' at '' @ target) e)
     | Inr _ \<Rightarrow> push_linked \<lparr>lt_target = path_loc K target, lt_identity = md_id md\<rparr>) w1 = (r, w')"
  then obtain q w2 where link: "sys_link K temporary (path_loc K target) w1 = (q, w2)"
    and rest: "(case q of Inl e \<Rightarrow> if io_kind_of e = AlreadyExistsKind
         then sys_fail (Bail (''refusing to overwrite existing '' @ label @ '' '' @ target))
         else sys_fail (Context (''could not install '' @ label @ '' at '' @ target) e)
       | Inr _ \<Rightarrow> push_linked \<lparr>lt_target = path_loc K target, lt_identity = md_id md\<rparr>) w2 = (r, w')"
    by (rule sys_matchE)
  have s1: "ca_step fs0 w w1" by (rule ca_step_still [OF frames_calls(1) still_calls(1) [OF assms(2)] stat assms(3)])
  have kept: "cw_temporary_paths w2 = cw_temporary_paths w1" "cw_linked_targets w2 = cw_linked_targets w1"
    using frames_ca [OF frames_calls(18) link] by simp_all
  obtain M where M: "overlay fs0 (w_fs w1) M" "tracked fs0 M (cw_temporary_paths w1) (cw_linked_targets w1)"
    using ca_step_inv [OF s1] by (auto simp: ca_inv_def)
  show ?thesis
  proof (cases q)
    case (Inl e)
    then have "w_fs w2 = w_fs w1" using link assms(2) by (auto simp: sys_link_def elim: syscall_quietE)
    then have "ca_step fs0 w1 w2" using kept M by (auto simp: ca_step_def ca_inv_def)
    with rest Inl s1 show ?thesis by (auto split: if_splits intro: ca_step_trans)
  next
    case (Inr u)
    have temp: "temporary \<in> set (cw_temporary_paths w1)" using assms(6) s1 by (auto simp: ca_step_def)
    from tracked_temporary [OF M temp] obtain i nd where i: "fs_node fs0 i = None" "fs_node (w_fs w1) i = Some nd"
      "nd_kind nd = RegularFile" "locate (w_fs w1) temporary True = Inr i" "locate (w_fs w1) temporary False = Inr i" by blast
    have md: "md_id md = i" using sys_stat_quiet [OF stat assms(2)] i by auto
    from assms(4) obtain nd0 where p: "locate_parent fs0 (path_loc K target) = Inr (p, n)"
      "fs_node fs0 p = Some nd0" "nd_kind nd0 = Directory"
      by (auto simp: target_parent_def path_loc_parent [OF assms(5)] locate_parent_snoc)
    from overlay_link [OF link [unfolded Inr] assms(2) M(1) p i(5,1,2,3)]
    have new: "overlay fs0 (w_fs w2) (M((p, n) \<mapsto> i))" "M (p, n) = None" by blast+
    have w': "w' = w2\<lparr>cw_linked_targets := cw_linked_targets w1 @ [\<lparr>lt_target = path_loc K target, lt_identity = i\<rparr>]\<rparr>"
      using rest by (simp add: Inr push_linked_def md kept)
    have "ca_inv fs0 w'"
      using new(1) tracked_push_linked [OF M(2) p(1) new(2), of i] by (auto simp: ca_inv_def w' kept)
    moreover have "cw_linked_targets w1 = cw_linked_targets w" using frames_ca [OF frames_calls(1) stat] by simp
    ultimately show ?thesis using s1 by (auto simp: ca_step_def w' kept)
  qed
qed

text \<open>A pair of files that the checks of a load accept.\<close>

definition pair_valid :: "'k ca_lib \<Rightarrow> unix_fs \<Rightarrow> location \<Rightarrow> location \<Rightarrow> bool" where
  "pair_valid lib fs certificate private_key \<longleftrightarrow>
     (\<exists>c cn k kn ca. locate fs certificate True = Inr c \<and> fs_node fs c = Some cn \<and> nd_kind cn = RegularFile \<and>
        locate fs private_key False = Inr k \<and> fs_node fs k = Some kn \<and> nd_kind kn = RegularFile \<and>
        validate_private_key_permissions (stat_of k kn) = Inr () \<and>
        check_public_certificate lib (nd_data cn) = Inr () \<and> check_pair lib (nd_data cn) (nd_data kn) = Inr ca)"

lemma sys_read_quiet:
  assumes "sys_read K loc w = (Inr s, w')" "quiet K (w_tick w)"
  shows "\<exists>i nd. locate (w_fs w) loc True = Inr i \<and> fs_node (w_fs w) i = Some nd \<and> nd_kind nd = RegularFile \<and> s = nd_data nd \<and>
    w_fs w' = w_fs w"
  using assms unfolding sys_read_def syscall_Inr
  by (auto simp: result_simps node_at_def quiet_def split: if_splits)

lemma public_certificate_load_ok:
  assumes "public_certificate_load K lib path w = (Inr pem, w')" "\<And>t. quiet K t"
  shows "(\<exists>i nd. locate (w_fs w) path True = Inr i \<and> fs_node (w_fs w) i = Some nd \<and> nd_kind nd = RegularFile \<and> pem = nd_data nd) \<and>
    check_public_certificate lib pem = Inr () \<and> w_fs w' = w_fs w"
  using assms(1) unfolding public_certificate_load_def
  by (auto elim!: sys_thenE sys_contextE dest!: sys_stat_quiet [OF _ assms(2)] sys_read_quiet [OF _ assms(2)]
      simp: sys_ensure_def sys_result_def split: if_splits)

lemma locate_same_end:
  assumes "locate fs loc False = Inr i" "fs_node fs i = Some nd" "nd_kind nd = RegularFile" "locate fs loc True = Inr j"
  shows "j = i"
proof -
  obtain d ns where loc: "loc = (d, ns)" by (cases loc)
  show ?thesis
  proof (cases "ns = []")
    case True
    with assms(1,4) show ?thesis by (simp add: loc locate_def)
  next
    case False
    then have ns: "ns = butlast ns @ [last ns]" by simp
    from assms(1) obtain p tr where r: "resolve_names fs SYMLOOP_MAX (start_dir fs d) [] (butlast ns) True = Inr (p, tr)"
      "dir_lookup fs p (last ns) = Inr i"
      using resolve_names_snoc [of fs SYMLOOP_MAX "start_dir fs d" "[]" "butlast ns" "last ns"] ns
      by (auto simp: loc locate_def split: sum.splits option.splits prod.splits)
    from resolve_names_snoc_follow [OF r assms(2)] ns assms(3,4) show ?thesis by (simp add: loc locate_def)
  qed
qed

lemma read_private_key_ok:
  assumes "read_private_key K path w = (Inr key, w')" "\<And>t. quiet K t"
  shows "(\<exists>i nd. locate (w_fs w) path False = Inr i \<and> fs_node (w_fs w) i = Some nd \<and> nd_kind nd = RegularFile \<and> key = nd_data nd \<and>
    validate_private_key_permissions (stat_of i nd) = Inr ()) \<and> w_fs w' = w_fs w"
  using assms(1) unfolding read_private_key_def
  by (auto elim!: sys_thenE sys_contextE dest!: sys_stat_quiet [OF _ assms(2)] sys_read_quiet [OF _ assms(2)]
      simp: sys_ensure_def sys_result_def split: if_splits) (metis locate_same_end option.inject)

lemma managed_ca_load_ok:
  assumes "managed_ca_load K lib certificate private_key w = (Inr ca, w')" "\<And>t. quiet K t"
  shows "pair_valid lib (w_fs w) certificate private_key"
  using assms(1) unfolding managed_ca_load_def pair_valid_def
  by (auto elim!: sys_thenE dest!: public_certificate_load_ok [OF _ assms(2)] read_private_key_ok [OF _ assms(2)]
      simp: sys_result_def)

lemma load_step:
  assumes "sys_context g (managed_ca_load K lib c k) w = (r, w')" "\<And>t. quiet K t" "ca_inv fs0 (w :: ca_world)"
  shows "ca_step fs0 w w' \<and> cw_temporary_paths w' = cw_temporary_paths w \<and> cw_linked_targets w' = cw_linked_targets w \<and>
    (\<forall>x. r = Inr x \<longrightarrow> pair_valid lib (w_fs w') c k)"
proof (intro conjI allI impI)
  show "ca_step fs0 w w'"
    by (rule ca_step_still [OF frames_context [OF frames_load(3)] still_context [OF still_load(3)] assms(1,3)]) (rule assms(2))
  show "cw_temporary_paths w' = cw_temporary_paths w" "cw_linked_targets w' = cw_linked_targets w"
    using frames_ca [OF frames_context [OF frames_load(3)] assms(1)] by simp_all
  fix x
  assume "r = Inr x"
  with assms(1) have run: "managed_ca_load K lib c k w = (Inr x, w')" by (auto elim: sys_contextE)
  from managed_ca_load_ok [OF run assms(2)] stillD [OF still_load(3) run] assms(2)
  show "pair_valid lib (w_fs w') c k" by simp
qed

text \<open>A step of the construction, with what holds when it succeeds.\<close>

lemma ca_then:
  assumes "\<And>w r w'. m w = (r, w') \<Longrightarrow> P w \<Longrightarrow> ca_inv fs0 w' \<and> (\<forall>x. r = Inr x \<longrightarrow> R x w')"
    "\<And>x. triple (R x) (k x) Q" "\<And>e w. ca_inv fs0 w \<Longrightarrow> Q (Inl e) w"
  shows "triple P (sys_then m k) Q"
proof (rule triple_then [where R = "\<lambda>r w. ca_inv fs0 w \<and> (\<forall>x. r = Inr x \<longrightarrow> R x w)"])
  show "triple P m (\<lambda>r w. ca_inv fs0 w \<and> (\<forall>x. r = Inr x \<longrightarrow> R x w))" by (rule tripleI) (rule assms(1))
  show "triple (\<lambda>w. ca_inv fs0 w \<and> (\<forall>y. Inr x = Inr y \<longrightarrow> R y w)) (k x) Q" for x
    by (rule triple_weaken [OF assms(2)]) simp_all
qed (simp add: assms(3))

lemma initialize_pair_inv:
  assumes "\<And>t. quiet K t"
    "target_parent fs0 K (ca_certificate config) pc" "file_name (ca_certificate config) = Some nc"
    "target_parent fs0 K (ca_private_key config) pk" "file_name (ca_private_key config) = Some nk"
  shows "triple (\<lambda>w. ca_inv fs0 w \<and> cw_linked_targets w = []) (initialize_pair K lib config) (\<lambda>r w. ca_inv fs0 w \<and> (r = Inr () \<longrightarrow>
    pair_valid lib (w_fs w) (path_loc K (ca_certificate config)) (path_loc K (ca_private_key config)) \<and>
    map lt_target (cw_linked_targets w) = [path_loc K (ca_private_key config), path_loc K (ca_certificate config)]))"
    (is "triple _ _ ?Q")
proof -
  let ?c = "path_loc K (ca_certificate config)" and ?k = "path_loc K (ca_private_key config)"
  let ?S = "\<lambda>temps links w. ca_inv fs0 w \<and> temps \<subseteq> set (cw_temporary_paths w) \<and> map lt_target (cw_linked_targets w) = links"
  have loaded: "triple (?S {} [?k, ?c])
      (sys_then (sys_context g (managed_ca_load K lib ?c ?k)) (\<lambda>_. sys_return ())) ?Q" for g
    by (rule ca_then [where R = "\<lambda>_. ?Q (Inr ())", OF _ triple_return [of ?Q]])
      (fastforce dest!: load_step [OF _ assms(1)] simp: ca_step_def, simp)
  have certificate: "triple (?S {c} [?k]) (sys_then (install_without_overwrite K c (ca_certificate config) l) (\<lambda>_.
      sys_then (sys_context g (managed_ca_load K lib ?c ?k)) (\<lambda>_. sys_return ()))) ?Q" for c l g
    by (rule ca_then [where R = "\<lambda>_. ?S {} [?k, ?c]", OF _ loaded])
      (fastforce dest!: install_inv [OF _ assms(1) _ assms(2,3)] simp: ca_step_def, simp)
  have installed: "triple (?S {k, c} []) (sys_then (install_without_overwrite K k (ca_private_key config) l') (\<lambda>_.
      sys_then (install_without_overwrite K c (ca_certificate config) l) (\<lambda>_.
      sys_then (sys_context g (managed_ca_load K lib ?c ?k)) (\<lambda>_. sys_return ())))) ?Q" for k c l l' g
    by (rule ca_then [where R = "\<lambda>_. ?S {c} [?k]", OF _ certificate])
      (fastforce dest!: install_inv [OF _ assms(1) _ assms(4,5)] simp: ca_step_def, simp)
  have staged: "triple (?S {k, c} []) (sys_then (sys_context g' (managed_ca_load K lib c k)) (\<lambda>_.
      sys_then (install_without_overwrite K k (ca_private_key config) l') (\<lambda>_.
      sys_then (install_without_overwrite K c (ca_certificate config) l) (\<lambda>_.
      sys_then (sys_context g (managed_ca_load K lib ?c ?k)) (\<lambda>_. sys_return ()))))) ?Q" for k c l l' g g'
    by (rule ca_then [where R = "\<lambda>_. ?S {k, c} []", OF _ installed])
      (fastforce dest!: load_step [OF _ assms(1)] simp: ca_step_def, simp)
  show ?thesis
    unfolding initialize_pair_def write_temporary_file_def
  proof (rule ca_then [where R = "\<lambda>_. ?S {} []"], goal_cases)
    case (2 pair)
    obtain k c where pair: "pair = (k, c)" by (cases pair)
    show ?case
      unfolding pair prod.case
      by (rule ca_then [where R = "\<lambda>k. ?S {k} []"], fastforce dest!: temporary_attempts_inv [OF _ assms(1) _ assms(4)] simp: ca_step_def,
          rule ca_then [OF _ staged], fastforce dest!: temporary_attempts_inv [OF _ assms(1) _ assms(2)] simp: ca_step_def) simp_all
  qed (auto simp: sys_result_def)
qed

text \<open>
  Cleanup without a reported error removes what was recorded. A fault of the kernel is never taken
  for a missing file.
\<close>

definition settled :: "unix_fs \<Rightarrow> location \<Rightarrow> bool" where
  "settled fs0 loc \<longleftrightarrow> (\<exists>p n. locate_parent fs0 loc = Inr (p, n) \<and> fs_node fs0 p \<noteq> None \<and> dir_lookup fs0 p n = Inl ENOENT)"

definition identified :: "unix_fs \<Rightarrow> (file_id \<times> string \<Rightarrow> file_id option) \<Rightarrow> linked_target \<Rightarrow> bool" where
  "identified fs0 M l \<longleftrightarrow> (\<forall>k i. locate_parent fs0 (lt_target l) = Inr k \<and> M k = Some i \<longrightarrow> i = lt_identity l)"

lemma identified_le: "identified fs0 M l \<Longrightarrow> M' \<subseteq>\<^sub>m M \<Longrightarrow> identified fs0 M' l"
  by (auto simp: identified_def map_le_def dom_def)

definition without :: "unix_fs \<Rightarrow> (file_id \<times> string \<Rightarrow> file_id option) \<Rightarrow> location set \<Rightarrow> file_id \<times> string \<Rightarrow> file_id option" where
  "without fs0 M locs = (\<lambda>k. if Inr k \<in> locate_parent fs0 ` locs then None else M k)"

definition cleaned :: "unix_fs \<Rightarrow> (file_id \<times> string \<Rightarrow> file_id option) \<Rightarrow> unix_fs \<Rightarrow> location set \<Rightarrow> (location \<times> io_error) list \<Rightarrow> bool" where
  "cleaned fs0 M fs locs errors \<longleftrightarrow>
     (\<exists>M'. overlay fs0 fs M' \<and> M' \<subseteq>\<^sub>m M \<and> (errors = [] \<longrightarrow> M' = without fs0 M locs))"

lemma without_simps:
  "without fs0 M {} = M" "without fs0 (without fs0 M A) B = without fs0 M (A \<union> B)"
  "without fs0 M A \<subseteq>\<^sub>m M"
  by (auto simp: without_def map_le_def fun_eq_iff split: if_splits)

lemma cleaned_refl: "overlay fs0 fs M \<Longrightarrow> errors = [] \<longrightarrow> without fs0 M locs = M \<Longrightarrow> cleaned fs0 M fs locs errors"
  by (auto simp: cleaned_def)

lemma cleaned_without: "overlay fs0 fs (without fs0 M locs) \<Longrightarrow> cleaned fs0 M fs locs errors"
  using without_simps(3) by (auto simp: cleaned_def)

lemma cleaned_trans:
  assumes "cleaned fs0 M fs1 A errors" "\<And>M'. overlay fs0 fs1 M' \<Longrightarrow> M' \<subseteq>\<^sub>m M \<Longrightarrow> cleaned fs0 M' fs2 B rest"
  shows "cleaned fs0 M fs2 (A \<union> B) (errors @ rest)"
proof -
  obtain M1 where M1: "overlay fs0 fs1 M1" "M1 \<subseteq>\<^sub>m M" "errors = [] \<longrightarrow> M1 = without fs0 M A"
    using assms(1) by (auto simp: cleaned_def)
  from assms(2) [OF this(1,2)] obtain M2 where "overlay fs0 fs2 M2" "M2 \<subseteq>\<^sub>m M1" "rest = [] \<longrightarrow> M2 = without fs0 M1 B"
    by (auto simp: cleaned_def)
  with M1 show ?thesis unfolding cleaned_def by (intro exI [of _ M2]) (auto simp: without_simps(2) intro: map_le_trans)
qed

lemma io_kind_not_found: "io_kind_of (Os e) = NotFoundKind \<longleftrightarrow> e = ENOENT"
  by (cases e) simp_all

lemma remove_reporting_ok:
  assumes "remove_reporting K loc w = (Inr errors, w')" "\<And>t. quiet K t" "\<And>t. k_fault K t \<noteq> Some ENOENT"
    "overlay fs0 (w_fs w) M" "settled fs0 loc"
  shows "cleaned fs0 M (w_fs w') {loc} errors"
proof -
  obtain p n where loc: "locate_parent fs0 loc = Inr (p, n)" "fs_node fs0 p \<noteq> None" "dir_lookup fs0 p n = Inl ENOENT"
    using assms(5) by (auto simp: settled_def)
  have key: "without fs0 M {loc} = M((p, n) := None)" by (auto simp: without_def loc(1))
  note par = overlay_parent [OF assms(4) loc(1)]
  have look: "dir_lookup (w_fs w) p n = (case M (p, n) of Some i \<Rightarrow> Inr i | None \<Rightarrow> Inl ENOENT)"
    using overlay_lookup [OF assms(4) loc(2), of n] loc(3) by (simp split: option.split)
  from assms(1) obtain q where q: "sys_unlink K loc w = (q, w')" "\<forall>e. q = Inl e \<and> errors = [] \<longrightarrow> io_kind_of e = NotFoundKind"
    unfolding remove_reporting_def by (auto elim!: sys_matchE split: sum.splits if_splits)
  show ?thesis
    using q(1) unfolding sys_unlink_def
  proof (rule syscall_quietE [OF _ assms(2)])
    fix e
    assume e: "q = Inl (Os e)" "w_fs w' = w_fs w"
      "k_fault K (w_tick w) = Some e \<or> k_fault K (w_tick w) = None \<and> unlink_call loc (w_tick w) (w_fs w) = Inl e"
    have "without fs0 M {loc} = M" if "errors = []"
    proof (rule ccontr)
      assume "without fs0 M {loc} \<noteq> M"
      then obtain i where i: "M (p, n) = Some i" unfolding key by (cases "M (p, n)") (auto simp: fun_upd_idem)
      have "unlink_call loc (w_tick w) (w_fs w) = Inl ENOENT"
        using e q(2) assms(3) that by (auto simp: io_kind_not_found)
      with overlay_new(4) [OF assms(4) i] look i par show False by (auto simp: unlink_call_def node_at_def)
    qed
    with assms(4) e(2) show ?thesis by (simp add: cleaned_refl)
  next
    fix i ev
    assume "unlink_call loc (w_tick w) (w_fs w) = Inr (i, w_fs w', ev)"
    with par have "dir_lookup (w_fs w) p n = Inr i" "w_fs w' = remove_entry (w_fs w) p n" by (auto simp: result_simps)
    with look overlay_remove [OF assms(4), of p n i] show ?thesis
      by (intro cleaned_without) (simp add: key split: option.splits)
  qed
qed

lemma remove_paths_ok:
  assumes "remove_paths K locs w = (Inr errors :: 'e + (location \<times> io_error) list, w')" "\<And>t. quiet K t"
    "\<And>t. k_fault K t \<noteq> Some ENOENT" "overlay fs0 (w_fs w) M" "\<forall>loc \<in> set locs. settled fs0 loc"
  shows "cleaned fs0 M (w_fs w') (set locs) errors"
  using assms(1,4,5)
proof (induction locs arbitrary: w M errors)
  case Nil
  then show ?case by (simp add: cleaned_refl without_simps)
next
  case (Cons loc locs)
  from Cons.prems(1) obtain w1 es rest where run: "remove_reporting K loc w = (Inr es :: 'e + (location \<times> io_error) list, w1)"
    "remove_paths K locs w1 = (Inr rest :: 'e + (location \<times> io_error) list, w')" "errors = es @ rest"
    by (auto elim!: sys_thenE)
  have "cleaned fs0 M (w_fs w1) {loc} es"
    using remove_reporting_ok [OF run(1) assms(2,3) Cons.prems(2)] Cons.prems(3) by simp
  from cleaned_trans [OF this Cons.IH [OF run(2)]] Cons.prems(3) run(3) show ?case by simp
qed

lemma file_has_identity_there:
  assumes "file_has_identity K loc i w = (q, w')" "\<And>t. quiet K t" "\<And>t. k_fault K t \<noteq> Some ENOENT"
    "overlay fs0 (w_fs w) M" "locate_parent fs0 loc = Inr (p, n)" "fs_node fs0 p \<noteq> None" "M (p, n) = Some i"
  shows "(\<exists>e. q = Inl e) \<or> q = Inr True"
proof -
  from overlay_new(4) [OF assms(4,7)] obtain nd where nd: "fs_node (w_fs w) i = Some nd" "nd_kind nd = RegularFile" by blast
  have "dir_lookup (w_fs w) p n = Inr i" using overlay_lookup [OF assms(4,6), of n] assms(7) by simp
  from locate_entry_node(1) [OF overlay_parent [OF assms(4,5)] this nd(1)]
  have at: "stat_call loc False (w_fs w) = Inr (stat_of i nd)" by (simp add: stat_call_def node_at_def nd)
  from assms(1) show ?thesis
    unfolding file_has_identity_def
  proof (rule sys_matchE)
    fix s v
    assume "sys_stat K loc False w = (s, v)" and
      s: "(case s of Inl e \<Rightarrow> if io_kind_of e = NotFoundKind then sys_return False else sys_fail e
        | Inr md \<Rightarrow> sys_return (md_kind md = RegularFile \<and> md_id md = i)) v = (q, w')"
    from this(1) have "(\<exists>e. s = Inl (Os e) \<and> e \<noteq> ENOENT) \<or> s = Inr (stat_of i nd)"
      unfolding sys_stat_def
      by (rule syscall_quietE [OF _ assms(2)]) (use assms(3) at in \<open>auto simp: inspect_def\<close>)
    with s show ?thesis by (auto simp: io_kind_not_found nd)
  qed
qed

lemma remove_linked_ok:
  assumes "remove_linked K l w = (Inr errors :: 'e + (location \<times> io_error) list, w')" "\<And>t. quiet K t"
    "\<And>t. k_fault K t \<noteq> Some ENOENT" "overlay fs0 (w_fs w) M" "settled fs0 (lt_target l)"
    "identified fs0 M l"
  shows "cleaned fs0 M (w_fs w') {lt_target l} errors"
proof -
  obtain p n where loc: "locate_parent fs0 (lt_target l) = Inr (p, n)" "fs_node fs0 p \<noteq> None"
    using assms(5) by (auto simp: settled_def)
  from assms(1) obtain q w1 where q: "file_has_identity K (lt_target l) (lt_identity l) w = (q, w1)"
    and rest: "(case q of Inl e \<Rightarrow> sys_return [(lt_target l, e)]
       | Inr same \<Rightarrow> if same then remove_reporting K (lt_target l) else sys_return []) w1 =
       (Inr errors :: 'e + (location \<times> io_error) list, w')"
    unfolding remove_linked_def by (rule sys_matchE)
  have w1: "w_fs w1 = w_fs w"
    using q unfolding file_has_identity_def
    by (rule stillD [OF still_match [OF still_calls(1) [OF assms(2)]], rotated]) (simp split: sum.split)
  consider (failed) "w' = w1" "errors \<noteq> []" | (other) "w' = w1" "q = Inr False"
    | (same) "remove_reporting K (lt_target l) w1 = (Inr errors :: 'e + (location \<times> io_error) list, w')"
    using rest by (auto split: sum.splits if_splits)
  then show ?thesis
  proof cases
    case failed
    with assms(4) w1 show ?thesis by (simp add: cleaned_refl)
  next
    case other
    have "M (p, n) = None"
    proof (rule ccontr)
      assume "M (p, n) \<noteq> None"
      with assms(6) loc(1) have "M (p, n) = Some (lt_identity l)" by (auto simp: identified_def)
      from file_has_identity_there [OF q assms(2,3,4) loc this] other show False by simp
    qed
    then have "without fs0 M {lt_target l} = M" by (auto simp: without_def loc(1))
    with assms(4) w1 other show ?thesis by (simp add: cleaned_refl)
  next
    case same
    from remove_reporting_ok [OF this assms(2,3) _ assms(5)] assms(4) w1 show ?thesis by simp
  qed
qed

lemma remove_linked_list_ok:
  assumes "remove_linked_list K links w = (Inr errors :: 'e + (location \<times> io_error) list, w')" "\<And>t. quiet K t"
    "\<And>t. k_fault K t \<noteq> Some ENOENT" "overlay fs0 (w_fs w) M" "\<forall>l \<in> set links. settled fs0 (lt_target l)"
    "\<forall>l \<in> set links. identified fs0 M l"
  shows "cleaned fs0 M (w_fs w') (lt_target ` set links) errors"
  using assms(1,4-)
proof (induction links arbitrary: w M errors)
  case Nil
  then show ?case by (simp add: cleaned_refl without_simps)
next
  case (Cons l links)
  from Cons.prems(1) obtain w1 es rest where run: "remove_linked K l w = (Inr es :: 'e + (location \<times> io_error) list, w1)"
    "remove_linked_list K links w1 = (Inr rest :: 'e + (location \<times> io_error) list, w')" "errors = es @ rest"
    by (auto elim!: sys_thenE)
  have "cleaned fs0 M (w_fs w1) {lt_target l} es"
    by (rule remove_linked_ok [OF run(1) assms(2,3) Cons.prems(2)]) (use Cons.prems(3,4) in auto)
  moreover have "cleaned fs0 M' (w_fs w') (lt_target ` set links) rest" if "overlay fs0 (w_fs w1) M'" "M' \<subseteq>\<^sub>m M" for M'
  proof (rule Cons.IH [OF run(2) that(1)])
    show "\<forall>l \<in> set links. identified fs0 M' l"
      using Cons.prems(4) that(2) by (auto intro: identified_le)
  qed (use Cons.prems(3) in simp)
  ultimately show ?case using cleaned_trans run(3) by fastforce
qed

text \<open>What the invariant gives to the cleanup.\<close>

lemma ca_invE:
  assumes "ca_inv fs0 w"
  obtains M where "overlay fs0 (w_fs w) M" "\<forall>loc \<in> set (cw_temporary_paths w). settled fs0 loc"
    "\<forall>l \<in> set (rev (cw_linked_targets w)). settled fs0 (lt_target l)"
    "\<forall>l \<in> set (rev (cw_linked_targets w)). identified fs0 M l"
    "without fs0 M (lt_target ` set (cw_linked_targets w) \<union> set (cw_temporary_paths w)) = Map.empty"
    "tracked fs0 M (cw_temporary_paths w) (cw_linked_targets w)"
proof -
  let ?locs = "set (cw_temporary_paths w) \<union> lt_target ` set (cw_linked_targets w)"
  obtain M where M: "overlay fs0 (w_fs w) M" "tracked fs0 M (cw_temporary_paths w) (cw_linked_targets w)"
    using assms by (auto simp: ca_inv_def)
  then have keys: "Inr ` dom M = locate_parent fs0 ` ?locs" by (simp add: tracked_def)
  have settled: "settled fs0 loc" if "loc \<in> ?locs" for loc
  proof -
    have "locate_parent fs0 loc \<in> Inr ` dom M" using that keys by blast
    then obtain p n i where "locate_parent fs0 loc = Inr (p, n)" "M (p, n) = Some i" by auto
    with overlay_new [OF M(1) this(2)] show ?thesis by (auto simp: settled_def)
  qed
  have "without fs0 M (lt_target ` set (cw_linked_targets w) \<union> set (cw_temporary_paths w)) k = None" for k
  proof (cases "M k")
    case (Some i)
    then have "Inr k \<in> locate_parent fs0 ` ?locs" using keys by blast
    then show ?thesis by (simp add: without_def Un_commute)
  qed (simp add: without_def)
  then have "without fs0 M (lt_target ` set (cw_linked_targets w) \<union> set (cw_temporary_paths w)) = Map.empty" by auto
  moreover have "\<forall>l \<in> set (rev (cw_linked_targets w)). identified fs0 M l"
    using M(2) by (auto simp: tracked_def identified_def)
  ultimately show ?thesis using that M settled by auto
qed

lemma remove_reporting_total [simp]: "remove_reporting K loc w \<noteq> (Inl e, w')"
  by (auto simp: remove_reporting_def elim!: sys_matchE split: sum.splits if_splits)

lemma remove_linked_total [simp]: "remove_linked K l w \<noteq> (Inl e, w')"
  by (auto simp: remove_linked_def elim!: sys_matchE split: sum.splits if_splits)

lemma remove_paths_total [simp]: "remove_paths K locs w \<noteq> (Inl e, w')"
  by (induction locs arbitrary: w) (auto elim!: sys_thenE)

lemma remove_linked_list_total [simp]: "remove_linked_list K links w \<noteq> (Inl e, w')"
  by (induction links arbitrary: w) (auto elim!: sys_thenE)

lemma finish_failed:
  assumes "finish_initialize K (Inl e) w = (r, w')" "\<And>t. quiet K t" "\<And>t. k_fault K t \<noteq> Some ENOENT" "ca_inv fs0 w"
  shows "\<exists>M errors. overlay fs0 (w_fs w') M \<and> r = Inl (if errors = [] then e else With_cleanup e errors) \<and>
    (errors = [] \<longrightarrow> M = Map.empty)"
proof -
  obtain M where M: "overlay fs0 (w_fs w) M" "\<forall>loc \<in> set (cw_temporary_paths w). settled fs0 loc"
    "\<forall>l \<in> set (rev (cw_linked_targets w)). settled fs0 (lt_target l)"
    "\<forall>l \<in> set (rev (cw_linked_targets w)). identified fs0 M l"
    "without fs0 M (lt_target ` set (cw_linked_targets w) \<union> set (cw_temporary_paths w)) = Map.empty"
    using assms(4) by (rule ca_invE)
  from assms(1) obtain es rest w1 where run:
    "remove_linked_list K (rev (cw_linked_targets w)) w = (Inr es :: failure + (location \<times> io_error) list, w1)"
    "remove_paths K (cw_temporary_paths w) w1 = (Inr rest :: failure + (location \<times> io_error) list, w')"
    "r = Inl (if es @ rest = [] then e else With_cleanup e (es @ rest))"
    by (auto simp: finish_initialize_def remove_linked_targets_def elim!: sys_thenE split: if_splits)
  have "cleaned fs0 M (w_fs w1) (lt_target ` set (cw_linked_targets w)) es"
    using remove_linked_list_ok [OF run(1) assms(2,3) M(1,3,4)] by simp
  from cleaned_trans [OF this remove_paths_ok [OF run(2) assms(2,3) _ M(2)]] M(5)
  show ?thesis unfolding cleaned_def run(3) by auto
qed

text \<open>Removing entries keeps the files themselves, so a valid pair stays valid.\<close>

lemma remove_paths_files:
  assumes "remove_paths K locs w = (r :: 'e + (location \<times> io_error) list, w')" "\<And>t. quiet K t"
    "fs_node (w_fs w) i = Some nd" "nd_kind nd = RegularFile"
  shows "fs_node (w_fs w') i = Some nd"
  using assms(1,3)
proof (induction locs arbitrary: w r)
  case (Cons loc locs)
  have "fs_node (w_fs w1) i = Some nd" if "remove_reporting K loc w = (q :: 'e + (location \<times> io_error) list, w1)" for q w1
  proof -
    from that obtain q' where "sys_unlink K loc w = (q', w1)"
      unfolding remove_reporting_def by (auto elim!: sys_matchE split: sum.splits if_splits)
    then show ?thesis
      unfolding sys_unlink_def
      by (rule syscall_quietE [OF _ assms(2)])
        (use Cons.prems(2) assms(4) in \<open>auto simp: result_simps remove_entry_def update_node_def dir_lookup_def split: if_splits\<close>)
  qed
  with Cons show ?case by (auto elim!: sys_thenE)
qed simp

lemma tracked_target:
  assumes "overlay fs0 fs M" "tracked fs0 M temps links" "l \<in> set links"
    "overlay fs0 fs' (without fs0 M (set temps))" "\<And>i nd. fs_node fs i = Some nd \<Longrightarrow> nd_kind nd = RegularFile \<Longrightarrow> fs_node fs' i = Some nd"
  shows "\<exists>i nd. fs_node fs i = Some nd \<and> fs_node fs' i = Some nd \<and> nd_kind nd = RegularFile \<and>
    locate fs (lt_target l) f = Inr i \<and> locate fs' (lt_target l) f = Inr i"
proof -
  obtain p n i where k: "locate_parent fs0 (lt_target l) = Inr (p, n)" "M (p, n) = Some i"
    "locate_parent fs0 (lt_target l) \<notin> locate_parent fs0 ` set temps"
    using assms(2,3) by (auto simp: tracked_def)
  from overlay_new [OF assms(1) k(2)] obtain nd where
    nd: "fs_node fs i = Some nd" "nd_kind nd = RegularFile" "fs_node fs0 p \<noteq> None" by auto
  have k': "without fs0 M (set temps) (p, n) = Some i" using k by (simp add: without_def)
  have look: "dir_lookup fs p n = Inr i" "dir_lookup fs' p n = Inr i"
    using overlay_lookup [OF assms(1) nd(3), of n] overlay_lookup [OF assms(4) nd(3), of n] k(2) k' by simp_all
  note nd' = assms(5) [OF nd(1,2)]
  have "locate fs (lt_target l) f = Inr i" "locate fs' (lt_target l) f = Inr i"
    using locate_entry_node [OF overlay_parent [OF assms(1) k(1)] look(1) nd(1)]
      locate_entry_node [OF overlay_parent [OF assms(4) k(1)] look(2) nd'] nd(2) by (cases f; simp)+
  with nd nd' show ?thesis by blast
qed

lemma pair_valid_kept:
  assumes "pair_valid lib fs (lt_target c) (lt_target k)" "overlay fs0 fs M" "tracked fs0 M temps links"
    "c \<in> set links" "k \<in> set links" "overlay fs0 fs' (without fs0 M (set temps))"
    "\<And>i nd. fs_node fs i = Some nd \<Longrightarrow> nd_kind nd = RegularFile \<Longrightarrow> fs_node fs' i = Some nd"
  shows "pair_valid lib fs' (lt_target c) (lt_target k)"
  using tracked_target [OF assms(2,3,4,6,7), where f = True] tracked_target [OF assms(2,3,5,6,7), where f = False] assms(1)
  unfolding pair_valid_def by (elim exE conjE) simp

lemma tracked_dom:
  assumes "tracked fs0 M temps links"
  shows "Inr ` dom (without fs0 M (set temps)) = locate_parent fs0 ` lt_target ` set links"
proof (intro equalityI subsetI)
  fix x :: "errno + file_id \<times> string"
  assume "x \<in> Inr ` dom (without fs0 M (set temps))"
  then have "x \<in> Inr ` dom M" "x \<notin> locate_parent fs0 ` set temps" by (auto simp: without_def split: if_splits)
  with assms show "x \<in> locate_parent fs0 ` lt_target ` set links" by (auto simp: tracked_def)
next
  fix x :: "errno + file_id \<times> string"
  assume "x \<in> locate_parent fs0 ` lt_target ` set links"
  then obtain l where "l \<in> set links" "x = locate_parent fs0 (lt_target l)" by auto
  moreover from this assms obtain k where "x = Inr k" "M k = Some (lt_identity l)" "x \<notin> locate_parent fs0 ` set temps"
    by (auto simp: tracked_def)
  ultimately show "x \<in> Inr ` dom (without fs0 M (set temps))" by (auto simp: without_def intro!: image_eqI [of _ _ k])
qed

lemma finish_succeeded:
  assumes "finish_initialize K (Inr ()) w = (r, w')" "\<And>t. quiet K t" "\<And>t. k_fault K t \<noteq> Some ENOENT" "ca_inv fs0 w"
    "pair_valid lib (w_fs w) c k" "map lt_target (cw_linked_targets w) = [k, c]"
  shows "(\<exists>M. overlay fs0 (w_fs w') M \<and> (r = Inr () \<longrightarrow> Inr ` dom M = {locate_parent fs0 c, locate_parent fs0 k})) \<and>
    (r = Inr () \<longrightarrow> pair_valid lib (w_fs w') c k) \<and> (r \<noteq> Inr () \<longrightarrow> (\<exists>e errors. r = Inl (With_cleanup e errors)))"
proof -
  obtain M where M: "overlay fs0 (w_fs w) M" "\<forall>loc \<in> set (cw_temporary_paths w). settled fs0 loc"
    "\<forall>l \<in> set (rev (cw_linked_targets w)). settled fs0 (lt_target l)"
    "\<forall>l \<in> set (rev (cw_linked_targets w)). identified fs0 M l"
    "tracked fs0 M (cw_temporary_paths w) (cw_linked_targets w)"
    using assms(4) by (rule ca_invE)
  from assms(1) obtain es w1 where run: "remove_paths K (cw_temporary_paths w) w = (Inr es :: failure + (location \<times> io_error) list, w1)"
    and rest: "(if es = [] then sys_return ()
      else sys_then (remove_linked_targets K (cw_linked_targets w)) (\<lambda>rollback_errors.
        sys_fail (With_cleanup (Bail ''CA validation succeeded, but temporary files could not be removed'') (es @ rollback_errors)))) w1 = (r, w')"
    by (auto simp: finish_initialize_def elim!: sys_thenE)
  note one = remove_paths_ok [OF run assms(2,3) M(1,2)]
  show ?thesis
  proof (cases "es = []")
    case True
    with one have o: "overlay fs0 (w_fs w1) (without fs0 M (set (cw_temporary_paths w)))" by (auto simp: cleaned_def)
    have links: "lt_target ` set (cw_linked_targets w) = {c, k}" using assms(6) by (metis image_set list.simps(15) list.set(1) insert_commute)
    have "Inr ` dom (without fs0 M (set (cw_temporary_paths w))) = {locate_parent fs0 c, locate_parent fs0 k}"
      unfolding tracked_dom [OF M(5)] links by simp
    moreover have "pair_valid lib (w_fs w1) c k"
    proof -
      obtain lc lk where l: "lc \<in> set (cw_linked_targets w)" "lk \<in> set (cw_linked_targets w)" "c = lt_target lc" "k = lt_target lk"
        using links by blast
      show ?thesis
        using assms(5) pair_valid_kept [OF _ M(1,5) l(1,2) o remove_paths_files [OF run assms(2)]] by (simp add: l(3,4))
    qed
    ultimately show ?thesis using True rest o by auto
  next
    case False
    then obtain rs where "remove_linked_list K (rev (cw_linked_targets w)) w1 = (Inr rs :: failure + (location \<times> io_error) list, w')"
      "r = Inl (With_cleanup (Bail ''CA validation succeeded, but temporary files could not be removed'') (es @ rs))"
      using rest by (auto simp: remove_linked_targets_def elim!: sys_thenE)
    moreover obtain M1 where "overlay fs0 (w_fs w1) M1" "M1 \<subseteq>\<^sub>m M" using one by (auto simp: cleaned_def)
    ultimately show ?thesis
      using remove_linked_list_ok [OF _ assms(2,3) _ M(3)] M(4) identified_le by (fastforce simp: cleaned_def)
  qed
qed

lemma check_targets_ok:
  assumes "check_targets K config w = (Inr (), w')" "\<And>t. quiet K t"
  shows "\<exists>pc nc pk nk. target_parent (w_fs w) K (ca_certificate config) pc \<and> file_name (ca_certificate config) = Some nc \<and>
    target_parent (w_fs w) K (ca_private_key config) pk \<and> file_name (ca_private_key config) = Some nk"
  using assms(1) unfolding check_targets_def
  by (auto elim!: sys_thenE dest!: validate_target_parent_ok [OF _ assms(2)] simp: sys_result_def ok_or_Inr_iff)

text \<open>
  C15. When \<open>ca-init\<close> fails and reports no failed cleanup, nothing is left behind; when it
  succeeds, exactly the two targets are new, both names were free, and the pair passes every check
  of a load. Whatever happens, no file that was there before is replaced or removed: the file
  system is the one before with some new files laid over it. No other process acts meanwhile, and
  the kernel reports a missing file only for one that is missing; any other fault may occur at any
  call.
\<close>

theorem ca_initialize_all_or_nothing:
  assumes "\<forall>t. quiet K t" "\<forall>t. k_fault K t \<noteq> Some ENOENT" "initialize K lib config w = (r, w')"
  shows "\<exists>M. overlay (w_fs w) (w_fs w') M \<and>
    (case r of
       Inr _ \<Rightarrow>
         pair_valid lib (w_fs w') (path_loc K (ca_certificate config)) (path_loc K (ca_private_key config)) \<and>
         Inr ` dom M = {locate_parent (w_fs w) (path_loc K (ca_certificate config)),
           locate_parent (w_fs w) (path_loc K (ca_private_key config))}
     | Inl (With_cleanup _ _) \<Rightarrow> True
     | Inl _ \<Rightarrow> M = Map.empty)"
proof -
  have quiet: "\<And>t. quiet K t" and fault: "\<And>t. k_fault K t \<noteq> Some ENOENT" using assms(1,2) by auto
  note still = still_check_targets [OF quiet, of config]
  from assms(3) show ?thesis
    unfolding initialize_def
  proof (rule sys_thenE)
    fix e
    assume "check_targets K config w = (Inl e, w')" "r = Inl e"
    with stillD [OF still(1) this(1)] show ?thesis
      by (intro exI [of _ Map.empty]) (simp add: overlay_refl split: failure.split)
  next
    fix x w1
    assume check: "check_targets K config w = (Inr x, w1)" and
      run: "sys_then fresh_vectors (\<lambda>_. sys_match (initialize_pair K lib config) (finish_initialize K)) w1 = (r, w')"
    let ?w = "w1\<lparr>cw_temporary_paths := [], cw_linked_targets := []\<rparr>"
    from run obtain q w2 where pair: "initialize_pair K lib config ?w = (q, w2)" and fin: "finish_initialize K q w2 = (r, w')"
      by (auto simp: fresh_vectors_def elim!: sys_thenE sys_matchE)
    have fs: "w_fs w1 = w_fs w" using stillD [OF still(1) check] .
    have inv: "ca_inv (w_fs w) ?w" using overlay_refl by (auto simp: ca_inv_def tracked_def fs)
    from check_targets_ok [OF check [simplified] quiet] obtain pc nc pk nk where
      "target_parent (w_fs w) K (ca_certificate config) pc" "file_name (ca_certificate config) = Some nc"
      "target_parent (w_fs w) K (ca_private_key config) pk" "file_name (ca_private_key config) = Some nk" by blast
    note made = tripleD [OF initialize_pair_inv [OF quiet this] pair]
    show ?thesis
    proof (cases q)
      case (Inl e)
      from made inv have "ca_inv (w_fs w) w2" by simp
      from finish_failed [OF fin [unfolded Inl] quiet fault this] obtain M errors where
        "overlay (w_fs w) (w_fs w') M" "r = Inl (if errors = [] then e else With_cleanup e errors)" "errors = [] \<longrightarrow> M = Map.empty"
        by blast
      then show ?thesis by (intro exI [of _ M]) (auto split: failure.split)
    next
      case (Inr u)
      with made inv have "ca_inv (w_fs w) w2"
        "pair_valid lib (w_fs w2) (path_loc K (ca_certificate config)) (path_loc K (ca_private_key config))"
        "map lt_target (cw_linked_targets w2) = [path_loc K (ca_private_key config), path_loc K (ca_certificate config)]" by auto
      from finish_succeeded [OF fin [unfolded Inr, simplified] quiet fault this] show ?thesis
        by (cases r) auto
    qed
  qed
qed

text \<open>For evaluation, an attempt is made once there is a world to make it in.\<close>

lemma temporary_attempts_run [code]:
  "temporary_attempts 0 K lib target contents mode label w =
     (Inl (Bail (''could not allocate a temporary '' @ label @ '' beside '' @ target)), w)"
  "temporary_attempts (Suc n) K lib target contents mode label w =
     sys_then next_sequence (\<lambda>sequence.
       let parent = parent_loc K target; temporary = (fst parent, snd parent @ [temporary_name lib sequence]) in
       sys_match (sys_create_new K temporary mode) (\<lambda>r. case r of
         Inr file \<Rightarrow> fill_temporary_file K temporary contents mode label file
       | Inl e \<Rightarrow>
           if io_kind_of e = AlreadyExistsKind then temporary_attempts n K lib target contents mode label
           else sys_fail (Context (''could not create temporary '' @ label @ '' beside '' @ target) e))) w"
  by (simp_all add: sys_fail_def)

text \<open>An instance: a directory that holds one file.\<close>

definition example_ca_kernel :: kernel where
  "example_ca_kernel = \<lparr>k_env = \<lambda>t fs. fs, k_fault = \<lambda>t. None, k_ino = \<lambda>t. of_nat (t + 10), k_uid = 7,
     k_umask = 0x12, k_cwd = Fid 1 1, k_cwd_path = ''/''\<rparr>"

definition example_ca_node :: "file_id \<Rightarrow> node option" where
  "example_ca_node i =
     (if i = Fid 1 1 then Some \<lparr>nd_kind = Directory, nd_uid = 7, nd_mode = 0x1ED, nd_data = [],
        nd_entries = [(''.'', Fid 1 1), (''..'', Fid 1 1), (''old'', Fid 1 2)], nd_listening = False\<rparr>
      else if i = Fid 1 2 then Some \<lparr>nd_kind = RegularFile, nd_uid = 7, nd_mode = 0x180, nd_data = ''x'',
        nd_entries = [], nd_listening = False\<rparr>
      else None)"

definition example_ca_world :: ca_world where
  "example_ca_world = \<lparr>w_fs = \<lparr>fs_node = example_ca_node, fs_root = Fid 1 1\<rparr>, w_tick = 0, w_log = [],
     cw_sequence = 0, cw_temporary_paths = [], cw_linked_targets = []\<rparr>"

definition example_ca_config :: ca_config where
  "example_ca_config = \<lparr>ca_certificate = ''/ca.pem'', ca_private_key = ''/ca-key.pem''\<rparr>"

theorem ca_initialize_all_or_nothing_witness:
  "\<exists>w' M. initialize example_ca_kernel example_ca_lib example_ca_config example_ca_world = (Inr (), w') \<and>
     pair_valid example_ca_lib (w_fs w') (path_loc example_ca_kernel ''/ca.pem'') (path_loc example_ca_kernel ''/ca-key.pem'') \<and>
     overlay (w_fs example_ca_world) (w_fs w') M \<and>
     Inr ` dom M = {Inr (Fid 1 1, ''ca.pem'') :: errno + _, Inr (Fid 1 1, ''ca-key.pem'')}"
proof -
  let ?K = example_ca_kernel and ?w = example_ca_world
  obtain r w' where run: "initialize ?K example_ca_lib example_ca_config ?w = (r, w')" by fastforce
  have "fst (initialize ?K example_ca_lib example_ca_config ?w) = Inr ()" by code_simp
  with run have r: "r = Inr ()" by simp
  have "locate_parent (w_fs ?w) (path_loc ?K ''/ca.pem'') = Inr (Fid 1 1, ''ca.pem'')"
    "locate_parent (w_fs ?w) (path_loc ?K ''/ca-key.pem'') = Inr (Fid 1 1, ''ca-key.pem'')" by code_simp+
  then show ?thesis
    using ca_initialize_all_or_nothing [OF _ _ run] run
    by (auto simp: r quiet_def example_ca_kernel_def example_ca_config_def)
qed

end
