(* ===== verification/Ca_Export.thy ===== *)
theory Ca_Export
  imports Ca_Files
begin

text \<open>
  \<open>ca-export\<close> hands out the public certificate and nothing else: \<open>export_public_certificate\<close> of
  \<open>src/ca.rs\<close>, whatever fails and whatever other processes do.
\<close>

definition writes :: "fs_event \<Rightarrow> bool" where
  "writes ev \<longleftrightarrow> (case ev of Ev_Write _ _ \<Rightarrow> True | _ \<Rightarrow> False)"

text \<open>
  What an export adds to the log: no entry is removed, and each write is of a text that passes the
  checks of a public certificate, to a file that the export created at its output.
\<close>

definition export_events :: "'k ca_lib \<Rightarrow> location \<Rightarrow> (nat \<times> fs_event) list \<Rightarrow> (nat \<times> fs_event) set" where
  "export_events lib loc log = {(t, ev). \<not> is_removal ev \<and>
     (\<forall>i bytes. ev = Ev_Write i bytes \<longrightarrow> check_public_certificate lib bytes = Inr () \<and>
        (\<exists>t0 < t. (t0, Ev_Create loc i) \<in> set log))}"

lemma export_member [simp]: "\<not> is_removal ev \<Longrightarrow> \<not> writes ev \<Longrightarrow> (t, ev) \<in> export_events lib loc log"
  by (auto simp: export_events_def writes_def)

lemma logs_load: "logs (export_events lib loc log) (public_certificate_load K lib' path)"
  unfolding public_certificate_load_def
  by (auto intro!: logs_intros simp: writes_def)

lemma public_certificate_load_checked:
  "public_certificate_load K lib path w = (Inr pem, w') \<Longrightarrow> check_public_certificate lib pem = Inr ()"
  unfolding public_certificate_load_def
  by (auto elim!: sys_thenE sys_contextE simp: sys_result_def)

lemma create_logged:
  assumes "sys_create_new K loc mode w = (Inr i, w')"
  shows "(w_tick w, Ev_Create loc i) \<in> set (w_log w') \<and> w_tick w' = Suc (w_tick w)"
  using assms unfolding sys_create_new_def syscall_Inr by (auto dest: new_node_event)

lemma write_logged:
  assumes "sys_write K i bytes w = (Inr u, w')"
  shows "(w_tick w, Ev_Write i bytes) \<in> set (w_log w')"
  using assms unfolding sys_write_def sys_update_def syscall_Inr by (auto simp: result_simps)

lemma write_adds:
  assumes "sys_write K i bytes w = (q, w')" "(t0, Ev_Create loc i) \<in> set log" "t0 < w_tick w"
    and "check_public_certificate lib bytes = Inr ()"
  shows "adds (export_events lib loc log) w w'"
proof -
  have "adds {(t, ev). ev = Ev_Write i bytes \<and> w_tick w \<le> t} w w'"
    using assms(1) unfolding sys_write_def sys_update_def syscall_def
    by (auto simp: adds_def Let_def result_simps split: option.splits sum.splits)
  then show ?thesis
    by (rule adds_mono) (use assms(2-4) in \<open>auto simp: export_events_def intro: order_less_le_trans\<close>)
qed

text \<open>
  An export never removes or replaces a file. It writes only to a file that it has created, and
  only a text whose first PEM block is a valid certificate of an authority with nothing but white
  space after it; so the file of a private key, which that check refuses, is never
  copied. When it reports success, the certificate was written.
\<close>

theorem export_discloses_only_certificate:
  assumes "export_public_certificate K lib config output w = (r, w')"
  shows "adds (export_events lib (path_loc K output) (w_log w')) w w' \<and>
    (r = Inr () \<longrightarrow> (\<exists>t i pem. (t, Ev_Write i pem) \<in> set (w_log w') \<and> w_tick w \<le> t \<and>
       check_public_certificate lib pem = Inr ()))"
proof -
  let ?S = "\<lambda>log. export_events lib (path_loc K output) log" and ?loc = "path_loc K output"
  obtain l w1 where l: "public_certificate_load K lib (path_loc K (ca_certificate config)) w = (l, w1)"
    by (meson surj_pair)
  have a1: "adds (?S log) w w1" for log by (rule logs_adds [OF logs_load l])
  show ?thesis
  proof (cases l)
    case (Inl e)
    with assms l have "w' = w1" "r = Inl e" by (auto simp: export_public_certificate_def sys_then_def)
    with a1 show ?thesis by simp
  next
    case (Inr pem)
    note checked = public_certificate_load_checked [OF l [unfolded Inr]]
    obtain c w2 where c: "sys_create_new K ?loc 0x1A4 w1 = (c, w2)" by (meson surj_pair)
    have a2: "adds (?S log) w1 w2" for log
      by (rule logs_adds [where m = "sys_create_new K ?loc 0x1A4", OF _ c]) (simp add: writes_def)
    show ?thesis
    proof (cases c)
      case create_error: (Inl e)
      with assms l Inr c have "w' = w2" "r \<noteq> Inr ()"
        by (auto simp: export_public_certificate_def sys_then_def sys_context_def)
      with adds_trans [OF a1 a2] show ?thesis by simp
    next
      case created: (Inr i)
      note made = create_logged [OF c [unfolded created]]
      obtain q w3 where q: "sys_write K i pem w2 = (q, w3)" by (meson surj_pair)
      obtain z w4 where z: "sys_sync K i w3 = (z, w4)" by (meson surj_pair)
      have a4: "adds (?S log) w3 w4" for log
        by (rule logs_adds [where m = "sys_sync K i", OF _ z]) (simp add: writes_def)
      have end1: "(q = Inr () \<and> w' = w4) \<or> (\<exists>e. q = Inl e \<and> w' = w3 \<and> r \<noteq> Inr ())"
        using assms l Inr c created q z
        by (cases q) (auto simp: export_public_certificate_def sys_then_def sys_context_def)
      have past: "set (w_log w2) \<subseteq> set (w_log w3)" "set (w_log w3) \<subseteq> set (w_log w4)"
        using adds_past [OF logs_adds [where m = "sys_write K i pem" and S = UNIV, OF _ q]]
          adds_past [OF a4] by auto
      have "(w_tick w1, Ev_Create ?loc i) \<in> set (w_log w')" using made past end1 by auto
      from write_adds [OF q this _ checked] made have "adds (?S (w_log w')) w2 w3" by simp
      with end1 a1 a2 a4 have "adds (?S (w_log w')) w w'" by (blast intro: adds_trans)
      moreover have "r = Inr () \<longrightarrow> (w_tick w2, Ev_Write i pem) \<in> set (w_log w')"
        using end1 write_logged [of K i pem w2 _ w3] q past by auto
      moreover have "w_tick w \<le> w_tick w2" using adds_past [OF a1] adds_past [OF a2] by auto
      ultimately show ?thesis using checked by blast
    qed
  qed
qed

end
