(* ===== verification/Control_Frames.thy ===== *)
theory Control_Frames
  imports Prelude
begin

text \<open>
  The framing of the control protocol, both ends: \<open>read_request_frame\<close>, \<open>read_exact_timed\<close> and
  \<open>write_value\<close> of \<open>src/control/server.rs\<close>, and the framing in \<open>exchange\<close> of
  \<open>crates/baffle-client/src/lib.rs\<close>. A frame is a big-endian 32-bit length and that many bytes.

  What a socket delivers is a list of events: a chunk of bytes, a stall longer than the read
  timeout, or a failure; the end of the list is end of file.
\<close>

unbundle bit_operations_syntax

subsection \<open>Reading\<close>

datatype control_event = Chunk string | Stalled | Broken

datatype read_failure = TimedOut | UnexpectedEof | ReadFailed

text \<open>\<open>stream.read\<close> into a buffer of one byte; \<open>None\<close> is end of file.\<close>

fun read_one :: "control_event list \<Rightarrow> read_failure + char option \<times> control_event list" where
  "read_one [] = Inr (None, [])"
| "read_one (Stalled # es) = Inl TimedOut"
| "read_one (Broken # es) = Inl ReadFailed"
| "read_one (Chunk [] # es) = read_one es"
| "read_one (Chunk (b # bs) # es) = Inr (Some b, Chunk bs # es)"

fun read_exact :: "nat \<Rightarrow> control_event list \<Rightarrow> read_failure + string \<times> control_event list" where
  "read_exact n [] = (if n = 0 then Inr ([], []) else Inl UnexpectedEof)"
| "read_exact n (e # es) =
     (if n = 0 then Inr ([], e # es)
      else (case e of
          Stalled \<Rightarrow> Inl TimedOut
        | Broken \<Rightarrow> Inl ReadFailed
        | Chunk bs \<Rightarrow>
            if n \<le> length bs then Inr (take n bs, Chunk (drop n bs) # es)
            else and_then (read_exact (n - length bs) es) (\<lambda>(rest, es). Inr (bs @ rest, es))))"

text \<open>\<open>u32::to_be_bytes\<close> and \<open>u32::from_be_bytes\<close>.\<close>

definition to_be_bytes :: "u32 \<Rightarrow> string" where
  "to_be_bytes w = map (\<lambda>k. char_of (unat (drop_bit k w))) [24, 16, 8, 0]"

definition from_be_bytes :: "string \<Rightarrow> u32" where
  "from_be_bytes bs = word_of_nat (foldl (\<lambda>n b. n * 256 + byte b) 0 bs)"

subsection \<open>Daemon\<close>

definition MAX_REQUEST_BYTES :: nat where
  "MAX_REQUEST_BYTES = 256 * 1024"

type_synonym error_code = "string \<times> string"

definition ERR_UNAUTHORIZED :: error_code where "ERR_UNAUTHORIZED = (''unauthorized'', ''client is not authorized'')"
definition ERR_INVALID_REQUEST :: error_code where "ERR_INVALID_REQUEST = (''invalid_request'', ''request is invalid'')"
definition ERR_UNSUPPORTED_VERSION :: error_code where
  "ERR_UNSUPPORTED_VERSION = (''unsupported_version'', ''protocol version is not supported'')"
definition ERR_FRAME_TOO_LARGE :: error_code where
  "ERR_FRAME_TOO_LARGE = (''frame_too_large'', ''request exceeds the maximum frame size'')"
definition ERR_TRUNCATED_FRAME :: error_code where "ERR_TRUNCATED_FRAME = (''truncated_frame'', ''request frame is incomplete'')"
definition ERR_READ_TIMEOUT :: error_code where "ERR_READ_TIMEOUT = (''read_timeout'', ''request read timed out'')"
definition ERR_BUSY :: error_code where "ERR_BUSY = (''busy'', ''server is busy'')"
definition ERR_SESSION_LIMIT :: error_code where "ERR_SESSION_LIMIT = (''session_limit'', ''session limit has been reached'')"
definition ERR_SESSION_NOT_FOUND :: error_code where "ERR_SESSION_NOT_FOUND = (''session_not_found'', ''session was not found'')"
definition ERR_SECRET_UNAVAILABLE :: error_code where
  "ERR_SECRET_UNAVAILABLE = (''secret_unavailable'', ''one or more requested secrets are unavailable'')"
definition ERR_INTERNAL :: error_code where "ERR_INTERNAL = (''internal_error'', ''request could not be completed'')"
definition ERR_SHUTTING_DOWN :: error_code where "ERR_SHUTTING_DOWN = (''shutting_down'', ''daemon is shutting down'')"
definition ERR_OPERATION_NOT_ALLOWED :: error_code where
  "ERR_OPERATION_NOT_ALLOWED = (''operation_not_allowed'',
     ''session creation operation is not allowed by daemon configuration'')"
definition ERR_EPHEMERAL_REQUIRED :: error_code where
  "ERR_EPHEMERAL_REQUIRED = (''ephemeral_required'', ''session configuration must be ephemeral'')"

definition read_exact_timed :: "nat \<Rightarrow> control_event list \<Rightarrow> error_code + string \<times> control_event list" where
  "read_exact_timed n es =
     map_err (\<lambda>e. if e = TimedOut then ERR_READ_TIMEOUT else ERR_TRUNCATED_FRAME) (read_exact n es)"

definition read_request_frame :: "control_event list \<Rightarrow> error_code + string option \<times> control_event list" where
  "read_request_frame es =
     (case read_one es of
        Inl TimedOut \<Rightarrow> Inl ERR_READ_TIMEOUT
      | Inl _ \<Rightarrow> Inl ERR_TRUNCATED_FRAME
      | Inr (None, es) \<Rightarrow> Inr (None, es)
      | Inr (Some b, es) \<Rightarrow>
          and_then (read_exact_timed 3 es) (\<lambda>(bs, es).
          (let frame_length = unat (from_be_bytes (b # bs)) in
           if frame_length > MAX_REQUEST_BYTES then Inl ERR_FRAME_TOO_LARGE
           else if frame_length = 0 then Inl ERR_INVALID_REQUEST
           else and_then (read_exact_timed frame_length es) (\<lambda>(body, es). Inr (Some body, es)))))"

text \<open>The frame that \<open>write_value\<close> and \<open>exchange\<close> send; \<open>None\<close> when the length has no 32-bit value.\<close>

definition frame :: "string \<Rightarrow> string option" where
  "frame body = (if length body < 2 ^ 32 then Some (to_be_bytes (word_of_nat (length body)) @ body) else None)"

subsection \<open>Client\<close>

definition MAX_RESPONSE_BYTES :: nat where
  "MAX_RESPONSE_BYTES = 4 * 1024 * 1024"

datatype client_error =
    Authorization string
  | InvalidPolicy string
  | CapacityLimit string
  | ProtocolMismatch string
  | Provisioning string
  | SessionNotFound string
  | SessionConfigNotFound string
  | SessionConfigUnavailable string
  | SessionConfigInvalid string
  | OperationNotAllowed string
  | Transport
  | Serialization
  | Protocol string
  | ServerError string string

definition request_frame :: "string option \<Rightarrow> client_error + string" where
  "request_frame serialized =
     and_then (ok_or Serialization serialized) (\<lambda>body.
     if body = [] \<or> length body > MAX_REQUEST_BYTES
     then Inl (Protocol ''request exceeds the supported frame size'')
     else ok_or (Protocol ''request exceeds the supported frame size'') (frame body))"

definition read_response_frame :: "control_event list \<Rightarrow> client_error + string \<times> control_event list" where
  "read_response_frame es =
     and_then (map_err (\<lambda>_. Transport) (read_exact 4 es)) (\<lambda>(header, es).
     (let response_length = unat (from_be_bytes header) in
      if response_length = 0 \<or> response_length > MAX_RESPONSE_BYTES
      then Inl (Protocol ''response frame has an unsupported size'')
      else map_err (\<lambda>_. Transport) (read_exact response_length es)))"

subsection \<open>What is delivered\<close>

text \<open>The bytes of a stream that neither stalls nor fails.\<close>

fun delivered :: "control_event list \<Rightarrow> string option" where
  "delivered [] = Some []"
| "delivered (Chunk bs # es) = map_option ((@) bs) (delivered es)"
| "delivered (Stalled # es) = None"
| "delivered (Broken # es) = None"

lemma read_exact_delivered:
  "delivered es = Some (bs @ rest) \<Longrightarrow>
   \<exists>es'. read_exact (length bs) es = Inr (bs, es') \<and> delivered es' = Some rest"
proof (induction es arbitrary: bs)
  case (Cons e es)
  show ?case
  proof (cases "bs = []")
    case True
    then show ?thesis using Cons.prems by simp
  next
    case False
    from Cons.prems obtain c where e: "e = Chunk c" by (cases e) auto
    from Cons.prems obtain ds where ds: "delivered es = Some ds" "c @ ds = bs @ rest" by (auto simp: e)
    show ?thesis
    proof (cases "length bs \<le> length c")
      case True
      then have "bs = take (length bs) c" "rest = drop (length bs) c @ ds"
        using ds(2) by (metis append_eq_append_conv_if append_take_drop_id)+
      then show ?thesis using True False ds(1) by (simp add: e)
    next
      case False
      then obtain cs where cs: "bs = c @ cs" "ds = cs @ rest"
        using ds(2) by (auto simp: append_eq_append_conv2)
      have "\<exists>es'. read_exact (length cs) es = Inr (cs, es') \<and> delivered es' = Some rest"
        using Cons.IH [of cs] ds(1) cs by simp
      then show ?thesis using False \<open>bs \<noteq> []\<close> cs by (auto simp: e)
    qed
  qed
qed simp

lemma read_one_delivered:
  "delivered es = Some (b # rest) \<Longrightarrow> \<exists>es'. read_one es = Inr (Some b, es') \<and> delivered es' = Some rest"
  by (induction es rule: read_one.induct) (auto simp: map_option_case split: option.splits)

subsection \<open>Lengths\<close>

lemma to_be_bytes_length [simp]: "length (to_be_bytes w) = 4"
  by (simp add: to_be_bytes_def)

lemma unat_drop_bit_div: "unat (drop_bit k (w :: u32)) = unat w div 2 ^ k"
proof -
  have "unat (drop_bit k w) = drop_bit k (unat w)" by (rule unat_drop_bit_eq)
  then show ?thesis by (simp only: drop_bit_eq_div)
qed

lemma four_digits:
  "((n div 16777216 * 256 + n div 65536 mod 256) * 256 + n div 256 mod 256) * 256 + n mod 256 = (n :: nat)"
proof -
  have "n div 16777216 = n div 65536 div 256" "n div 65536 = n div 256 div 256"
    by (simp_all add: div_mult2_eq [symmetric])
  then show ?thesis by simp
qed

lemma from_to_be_bytes: "from_be_bytes (to_be_bytes w) = w"
proof -
  have "unat w < 256 ^ 4" using unsigned_less [of w, where 'a = nat] by simp
  then have "unat w div 16777216 mod 256 = unat w div 16777216"
    by (intro mod_less) (simp add: div_less_iff_less_mult)
  then have "foldl (\<lambda>n b. n * 256 + byte b) 0 (to_be_bytes w) = unat w"
    using four_digits [of "unat w"] by (simp add: to_be_bytes_def unat_drop_bit_div)
  then show ?thesis by (simp add: from_be_bytes_def)
qed

lemma frame_length: "n < 2 ^ 32 \<Longrightarrow> unat (from_be_bytes (to_be_bytes (word_of_nat n))) = n"
  by (simp add: from_to_be_bytes unat_of_nat)

lemma frame_Some: "frame body = Some bytes \<longleftrightarrow> length body < 2 ^ 32 \<and>
    bytes = to_be_bytes (word_of_nat (length body)) @ body"
  by (auto simp: frame_def)

subsection \<open>Channels\<close>

text \<open>
  The interface of a direction of the protocol: bodies within a bound are framed, and the reader
  gives back the body at the head of what is delivered, however it is cut into chunks.
\<close>

locale frame_channel =
  fixes read_frame :: "control_event list \<Rightarrow> (string \<times> control_event list) option"
    and fits :: "string \<Rightarrow> bool"
  assumes fits_frame: "fits body \<Longrightarrow> frame body \<noteq> None"
    and read_back: "fits body \<Longrightarrow> frame body = Some bytes \<Longrightarrow> delivered es = Some (bytes @ rest) \<Longrightarrow>
      \<exists>es'. read_frame es = Some (body, es') \<and> delivered es' = Some rest"
begin

lemma chunking_irrelevant:
  assumes "fits body" "frame body = Some bytes" "delivered es = Some (bytes @ rest)" "delivered fs = Some (bytes @ rest)"
  shows "map_option fst (read_frame es) = map_option fst (read_frame fs)"
  using read_back [OF assms(1,2,3)] read_back [OF assms(1,2,4)] by auto

lemma unique_decoding:
  assumes "fits a" "fits b" "frame a = Some x" "frame b = Some y" "x @ r = y @ s"
  shows "a = b \<and> r = s"
  using read_back [OF assms(1,3), of "[Chunk (x @ r)]" r] read_back [OF assms(2,4), of "[Chunk (x @ r)]" s] assms(5)
  by auto

end

definition request_fits :: "string \<Rightarrow> bool" where
  "request_fits body \<longleftrightarrow> body \<noteq> [] \<and> length body \<le> MAX_REQUEST_BYTES"

definition response_fits :: "string \<Rightarrow> bool" where
  "response_fits body \<longleftrightarrow> body \<noteq> [] \<and> length body \<le> MAX_RESPONSE_BYTES"

definition next_request :: "control_event list \<Rightarrow> (string \<times> control_event list) option" where
  "next_request es = (case read_request_frame es of Inr (Some body, es) \<Rightarrow> Some (body, es) | _ \<Rightarrow> None)"

definition next_response :: "control_event list \<Rightarrow> (string \<times> control_event list) option" where
  "next_response es = (case read_response_frame es of Inr (body, es) \<Rightarrow> Some (body, es) | _ \<Rightarrow> None)"

lemma read_request_frame_header:
  assumes "delivered es = Some (to_be_bytes (word_of_nat n) @ rest)" "n < 2 ^ 32"
  shows "\<exists>es'. delivered es' = Some rest \<and> read_request_frame es =
    (if n > MAX_REQUEST_BYTES then Inl ERR_FRAME_TOO_LARGE
     else if n = 0 then Inl ERR_INVALID_REQUEST
     else and_then (read_exact_timed n es') (\<lambda>(body, es). Inr (Some body, es)))"
proof -
  obtain b hs where h: "to_be_bytes (word_of_nat n) = b # hs" "length hs = 3"
    using to_be_bytes_length [of "word_of_nat n"] by (cases "to_be_bytes (word_of_nat n)") auto
  with assms(1) have "delivered es = Some (b # hs @ rest)" by simp
  from read_one_delivered [OF this] obtain es1 where
    es1: "read_one es = Inr (Some b, es1)" "delivered es1 = Some (hs @ rest)" by blast
  from read_exact_delivered [OF es1(2)] h(2) obtain es2 where
    es2: "read_exact 3 es1 = Inr (hs, es2)" "delivered es2 = Some rest" by auto
  have "unat (from_be_bytes (b # hs)) = n" using frame_length [OF assms(2)] h(1) by simp
  with es1 es2 show ?thesis by (auto simp: read_request_frame_def read_exact_timed_def Let_def intro!: exI [of _ es2])
qed

lemma read_response_frame_header:
  assumes "delivered es = Some (to_be_bytes (word_of_nat n) @ rest)" "n < 2 ^ 32"
  shows "\<exists>es'. delivered es' = Some rest \<and> read_response_frame es =
    (if n = 0 \<or> n > MAX_RESPONSE_BYTES then Inl (Protocol ''response frame has an unsupported size'')
     else map_err (\<lambda>_. Transport) (read_exact n es'))"
proof -
  from read_exact_delivered [OF assms(1)] obtain es2 where
    "read_exact 4 es = Inr (to_be_bytes (word_of_nat n), es2)" "delivered es2 = Some rest" by auto
  with frame_length [OF assms(2)] show ?thesis
    by (auto simp: read_response_frame_def Let_def intro!: exI [of _ es2])
qed

interpretation requests: frame_channel next_request request_fits
proof unfold_locales
  fix body bytes es rest
  show "request_fits body \<Longrightarrow> frame body \<noteq> None"
    by (auto simp: request_fits_def frame_def MAX_REQUEST_BYTES_def)
  assume b: "request_fits body" "frame body = Some bytes" "delivered es = Some (bytes @ rest)"
  then obtain es' where es': "delivered es' = Some (body @ rest)" "read_request_frame es =
      and_then (read_exact_timed (length body) es') (\<lambda>(body, es). Inr (Some body, es))"
    using read_request_frame_header [of es "length body" "body @ rest"]
    by (auto simp: frame_Some request_fits_def)
  with read_exact_delivered [OF es'(1)] show "\<exists>es'. next_request es = Some (body, es') \<and> delivered es' = Some rest"
    by (auto simp: next_request_def read_exact_timed_def)
qed

interpretation responses: frame_channel next_response response_fits
proof unfold_locales
  fix body bytes es rest
  show "response_fits body \<Longrightarrow> frame body \<noteq> None"
    by (auto simp: response_fits_def frame_def MAX_RESPONSE_BYTES_def)
  assume b: "response_fits body" "frame body = Some bytes" "delivered es = Some (bytes @ rest)"
  then obtain es' where es': "delivered es' = Some (body @ rest)" "read_response_frame es =
      map_err (\<lambda>_. Transport) (read_exact (length body) es')"
    using read_response_frame_header [of es "length body" "body @ rest"]
    by (auto simp: frame_Some response_fits_def)
  with read_exact_delivered [OF es'(1)] show "\<exists>es'. next_response es = Some (body, es') \<and> delivered es' = Some rest"
    by (auto simp: next_response_def)
qed

lemma read_exact_short: "delivered es = Some p \<Longrightarrow> length p < n \<Longrightarrow> read_exact n es = Inl UnexpectedEof"
proof (induction es arbitrary: p n)
  case (Cons e es)
  then obtain c ds where "e = Chunk c" "delivered es = Some ds" "p = c @ ds" by (cases e) auto
  with Cons show ?case by simp
qed simp

lemma read_one_end: "delivered es = Some [] \<Longrightarrow> read_one es = Inr (None, [])"
  by (induction es rule: read_one.induct) auto

text \<open>A frame that breaks off is nothing, if nothing of it came, and truncated otherwise.\<close>

lemma truncated_request:
  assumes "request_fits body" "frame body = Some bytes" "k < length bytes" "delivered es = Some (take k bytes)"
  shows "read_request_frame es = (if k = 0 then Inr (None, []) else Inl ERR_TRUNCATED_FRAME)"
proof (cases "k < 4")
  case True
  let ?p = "take k bytes"
  show ?thesis
  proof (cases ?p)
    case Nil
    then have "k = 0" using assms(3) by (cases bytes) auto
    then show ?thesis using read_one_end assms(4) by (simp add: read_request_frame_def)
  next
    case (Cons b p)
    then have k: "k \<noteq> 0" "length p < 3" using True assms(3) by (auto dest: arg_cong [where f = length])
    from read_one_delivered assms(4) Cons obtain es1 where
      es1: "read_one es = Inr (Some b, es1)" "delivered es1 = Some p" by metis
    with read_exact_short [OF es1(2) k(2)] k(1) show ?thesis by (simp add: read_request_frame_def read_exact_timed_def)
  qed
next
  case False
  have bytes: "length body < 2 ^ 32" "bytes = to_be_bytes (word_of_nat (length body)) @ body"
    using assms(2) by (simp_all add: frame_Some)
  then have "delivered es = Some (to_be_bytes (word_of_nat (length body)) @ take (k - 4) body)"
    using assms(4) False by simp
  from read_request_frame_header [OF this bytes(1)] assms(1) obtain es' where
    es': "delivered es' = Some (take (k - 4) body)"
    "read_request_frame es = and_then (read_exact_timed (length body) es') (\<lambda>(body, es). Inr (Some body, es))"
    by (auto simp: request_fits_def)
  have "length (take (k - 4) body) < length body" using assms(3) bytes(2) False by simp
  from read_exact_short [OF es'(1) this] es'(2) False show ?thesis by (simp add: read_exact_timed_def)
qed

text \<open>
  C16. Framing: a frame that either end sends is read back by the other end as the same bytes,
  however the bytes are cut into chunks, and what follows it stays unread; a frame outside the
  bounds of its direction is refused by its length alone; and a request frame that breaks off is
  reported as truncated, or as no request when nothing came, never as a body.
\<close>

theorem control_frames_faithful:
  assumes "frame body = Some bytes" "delivered es = Some (bytes @ rest)"
    and "k < length bytes" "delivered fs = Some (take k bytes)"
  shows "(if length body > MAX_REQUEST_BYTES then read_request_frame es = Inl ERR_FRAME_TOO_LARGE
      else if body = [] then read_request_frame es = Inl ERR_INVALID_REQUEST
      else (\<exists>es'. read_request_frame es = Inr (Some body, es') \<and> delivered es' = Some rest) \<and>
        read_request_frame fs = (if k = 0 then Inr (None, []) else Inl ERR_TRUNCATED_FRAME)) \<and>
    (if body = [] \<or> length body > MAX_RESPONSE_BYTES
      then read_response_frame es = Inl (Protocol ''response frame has an unsupported size'')
      else \<exists>es'. read_response_frame es = Inr (body, es') \<and> delivered es' = Some rest)"
proof (intro conjI)
  have bytes: "length body < 2 ^ 32" "bytes = to_be_bytes (word_of_nat (length body)) @ body"
    using assms(1) by (simp_all add: frame_Some)
  then have d: "delivered es = Some (to_be_bytes (word_of_nat (length body)) @ (body @ rest))" using assms(2) by simp
  show "if length body > MAX_REQUEST_BYTES then read_request_frame es = Inl ERR_FRAME_TOO_LARGE
      else if body = [] then read_request_frame es = Inl ERR_INVALID_REQUEST
      else (\<exists>es'. read_request_frame es = Inr (Some body, es') \<and> delivered es' = Some rest) \<and>
        read_request_frame fs = (if k = 0 then Inr (None, []) else Inl ERR_TRUNCATED_FRAME)"
  proof (cases "request_fits body")
    case True
    then show ?thesis
      using requests.read_back [OF True assms(1,2)] truncated_request [OF True assms(1,3,4)]
      by (auto simp: next_request_def request_fits_def split: sum.splits option.splits)
  next
    case False
    then show ?thesis using read_request_frame_header [OF d bytes(1)] by (auto simp: request_fits_def)
  qed
  show "if body = [] \<or> length body > MAX_RESPONSE_BYTES
      then read_response_frame es = Inl (Protocol ''response frame has an unsupported size'')
      else \<exists>es'. read_response_frame es = Inr (body, es') \<and> delivered es' = Some rest"
  proof (cases "response_fits body")
    case True
    then show ?thesis
      using responses.read_back [OF True assms(1,2)]
      by (auto simp: next_response_def response_fits_def split: sum.splits)
  next
    case False
    then show ?thesis using read_response_frame_header [OF d bytes(1)] by (auto simp: response_fits_def)
  qed
qed

theorem control_frames_faithful_witness:
  "\<exists>bytes. frame ''ab'' = Some bytes \<and> length bytes = 6 \<and>
     (\<exists>es'. read_request_frame [Chunk (take 1 bytes), Chunk [], Chunk (drop 1 bytes @ ''c'')] = Inr (Some ''ab'', es') \<and>
        delivered es' = Some ''c'') \<and>
     read_request_frame [Chunk (take 5 bytes)] = Inl ERR_TRUNCATED_FRAME"
proof -
  obtain bytes where b: "frame ''ab'' = Some bytes" by (simp add: frame_def)
  then have l: "length bytes = 6" by (auto simp: frame_Some)
  have "take 1 bytes @ drop 1 bytes = bytes" by simp
  then have "delivered [Chunk (take 1 bytes), Chunk [], Chunk (drop 1 bytes @ ''c'')] = Some (bytes @ ''c'')"
    by (metis append_Nil append_assoc append_Nil2 delivered.simps(1,2) option.map(2))
  from control_frames_faithful [OF b this, of 5 "[Chunk (take 5 bytes)]"] l b show ?thesis
    by (simp add: MAX_REQUEST_BYTES_def)
qed

end
