(* ===== verification/Control_Server.thy ===== *)
theory Control_Server
  imports Control_Frames Session_Steps
begin

text \<open>
  One connection to the control socket: \<open>handle_connection\<close> and \<open>create_session_response\<close> of
  \<open>src/control/server.rs\<close>, with the operations of the session manager they call
  (\<open>SessionManager::create\<close>, \<open>stop\<close> and \<open>remove\<close> in \<open>src/control/session.rs\<close>) put together from
  their critical sections. As in a reload, \<open>others\<close> stands for what other tasks do to the registry
  at each point where the operation waits.
\<close>

subsection \<open>Operations of the session manager\<close>

record daemon =
  dm_registry :: session_registry
  dm_metrics :: metrics
  dm_slots :: nat

record created_session =
  cs_info :: session_info
  cs_ca_certificate_pem :: string
  cs_credential_seed_base64url :: string

type_synonym waits = "nat \<Rightarrow> session_registry \<Rightarrow> session_registry"

text \<open>
  What one connection meets: the configuration of the daemon and the stores (\<open>se_reload\<close> holds
  what a creation and a reload share), the certificate, and the random bytes that this connection
  gets, \<open>None\<close> when the system has none.
\<close>

record ('v, 'w) server_env =
  se_trusted_operator_uid :: u32
  se_create_mode :: session_create_mode
  se_max_sessions :: nat
  se_toml :: "('v, 'w) toml_lib"
  se_hosts :: host_parser
  se_reload :: "'w reload_env"
  se_ca_certificate_pem :: "string option"
  se_seed :: "string option"
  se_random :: "u8 list option"

definition create_start :: "('v, 'w) server_env \<Rightarrow> session_config \<Rightarrow> (string \<times> string) list \<Rightarrow> string \<Rightarrow> string \<Rightarrow>
    session_error + runtime" where
  "create_start env session secrets seed sid =
     (let re = se_reload env in
      and_then (ok_or InternalError (absolute_socket_path (re_cwd re)
        (path_join (re_socket_dir re) (session_socket_name sid session)))) (\<lambda>socket_path.
      if \<not> re_bind re socket_path then Inl RuntimeError
      else Inr (runtime_start (re_hmac re) (re_b64url re) session secrets seed socket_path 1)))"

definition create :: "('v, 'w) server_env \<Rightarrow> waits \<Rightarrow> session_config \<Rightarrow> (string \<times> string) list \<Rightarrow> string option \<Rightarrow>
    daemon \<Rightarrow> (session_error + created_session) \<times> daemon" where
  "create env others session secrets config_source d =
     (case (se_ca_certificate_pem env, se_seed env, se_random env) of
        (Some pem, Some seed, Some random) \<Rightarrow>
          (let sid = new_session_id random in
           (case create_reserve (se_max_sessions env) sid (dm_registry d) of
              Inl e \<Rightarrow> (Inl e, d)
            | Inr registry \<Rightarrow>
                (case create_start env session secrets seed sid of
                   Inl e \<Rightarrow> (Inl e, d\<lparr>dm_registry := create_release sid (others 0 registry)\<rparr>)
                 | Inr runtime \<Rightarrow>
                     (case create_commit sid session secrets config_source runtime (others 0 registry) of
                        (Inl e, registry) \<Rightarrow> (Inl e, d\<lparr>dm_registry := registry\<rparr>)
                      | (Inr info, registry) \<Rightarrow>
                          (Inr \<lparr>cs_info = info, cs_ca_certificate_pem = pem,
                             cs_credential_seed_base64url = re_b64url (se_reload env) seed\<rparr>,
                           d\<lparr>dm_registry := registry, dm_metrics := snd (session_started (dm_metrics d))\<rparr>)))))
      | _ \<Rightarrow> (Inl InternalError, d))"

definition remove_taken :: "waits \<Rightarrow> string \<Rightarrow> session_registry \<Rightarrow> daemon \<Rightarrow> daemon" where
  "remove_taken others sid registry d =
     (case remove_session sid (others 5 registry) of
        (present, registry) \<Rightarrow>
          d\<lparr>dm_registry := registry,
            dm_metrics := (if present then snd (session_stopped (dm_metrics d)) else dm_metrics d)\<rparr>)"

definition stop :: "waits \<Rightarrow> string \<Rightarrow> daemon \<Rightarrow> bool \<times> daemon" where
  "stop others sid d =
     (case rg_sessions (dm_registry d) sid of
        None \<Rightarrow> (False, d)
      | Some _ \<Rightarrow>
          (case stop_mark sid (others 4 (dm_registry d)) of
             (Absent, registry) \<Rightarrow> (False, d\<lparr>dm_registry := registry\<rparr>)
           | (Taken _, registry) \<Rightarrow> (True, remove_taken others sid registry d)
           | (_, registry) \<Rightarrow> (True, d\<lparr>dm_registry := registry\<rparr>)))"

definition remove :: "waits \<Rightarrow> string \<Rightarrow> daemon \<Rightarrow> daemon" where
  "remove others sid d =
     (case rg_sessions (dm_registry d) sid of
        None \<Rightarrow> d
      | Some _ \<Rightarrow>
          (case remove_mark sid (others 4 (dm_registry d)) of
             (Taken _, registry) \<Rightarrow> remove_taken others sid registry d
           | (_, registry) \<Rightarrow> d\<lparr>dm_registry := registry\<rparr>))"

subsection \<open>Responses\<close>

datatype result_value =
    CreatedValue string string bool string string
  | StoppedValue
  | ReloadValue reload_result
  | ReloadAllValue "reload_result list"
  | SessionsValue "session_info list"

datatype response = ErrorResponse string string | SuccessResponse result_value

definition error_value :: "error_code \<Rightarrow> response" where
  "error_value error = ErrorResponse (fst error) (snd error)"

definition create_session_response :: "('v, 'w) server_env \<Rightarrow> waits \<Rightarrow> session_config \<Rightarrow> string option \<Rightarrow> daemon \<Rightarrow>
    response \<times> string option \<times> daemon" where
  "create_session_response env others session config_source d =
     (case snd (resolve (re_fs (se_reload env)) (re_store (se_reload env)) session) of
        Inl _ \<Rightarrow> (error_value ERR_SECRET_UNAVAILABLE, None, d)
      | Inr secrets \<Rightarrow>
          (case create env others session secrets config_source d of
             (Inr created, d) \<Rightarrow>
               (SuccessResponse (CreatedValue (si_id (cs_info created)) (si_socket (cs_info created))
                  (si_persistent (cs_info created)) (cs_ca_certificate_pem created)
                  (cs_credential_seed_base64url created)),
                if si_persistent (cs_info created) then None else Some (si_id (cs_info created)), d)
           | (Inl AtCapacity, d) \<Rightarrow> (error_value ERR_SESSION_LIMIT, None, d)
           | (Inl RuntimeError, d) \<Rightarrow> (error_value ERR_INTERNAL, None, d)
           | (Inl ShuttingDown, d) \<Rightarrow> (error_value ERR_SHUTTING_DOWN, None, d)
           | (Inl InternalError, d) \<Rightarrow> (error_value ERR_INTERNAL, None, d)))"

text \<open>\<open>try_acquire_owned\<close> on the provisioning slots, and the release when the permit is dropped.\<close>

definition with_slot :: "(daemon \<Rightarrow> response \<times> string option \<times> daemon) \<Rightarrow> daemon \<Rightarrow> response \<times> string option \<times> daemon" where
  "with_slot f d =
     (if dm_slots d = 0 then (error_value ERR_BUSY, None, d)
      else (case f (d\<lparr>dm_slots := dm_slots d - 1\<rparr>) of
          (response, lease, d) \<Rightarrow> (response, lease, d\<lparr>dm_slots := dm_slots d + 1\<rparr>)))"

definition set_registry_of :: "daemon \<Rightarrow> session_registry \<Rightarrow> daemon" where
  "set_registry_of d r = d\<lparr>dm_registry := r\<rparr>"

definition respond :: "('v, 'w) server_env \<Rightarrow> waits \<Rightarrow> control_request \<Rightarrow> daemon \<Rightarrow> response \<times> string option \<times> daemon" where
  "respond env others request d =
     (case request of
        Create _ session \<Rightarrow>
          if se_create_mode env \<noteq> Inline then (error_value ERR_OPERATION_NOT_ALLOWED, None, d)
          else with_slot (create_session_response env others session None) d
      | CreateFromFile _ name require_ephemeral \<Rightarrow>
          if se_create_mode env \<noteq> FileOnly then (error_value ERR_OPERATION_NOT_ALLOWED, None, d)
          else with_slot (\<lambda>d.
            (case re_configs (se_reload env) of
               None \<Rightarrow> (error_value ERR_INTERNAL, None, d)
             | Some store \<Rightarrow>
                 (case read_session store name of
                    Inl e \<Rightarrow> (ErrorResponse (create_code e) (fe_detail e), None, d)
                  | Inr session \<Rightarrow>
                      if require_ephemeral \<and> sc_persistent session then (error_value ERR_EPHEMERAL_REQUIRED, None, d)
                      else create_session_response env others session (Some name) d))) d
      | Stop _ session_id \<Rightarrow>
          (case stop others session_id d of
             (True, d) \<Rightarrow> (SuccessResponse StoppedValue, None, d)
           | (False, d) \<Rightarrow> (error_value ERR_SESSION_NOT_FOUND, None, d))
      | Reload _ session_id \<Rightarrow>
          (case reload (se_reload env) others session_id (dm_registry d) of
             (Inr result, registry) \<Rightarrow> (SuccessResponse (ReloadValue result), None, set_registry_of d registry)
           | (Inl _, registry) \<Rightarrow> (error_value ERR_SESSION_NOT_FOUND, None, set_registry_of d registry))
      | ReloadAll _ \<Rightarrow>
          (case reload_all (reload (se_reload env) others) (dm_registry d) of
             (results, registry) \<Rightarrow> (SuccessResponse (ReloadAllValue results), None, set_registry_of d registry))
      | ListSessions _ \<Rightarrow>
          (case list_sessions (re_finished (se_reload env) 0) (dm_registry d) of
             (sessions, registry) \<Rightarrow> (SuccessResponse (SessionsValue sessions), None, set_registry_of d registry)))"

text \<open>
  \<open>write_ok\<close>: the response reaches the socket. An ephemeral session is removed when it does not,
  and when it does, as soon as the client sends anything or closes; that wait is \<open>others 6\<close>.
\<close>

definition handle_connection :: "('v, 'w) server_env \<Rightarrow> waits \<Rightarrow> u32 option \<Rightarrow> control_event list \<Rightarrow> bool \<Rightarrow> daemon \<Rightarrow>
    response option \<times> daemon" where
  "handle_connection env others peer events write_ok d =
     (if peer \<noteq> Some (se_trusted_operator_uid env) then (Some (error_value ERR_UNAUTHORIZED), d)
      else (case read_request_frame events of
          Inl e \<Rightarrow> (Some (error_value e), d)
        | Inr (None, _) \<Rightarrow> (None, d)
        | Inr (Some body, _) \<Rightarrow>
            if \<not> utf8_valid body then (Some (error_value ERR_INVALID_REQUEST), d)
            else (case control_request_from_toml (se_toml env) (se_hosts env) body of
                Inl e \<Rightarrow>
                  (Some (error_value (if is_unsupported_protocol_version e then ERR_UNSUPPORTED_VERSION
                     else ERR_INVALID_REQUEST)), d)
              | Inr request \<Rightarrow>
                  (case respond env others request d of
                     (response, None, d) \<Rightarrow> (Some response, d)
                   | (response, Some sid, d) \<Rightarrow>
                       (Some response,
                        remove others sid
                          (if write_ok then set_registry_of d (others 6 (dm_registry d)) else d))))))"

subsection \<open>Creating\<close>

lemma create_Inr:
  assumes "create env others session secrets source d = (Inr created, d')"
  shows "\<exists>pem seed random socket r. se_ca_certificate_pem env = Some pem \<and> se_seed env = Some seed \<and>
    se_random env = Some random \<and> create_reserve (se_max_sessions env) (new_session_id random) (dm_registry d) = Inr r \<and>
    create_start env session secrets seed (new_session_id random) = Inr (runtime_start (re_hmac (se_reload env))
      (re_b64url (se_reload env)) session secrets seed socket 1) \<and>
    cs_info created = ms_info (committed (new_session_id random) session secrets source
      (runtime_start (re_hmac (se_reload env)) (re_b64url (se_reload env)) session secrets seed socket 1)) \<and>
    cs_ca_certificate_pem created = pem \<and> cs_credential_seed_base64url created = re_b64url (se_reload env) seed \<and>
    create_commit (new_session_id random) session secrets source (runtime_start (re_hmac (se_reload env))
      (re_b64url (se_reload env)) session secrets seed socket 1) (others 0 r) = (Inr (cs_info created), dm_registry d')"
proof -
  from assms obtain pem seed random where e: "se_ca_certificate_pem env = Some pem" "se_seed env = Some seed"
    "se_random env = Some random"
    by (auto simp: create_def split: option.splits)
  with assms obtain r where r: "create_reserve (se_max_sessions env) (new_session_id random) (dm_registry d) = Inr r"
    by (auto simp: create_def Let_def split: sum.splits)
  with assms e obtain rt where rt: "create_start env session secrets seed (new_session_id random) = Inr rt"
    by (auto simp: create_def Let_def split: sum.splits)
  then obtain socket where rt': "rt = runtime_start (re_hmac (se_reload env)) (re_b64url (se_reload env)) session secrets seed socket 1"
    by (auto simp: create_start_def Let_def result_simps split: if_splits)
  from assms e r rt have c: "create_commit (new_session_id random) session secrets source rt (others 0 r) =
      (Inr (cs_info created), dm_registry d')" "cs_ca_certificate_pem created = pem"
    "cs_credential_seed_base64url created = re_b64url (se_reload env) seed"
    by (auto simp: create_def Let_def split: sum.splits prod.splits)
  have "cs_info created = ms_info (committed (new_session_id random) session secrets source rt)"
    using c(1) by (simp add: create_commit_Inr)
  then show ?thesis using e r rt c rt' by blast
qed

lemma create_slots: "dm_slots (snd (create env others session secrets source d)) = dm_slots d"
  by (simp add: create_def Let_def split: option.split sum.split prod.split)

lemma create_session_response_created:
  assumes "create_session_response env others session source d =
      (SuccessResponse (CreatedValue sid socket persistent pem seed64), lease, d')"
  shows "\<exists>secrets created. snd (resolve (re_fs (se_reload env)) (re_store (se_reload env)) session) = Inr secrets \<and>
    create env others session secrets source d = (Inr created, d') \<and> sid = si_id (cs_info created) \<and>
    socket = si_socket (cs_info created) \<and> persistent = si_persistent (cs_info created) \<and>
    pem = cs_ca_certificate_pem created \<and> seed64 = cs_credential_seed_base64url created \<and>
    lease = (if persistent then None else Some sid)"
proof -
  from assms obtain secrets where s: "snd (resolve (re_fs (se_reload env)) (re_store (se_reload env)) session) = Inr secrets"
    by (auto simp: create_session_response_def error_value_def split: sum.splits)
  obtain out d1 where c: "create env others session secrets source d = (out, d1)" by fastforce
  show ?thesis
  proof (cases out)
    case (Inl e)
    then show ?thesis using assms s c by (cases e) (auto simp: create_session_response_def error_value_def)
  next
    case (Inr created)
    then show ?thesis using assms s c by (auto simp: create_session_response_def)
  qed
qed

lemma create_session_response_error:
  assumes "create_session_response env others session source d = (ErrorResponse code message, lease, d')"
  shows "lease = None \<and> (code, message) \<in> {ERR_SECRET_UNAVAILABLE, ERR_SESSION_LIMIT, ERR_INTERNAL, ERR_SHUTTING_DOWN}"
proof (cases "snd (resolve (re_fs (se_reload env)) (re_store (se_reload env)) session)")
  case (Inl e)
  then show ?thesis using assms by (auto simp: create_session_response_def error_value_def)
next
  case (Inr secrets)
  obtain out d1 where c: "create env others session secrets source d = (out, d1)" by fastforce
  show ?thesis
  proof (cases out)
    case (Inl e)
    then show ?thesis using assms Inr c by (cases e) (auto simp: create_session_response_def error_value_def)
  next
    case (Inr created)
    then show ?thesis using assms c \<open>snd _ = Inr secrets\<close> by (auto simp: create_session_response_def)
  qed
qed

lemma create_session_response_cases:
  "(\<exists>code message. fst (create_session_response env others session source d) = ErrorResponse code message) \<or>
   (\<exists>sid socket persistent pem seed. fst (create_session_response env others session source d) =
      SuccessResponse (CreatedValue sid socket persistent pem seed))"
proof (cases "snd (resolve (re_fs (se_reload env)) (re_store (se_reload env)) session)")
  case (Inl e)
  then show ?thesis by (auto simp: create_session_response_def error_value_def)
next
  case (Inr secrets)
  obtain out d1 where c: "create env others session secrets source d = (out, d1)" by fastforce
  then show ?thesis
    using Inr by (cases out) (auto simp: create_session_response_def error_value_def split: session_error.split)
qed

lemma create_session_response_slots:
  "dm_slots (snd (snd (create_session_response env others session source d))) = dm_slots d"
proof (cases "snd (resolve (re_fs (se_reload env)) (re_store (se_reload env)) session)")
  case (Inr secrets)
  obtain out d1 where c: "create env others session secrets source d = (out, d1)" by fastforce
  then have "dm_slots d1 = dm_slots d" using create_slots [of env others session secrets source d] by simp
  then show ?thesis
    using Inr c by (cases out) (auto simp: create_session_response_def split: session_error.split)
qed (simp add: create_session_response_def)

subsection \<open>Requests\<close>

lemma with_slot_eq:
  assumes "with_slot f d = (response, lease, d')"
  shows "dm_slots d = 0 \<and> response = error_value ERR_BUSY \<and> lease = None \<and> d' = d \<or>
    0 < dm_slots d \<and> (\<exists>d1. f (d\<lparr>dm_slots := dm_slots d - 1\<rparr>) = (response, lease, d1) \<and> d' = d1\<lparr>dm_slots := dm_slots d1 + 1\<rparr>)"
  using assms by (auto simp: with_slot_def split: if_splits prod.splits)

text \<open>The session a creating request asks for, and the file it comes from.\<close>

definition asks_for :: "('v, 'w) server_env \<Rightarrow> control_request \<Rightarrow> session_config \<Rightarrow> string option \<Rightarrow> bool" where
  "asks_for env request session source \<longleftrightarrow>
     (case request of
        Create _ s \<Rightarrow> se_create_mode env = Inline \<and> session = s \<and> source = None
      | CreateFromFile _ name require_ephemeral \<Rightarrow> se_create_mode env = FileOnly \<and> source = Some name \<and>
          (\<exists>store. re_configs (se_reload env) = Some store \<and> read_session store name = Inr session) \<and>
          (require_ephemeral \<longrightarrow> \<not> sc_persistent session)
      | _ \<Rightarrow> False)"

lemma respond_created:
  assumes "respond env others request d = (SuccessResponse (CreatedValue sid socket persistent pem seed64), lease, d')"
  shows "\<exists>session source d1. asks_for env request session source \<and> 0 < dm_slots d \<and>
    create_session_response env others session source (d\<lparr>dm_slots := dm_slots d - 1\<rparr>) =
      (SuccessResponse (CreatedValue sid socket persistent pem seed64), lease, d1) \<and>
    dm_registry d' = dm_registry d1"
proof (cases request)
  case (Create v session)
  with assms have m: "se_create_mode env = Inline"
    and w: "with_slot (create_session_response env others session None) d =
      (SuccessResponse (CreatedValue sid socket persistent pem seed64), lease, d')"
    by (auto simp: respond_def error_value_def split: if_splits)
  from with_slot_eq [OF w] m show ?thesis
    unfolding asks_for_def Create by (auto simp: error_value_def)
next
  case (CreateFromFile v name eph)
  let ?f = "\<lambda>d. (case re_configs (se_reload env) of
               None \<Rightarrow> (error_value ERR_INTERNAL, None, d)
             | Some store \<Rightarrow>
                 (case read_session store name of
                    Inl e \<Rightarrow> (ErrorResponse (create_code e) (fe_detail e), None, d)
                  | Inr session \<Rightarrow>
                      if eph \<and> sc_persistent session then (error_value ERR_EPHEMERAL_REQUIRED, None, d)
                      else create_session_response env others session (Some name) d))"
  from CreateFromFile assms have m: "se_create_mode env = FileOnly"
    and w: "with_slot ?f d = (SuccessResponse (CreatedValue sid socket persistent pem seed64), lease, d')"
    by (auto simp: respond_def error_value_def split: if_splits)
  from with_slot_eq [OF w] obtain d1 where d1: "0 < dm_slots d"
    "?f (d\<lparr>dm_slots := dm_slots d - 1\<rparr>) = (SuccessResponse (CreatedValue sid socket persistent pem seed64), lease, d1)"
    "d' = d1\<lparr>dm_slots := dm_slots d1 + 1\<rparr>" by (auto simp: error_value_def)
  then obtain store session where st: "re_configs (se_reload env) = Some store" "read_session store name = Inr session"
    "\<not> (eph \<and> sc_persistent session)" "create_session_response env others session (Some name) (d\<lparr>dm_slots := dm_slots d - 1\<rparr>) =
      (SuccessResponse (CreatedValue sid socket persistent pem seed64), lease, d1)"
    by (auto simp: error_value_def split: option.splits sum.splits if_splits)
  have "asks_for env request session (Some name)" using m st by (simp add: asks_for_def CreateFromFile)
  with d1(1,3) st(4) show ?thesis by auto
qed (use assms in \<open>auto simp: respond_def error_value_def split: prod.splits bool.splits sum.splits\<close>)

lemma remove_taken_slots [simp]: "dm_slots (remove_taken others sid r d) = dm_slots d"
  by (simp add: remove_taken_def split: prod.split)

lemma remove_slots [simp]: "dm_slots (remove others sid d) = dm_slots d"
  by (simp add: remove_def split: option.split prod.split mark_result.split)

lemma stop_slots: "stop others sid d = (b, d') \<Longrightarrow> dm_slots d' = dm_slots d"
  by (auto simp: stop_def split: option.splits prod.splits mark_result.splits)

lemma with_slot_slots:
  assumes "with_slot f d = (response, lease, d')" "\<And>e. dm_slots (snd (snd (f e))) = dm_slots e"
  shows "dm_slots d' = dm_slots d"
  using with_slot_eq [OF assms(1)] assms(2) [of "d\<lparr>dm_slots := dm_slots d - 1\<rparr>"] by auto

lemma respond_slots:
  assumes "respond env others request d = (response, lease, d')"
  shows "dm_slots d' = dm_slots d"
proof (cases request)
  case (Create v session)
  with assms show ?thesis
    by (auto simp: respond_def create_session_response_slots split: if_splits elim: with_slot_slots)
next
  case (CreateFromFile v name eph)
  with assms show ?thesis
    by (auto simp: respond_def split: if_splits elim!: with_slot_slots)
      (auto simp: create_session_response_slots split: option.split sum.split)
qed (use assms in \<open>auto simp: respond_def set_registry_of_def stop_slots split: prod.splits bool.splits sum.splits\<close>)

lemma respond_lease:
  assumes "respond env others request d = (response, Some sid, d')"
  shows "\<exists>socket pem seed. response = SuccessResponse (CreatedValue sid socket False pem seed)"
proof -
  have c: "\<exists>socket pem seed. response = SuccessResponse (CreatedValue sid socket False pem seed)"
    if "create_session_response env others session source e = (response, Some sid, e')" for session source e e'
    using create_session_response_cases [of env others session source e] that
      create_session_response_error [of env others session source e]
      create_session_response_created [of env others session source e]
    by (fastforce split: if_splits)
  show ?thesis
  proof (cases request)
    case (Create v session)
    with assms have w: "with_slot (create_session_response env others session None) d = (response, Some sid, d')"
      by (auto simp: respond_def split: if_splits)
    from with_slot_eq [OF w] c show ?thesis by auto
  next
    case (CreateFromFile v name eph)
    with assms obtain f where w: "with_slot f d = (response, Some sid, d')"
      and f: "\<And>e. f e = (case re_configs (se_reload env) of
               None \<Rightarrow> (error_value ERR_INTERNAL, None, e)
             | Some store \<Rightarrow>
                 (case read_session store name of
                    Inl x \<Rightarrow> (ErrorResponse (create_code x) (fe_detail x), None, e)
                  | Inr session \<Rightarrow>
                      if eph \<and> sc_persistent session then (error_value ERR_EPHEMERAL_REQUIRED, None, e)
                      else create_session_response env others session (Some name) e))"
      by (auto simp: respond_def split: if_splits)
    from with_slot_eq [OF w] c show ?thesis by (auto simp: f split: option.splits sum.splits if_splits)
  qed (use assms in \<open>auto simp: respond_def split: prod.splits bool.splits sum.splits\<close>)
qed

text \<open>A connection that gets as far as a request: the peer is trusted and its frame is a valid request.\<close>

definition accepted_request :: "('v, 'w) server_env \<Rightarrow> u32 option \<Rightarrow> control_event list \<Rightarrow> control_request \<Rightarrow> bool" where
  "accepted_request env peer events request \<longleftrightarrow> peer = Some (se_trusted_operator_uid env) \<and>
     (\<exists>body rest. read_request_frame events = Inr (Some body, rest) \<and> utf8_valid body \<and>
        control_request_from_toml (se_toml env) (se_hosts env) body = Inr request)"

lemma handle_connection_accepted:
  assumes "accepted_request env peer events request"
  shows "handle_connection env others peer events write_ok d =
    (case respond env others request d of
       (response, None, d) \<Rightarrow> (Some response, d)
     | (response, Some sid, d) \<Rightarrow> (Some response,
         remove others sid (if write_ok then set_registry_of d (others 6 (dm_registry d)) else d)))"
  using assms by (auto simp: accepted_request_def handle_connection_def)

lemma handle_connection_refused:
  assumes "\<And>request. \<not> accepted_request env peer events request"
    and "handle_connection env others peer events write_ok d = (response, d')"
  shows "d' = d \<and> (\<forall>r. response = Some r \<longrightarrow> r \<in> error_value ` {ERR_UNAUTHORIZED, ERR_READ_TIMEOUT, ERR_TRUNCATED_FRAME,
    ERR_FRAME_TOO_LARGE, ERR_INVALID_REQUEST, ERR_UNSUPPORTED_VERSION})"
proof (cases "peer = Some (se_trusted_operator_uid env)")
  case True
  have frame_errors: "e \<in> {ERR_READ_TIMEOUT, ERR_TRUNCATED_FRAME, ERR_FRAME_TOO_LARGE, ERR_INVALID_REQUEST}"
    if "read_request_frame events = Inl e" for e
    using that by (auto simp: read_request_frame_def read_exact_timed_def Let_def Inl_simps
        split: sum.splits read_failure.splits option.splits if_splits)
  show ?thesis
  proof (cases "read_request_frame events")
    case (Inl e)
    then show ?thesis using assms(2) True frame_errors [OF Inl] by (auto simp: handle_connection_def)
  next
    case (Inr x)
    then obtain body rest where x: "x = (body, rest)" by (cases x)
    show ?thesis
    proof (cases body)
      case None
      then show ?thesis using assms(2) True Inr x by (auto simp: handle_connection_def)
    next
      case (Some b)
      with assms(1) Inr x True have "\<not> utf8_valid b \<or> (\<exists>e. control_request_from_toml (se_toml env) (se_hosts env) b = Inl e)"
        by (cases "control_request_from_toml (se_toml env) (se_hosts env) b") (auto simp: accepted_request_def)
      then show ?thesis using assms(2) True Inr x Some by (auto simp: handle_connection_def split: if_splits)
    qed
  qed
qed (use assms(2) in \<open>auto simp: handle_connection_def\<close>)

text \<open>
  C26. Connections are harmless until authorised: a connection changes the state of the daemon
  only if its peer is the trusted operator and it sent one complete frame that is a valid request
  of this protocol version; every other connection gets one of six fixed errors, or nothing. On
  every path each provisioning slot taken is given back.
\<close>

theorem control_connection_guarded:
  assumes "handle_connection env others peer events write_ok d = (response, d')"
  shows "dm_slots d' = dm_slots d \<and>
    ((\<exists>request. accepted_request env peer events request) \<or>
     d' = d \<and> (\<forall>r. response = Some r \<longrightarrow> r \<in> error_value ` {ERR_UNAUTHORIZED, ERR_READ_TIMEOUT, ERR_TRUNCATED_FRAME,
       ERR_FRAME_TOO_LARGE, ERR_INVALID_REQUEST, ERR_UNSUPPORTED_VERSION}))"
proof (cases "\<exists>request. accepted_request env peer events request")
  case True
  then obtain request where a: "accepted_request env peer events request" ..
  obtain out lease d1 where r: "respond env others request d = (out, lease, d1)" by (metis prod_cases3)
  have "dm_slots d' = dm_slots d"
    using assms handle_connection_accepted [OF a] r respond_slots [OF r]
    by (cases lease) (auto simp: set_registry_of_def)
  then show ?thesis using True by blast
next
  case False
  then show ?thesis using handle_connection_refused [OF _ assms] by auto
qed

text \<open>
  C9. Authorised creation: a connection that reports a new session came from the trusted operator
  with a request the daemon's mode permits; the session is the requested policy, or the one
  composed from the named file, which is ephemeral where the request demands it; every secret it
  uses resolved; a slot was free, the daemon was open and below its maximum, and the identifier
  was new.
\<close>

theorem creation_authorized:
  assumes "handle_connection env others peer events write_ok d =
    (Some (SuccessResponse (CreatedValue sid socket persistent pem seed64)), d')"
  shows "\<exists>request session source secrets. accepted_request env peer events request \<and>
    asks_for env request session source \<and>
    snd (resolve (re_fs (se_reload env)) (re_store (se_reload env)) session) = Inr secrets \<and>
    persistent = sc_persistent session \<and> 0 < dm_slots d \<and> rg_accepting_sessions (dm_registry d) \<and>
    card (dom (rg_sessions (dm_registry d))) + card (rg_provisioning (dm_registry d)) < se_max_sessions env \<and>
    rg_sessions (dm_registry d) sid = None \<and> se_ca_certificate_pem env = Some pem"
proof -
  obtain request where a: "accepted_request env peer events request"
    using handle_connection_refused [OF _ assms] by (auto simp: error_value_def)
  obtain out lease d0 where r: "respond env others request d = (out, lease, d0)" by (metis prod_cases3)
  have "out = SuccessResponse (CreatedValue sid socket persistent pem seed64)"
    using assms handle_connection_accepted [OF a] r by (cases lease) auto
  from respond_created [OF r [unfolded this]] obtain session source d1 where
    c: "asks_for env request session source" "0 < dm_slots d"
    "create_session_response env others session source (d\<lparr>dm_slots := dm_slots d - 1\<rparr>) =
      (SuccessResponse (CreatedValue sid socket persistent pem seed64), lease, d1)" by blast
  from create_session_response_created [OF c(3)] obtain secrets created where
    s: "snd (resolve (re_fs (se_reload env)) (re_store (se_reload env)) session) = Inr secrets"
    "create env others session secrets source (d\<lparr>dm_slots := dm_slots d - 1\<rparr>) = (Inr created, d1)"
    "sid = si_id (cs_info created)" "persistent = si_persistent (cs_info created)" "pem = cs_ca_certificate_pem created"
    by blast
  from create_Inr [OF s(2)] obtain seed random rt r where
    k: "se_ca_certificate_pem env = Some pem" "create_reserve (se_max_sessions env) (new_session_id random) (dm_registry d) = Inr r"
    "cs_info created = ms_info (committed (new_session_id random) session secrets source rt)"
    by (auto simp: s(5))
  have res: "rg_accepting_sessions (dm_registry d)" "rg_sessions (dm_registry d) (new_session_id random) = None"
    "card (dom (rg_sessions (dm_registry d))) + card (rg_provisioning (dm_registry d)) < se_max_sessions env"
    using k(2) by (auto simp: create_reserve_def split: if_splits)
  have "sid = new_session_id random" "persistent = sc_persistent session"
    using s(3,4) k(3) by (simp_all add: committed_def)
  with a c(1,2) s(1) k(1) res show ?thesis by blast
qed

text \<open>The session is running, or is no longer there.\<close>

definition running_or_gone :: "string \<Rightarrow> session_registry \<Rightarrow> bool" where
  "running_or_gone sid r \<longleftrightarrow> (\<forall>s. rg_sessions r sid = Some s \<longrightarrow> session_ok sid s \<and> si_state (ms_info s) = Running)"

lemma remove_taken_gone: "rg_sessions (dm_registry (remove_taken others sid r d)) sid = None"
  by (simp add: remove_taken_def remove_session_def)

lemma remove_gone:
  assumes "running_or_gone sid (others 4 (dm_registry d))"
  shows "rg_sessions (dm_registry (remove others sid d)) sid = None"
proof (cases "rg_sessions (dm_registry d) sid")
  case (Some s)
  show ?thesis
  proof (cases "rg_sessions (others 4 (dm_registry d)) sid")
    case None
    then show ?thesis by (simp add: remove_def remove_mark_def Some)
  next
    case (Some t)
    with assms have "si_state (ms_info t) = Running" by (simp add: running_or_gone_def)
    with Some \<open>rg_sessions (dm_registry d) sid = _\<close> show ?thesis
      by (simp add: remove_def remove_mark_def case_prod_beta remove_taken_gone)
  qed
qed (simp add: remove_def)

text \<open>
  C25. Leases: the ephemeral session that a connection created is gone when the connection ends,
  whether or not its response could be written; a persistent one is in the registry. Of other
  tasks this takes that, while the connection does not hold the session's lock, they leave the
  session running or remove it.
\<close>

theorem ephemeral_lease_ends:
  assumes run: "handle_connection env others peer events write_ok d =
      (Some (SuccessResponse (CreatedValue sid socket persistent pem seed64)), d')"
    and free: "\<And>k r. k \<in> {4, 6} \<Longrightarrow> running_or_gone sid r \<Longrightarrow> running_or_gone sid (others k r)"
  shows "if persistent then \<exists>s. rg_sessions (dm_registry d') sid = Some s \<and> si_state (ms_info s) = Running
    else rg_sessions (dm_registry d') sid = None"
proof -
  obtain request where a: "accepted_request env peer events request"
    using handle_connection_refused [OF _ run] by (auto simp: error_value_def)
  obtain out lease d0 where r: "respond env others request d = (out, lease, d0)" by (metis prod_cases3)
  have out: "out = SuccessResponse (CreatedValue sid socket persistent pem seed64)"
    using run handle_connection_accepted [OF a] r by (cases lease) auto
  from respond_created [OF r [unfolded out]] obtain session source d1 where
    c: "create_session_response env others session source (d\<lparr>dm_slots := dm_slots d - 1\<rparr>) =
      (SuccessResponse (CreatedValue sid socket persistent pem seed64), lease, d1)" "dm_registry d0 = dm_registry d1" by blast
  from create_session_response_created [OF c(1)] obtain secrets created where
    s: "create env others session secrets source (d\<lparr>dm_slots := dm_slots d - 1\<rparr>) = (Inr created, d1)"
    "sid = si_id (cs_info created)" "lease = (if persistent then None else Some sid)" by blast
  from create_Inr [OF s(1)] obtain seed random socket r where
    k: "create_commit (new_session_id random) session secrets source (runtime_start (re_hmac (se_reload env))
      (re_b64url (se_reload env)) session secrets seed socket 1) (others 0 r) = (Inr (cs_info created), dm_registry d1)" by blast
  let ?s = "committed sid session secrets source (runtime_start (re_hmac (se_reload env)) (re_b64url (se_reload env)) session secrets seed socket 1)"
  have sid: "new_session_id random = sid" using k s(2) by (simp add: create_commit_Inr committed_def)
  have now: "rg_sessions (dm_registry d0) sid = Some ?s" using k c(2) by (simp add: create_commit_Inr sid)
  have ok: "session_ok sid ?s" "si_state (ms_info ?s) = Running"
    by (rule committed_ok) (simp_all add: runtime_start_def committed_def)
  show ?thesis
  proof (cases persistent)
    case True
    then have "d' = d0" using run handle_connection_accepted [OF a] r s(3) by simp
    then show ?thesis using True now ok by simp
  next
    case False
    let ?d = "if write_ok then set_registry_of d0 (others 6 (dm_registry d0)) else d0"
    have d': "d' = remove others sid ?d" using run handle_connection_accepted [OF a] r s(3) False by simp
    have "running_or_gone sid (dm_registry d0)" using now ok by (simp add: running_or_gone_def)
    then have "running_or_gone sid (dm_registry ?d)" using free [of 6] by (simp add: set_registry_of_def)
    then have "running_or_gone sid (others 4 (dm_registry ?d))" using free [of 4] by simp
    then have "rg_sessions (dm_registry (remove others sid ?d)) sid = None" by (rule remove_gone)
    then show ?thesis using False d' by simp
  qed
qed

subsection \<open>An example connection\<close>

definition example_ephemeral :: session_config where
  "example_ephemeral = example_session\<lparr>sc_persistent := False\<rparr>"

definition example_server :: "(unit, unit) server_env" where
  "example_server = \<lparr>se_trusted_operator_uid = 7, se_create_mode = Inline, se_max_sessions = 2,
     se_toml = \<lparr>de_version = (\<lambda>_. Some 2), de_request = (\<lambda>_. Some (RawCreate 2 ())), ser_session = (\<lambda>_. Some ''s''),
       de_session = (\<lambda>_. Some (example_raw\<lparr>rsc_persistent := False\<rparr>))\<rparr>,
     se_hosts = plain_hosts, se_reload = example_reload, se_ca_certificate_pem = Some ''PEM'', se_seed = Some ''seed'',
     se_random = Some (replicate 16 0xA5)\<rparr>"

definition example_daemon :: daemon where
  "example_daemon = \<lparr>dm_registry = registry_new, dm_metrics = metrics_default, dm_slots = 1\<rparr>"

definition example_events :: "control_event list" where
  "example_events = [Chunk (to_be_bytes 1), Chunk ''x'']"

lemma example_ephemeral_document:
  "validate_session_document plain_hosts (example_raw\<lparr>rsc_persistent := False\<rparr>) = Inr example_ephemeral"
proof -
  have "validate_socket_name ''a/b.sock'' = Inr ''a/b.sock''" by (simp add: eval_simps)
  then show ?thesis
    using example_paths example_header
    by (simp add: example_raw_def example_ephemeral_def example_session_def validate_session_document_def
        validate_named_rules_def validate_rule_def normalize_example SESSION_CONFIG_VERSION_def
        validate_credentials_def check_username_def raw_injection_def default_ports_def)
qed

lemma example_accepted:
  assumes "delivered events = Some (to_be_bytes 1 @ ''x'')"
  shows "accepted_request example_server (Some 7) events (Create 2 example_ephemeral)"
proof -
  have "delivered events = Some (to_be_bytes (word_of_nat 1) @ ''x'')" using assms by simp
  from read_request_frame_header [OF this] obtain es' where es': "delivered es' = Some ''x''"
    "read_request_frame events = and_then (read_exact_timed 1 es') (\<lambda>(body, es). Inr (Some body, es))"
    by (auto simp: MAX_REQUEST_BYTES_def)
  with read_exact_delivered [of es' "''x''" "[]"] have "\<exists>rest. read_request_frame events = Inr (Some ''x'', rest)"
    by (auto simp: read_exact_timed_def)
  moreover have "control_request_from_toml (se_toml example_server) (se_hosts example_server) ''x'' = Inr (Create 2 example_ephemeral)"
    by (simp add: control_request_from_toml_def example_server_def deserialize_def validate_protocol_version_def
        from_toml_def example_ephemeral_document)
  ultimately show ?thesis by (auto simp: accepted_request_def example_server_def byte_def)
qed

lemma example_create:
  "\<exists>socket d'. respond example_server (\<lambda>_ r. r) (Create 2 example_ephemeral) example_daemon =
     (SuccessResponse (CreatedValue (new_session_id (replicate 16 0xA5)) socket False ''PEM'' ''seed''),
      Some (new_session_id (replicate 16 0xA5)), d')"
proof -
  have "requested_secrets example_ephemeral = requested_secrets example_session"
    by (simp add: requested_secrets_def example_ephemeral_def effective_credential_mode_def cong: option.case_cong)
  then have res: "snd (resolve example_fs example_store example_ephemeral) = Inr [(''api.token'', ''ab'')]"
    using example_resolve by (simp add: resolve_def)
  have start: "\<exists>socket. create_start example_server example_ephemeral secrets seed sid =
      Inr (runtime_start (\<lambda>k m. m) (\<lambda>m. m) example_ephemeral secrets seed socket 1)" for secrets seed sid
    by (rule exI [of _ "''/run/a/b.sock''"])
      (simp add: create_start_def example_server_def example_reload_def Let_def absolute_socket_path_def
        path_join_def is_absolute_def session_socket_name_def example_ephemeral_def example_session_def suffix_to_prefix)
  have reserve: "create_reserve 2 sid registry_new = Inr (registry_new\<lparr>rg_provisioning := {sid}\<rparr>)" for sid
    by (simp add: create_reserve_def registry_new_def)
  have env: "se_create_mode example_server = Inline" "se_max_sessions example_server = 2"
    "re_fs (se_reload example_server) = example_fs" "re_store (se_reload example_server) = example_store"
    "se_ca_certificate_pem example_server = Some ''PEM''" "se_seed example_server = Some ''seed''"
    "se_random example_server = Some (replicate 16 0xA5)" "re_b64url (se_reload example_server) = (\<lambda>m. m)"
    by (simp_all add: example_server_def example_reload_def)
  have eph: "\<not> sc_persistent example_ephemeral" by (simp add: example_ephemeral_def)
  have acc: "rg_accepting_sessions registry_new" by (simp add: registry_new_def)
  obtain socket where "create_start example_server example_ephemeral [(''api.token'', ''ab'')] ''seed''
      (new_session_id (replicate 16 0xA5)) =
      Inr (runtime_start (\<lambda>k m. m) (\<lambda>m. m) example_ephemeral [(''api.token'', ''ab'')] ''seed'' socket 1)"
    using start by blast
  with reserve [of "new_session_id (replicate 16 0xA5)"] show ?thesis
    by (simp add: respond_def with_slot_def create_session_response_def create_def env res example_daemon_def
        create_commit_def create_release_def acc Let_def eph runtime_start_def)
qed

lemma example_handled_any:
  assumes "delivered events = Some (to_be_bytes 1 @ ''x'')"
  shows "\<exists>socket d'. handle_connection example_server (\<lambda>_ r. r) (Some 7) events True example_daemon =
     (Some (SuccessResponse (CreatedValue (new_session_id (replicate 16 0xA5)) socket False ''PEM'' ''seed'')), d')"
  using example_create handle_connection_accepted [OF example_accepted [OF assms], of "\<lambda>_ r. r" True example_daemon]
  by auto

lemmas example_handled = example_handled_any [of example_events, unfolded example_events_def, simplified,
  folded example_events_def]

theorem control_connection_guarded_witness:
  "handle_connection example_server (\<lambda>_ r. r) (Some 8) example_events True example_daemon =
     (Some (error_value ERR_UNAUTHORIZED), example_daemon) \<and>
   dm_slots (snd (handle_connection example_server (\<lambda>_ r. r) (Some 8) example_events True example_daemon)) = 1"
proof -
  have h: "handle_connection example_server (\<lambda>_ r. r) (Some 8) example_events True example_daemon =
      (Some (error_value ERR_UNAUTHORIZED), example_daemon)"
    by (simp add: handle_connection_def example_server_def)
  from control_connection_guarded [OF h] h show ?thesis by (simp add: example_daemon_def)
qed

theorem creation_authorized_witness:
  "\<exists>request session source. accepted_request example_server (Some 7) example_events request \<and>
     asks_for example_server request session source \<and> \<not> sc_persistent session"
proof -
  obtain socket d' where "handle_connection example_server (\<lambda>_ r. r) (Some 7) example_events True example_daemon =
     (Some (SuccessResponse (CreatedValue (new_session_id (replicate 16 0xA5)) socket False ''PEM'' ''seed'')), d')"
    using example_handled by blast
  from creation_authorized [OF this] show ?thesis by blast
qed

theorem ephemeral_lease_ends_witness:
  "\<exists>socket d'. handle_connection example_server (\<lambda>_ r. r) (Some 7) example_events True example_daemon =
     (Some (SuccessResponse (CreatedValue (new_session_id (replicate 16 0xA5)) socket False ''PEM'' ''seed'')), d') \<and>
     rg_sessions (dm_registry d') (new_session_id (replicate 16 0xA5)) = None"
proof -
  obtain socket d' where h: "handle_connection example_server (\<lambda>_ r. r) (Some 7) example_events True example_daemon =
     (Some (SuccessResponse (CreatedValue (new_session_id (replicate 16 0xA5)) socket False ''PEM'' ''seed'')), d')"
    using example_handled by blast
  from ephemeral_lease_ends [OF h] have "rg_sessions (dm_registry d') (new_session_id (replicate 16 0xA5)) = None"
    by simp
  with h show ?thesis by blast
qed

end
