(* ===== verification/Client_Wire.thy ===== *)
theory Client_Wire
  imports Session_Validation
begin

text \<open>
  The create request of the client (\<open>CreateRequest::new\<close> in \<open>crates/baffle-client/src/lib.rs\<close>)
  and its way to the daemon. \<open>create_request_new\<close> builds the wire structures. The derived
  serializer skips empty fields and the derived deserializer gives a missing field its default;
  \<open>wire_to_raw\<close> is that composition, the TOML text between being the business of the \<open>toml\<close>
  crate. The round trip shows that the daemon validates exactly the policy the client sent.
\<close>

subsection \<open>Wire structures\<close>

record named_host_rule =
  nh_mode :: rule_mode
  nh_ports :: "u16 list"
  nh_paths :: "string list"
  nh_inject :: "header_injection list"

record credential_config_wire =
  cw_default_mode :: "credential_mode option"
  cw_overrides :: "(string \<times> credential_mode) list"

record session_config_wire =
  sw_version :: int
  sw_persistent :: bool
  sw_socket_name :: "string option"
  sw_unmatched :: unmatched_host_policy
  sw_credentials :: "credential_config_wire option"
  sw_rules :: "(string \<times> named_host_rule) list"

record create_request =
  cq_version :: int
  cq_operation :: string
  cq_session :: session_config_wire

definition PROTOCOL_VERSION :: int where
  "PROTOCOL_VERSION = 2"

definition named_rule :: "host_rule \<Rightarrow> named_host_rule" where
  "named_rule rule = \<lparr>nh_mode = hr_mode rule, nh_ports = hr_ports rule, nh_paths = hr_paths rule,
     nh_inject = hr_inject rule\<rparr>"

fun insert_rules :: "(string \<times> named_host_rule) list \<Rightarrow> host_rule list \<Rightarrow>
    string + (string \<times> named_host_rule) list" where
  "insert_rules rules [] = Inr rules"
| "insert_rules rules (rule # rest) =
     (if map_of rules (hr_host rule) \<noteq> None
      then Inl ''session configuration contains duplicate host rules''
      else insert_rules (bt_insert (hr_host rule) (named_rule rule) rules) rest)"

definition create_request_new :: "session_config \<Rightarrow> string + create_request" where
  "create_request_new config =
     and_then (insert_rules [] (sc_rules config)) (\<lambda>rules.
     Inr \<lparr>cq_version = PROTOCOL_VERSION, cq_operation = ''create'',
       cq_session = \<lparr>sw_version = SESSION_CONFIG_VERSION, sw_persistent = sc_persistent config,
         sw_socket_name = sc_socket_name config, sw_unmatched = sc_unmatched config,
         sw_credentials =
           (if sc_default_credential_mode config \<noteq> None \<or> sc_credential_modes config \<noteq> []
            then Some \<lparr>cw_default_mode = sc_default_credential_mode config,
              cw_overrides = sc_credential_modes config\<rparr>
            else None),
         sw_rules = rules\<rparr>\<rparr>)"

subsection \<open>Serialisation\<close>

definition injection_to_raw :: "header_injection \<Rightarrow> raw_header_injection" where
  "injection_to_raw i = \<lparr>rhi_header = hi_header i, rhi_secret = hi_secret i,
     rhi_format = hi_format i, rhi_username = hi_username i\<rparr>"

text \<open>\<open>skip_serializing_if = "Vec::is_empty"\<close> against an optional field of the reader.\<close>

definition skip_empty :: "'a list \<Rightarrow> 'a list option" where
  "skip_empty xs = (if xs = [] then None else Some xs)"

definition rule_to_raw :: "named_host_rule \<Rightarrow> raw_named_rule" where
  "rule_to_raw r = \<lparr>rnr_mode = Some (nh_mode r), rnr_ports = nh_ports r,
     rnr_paths = skip_empty (nh_paths r), rnr_inject = skip_empty (map injection_to_raw (nh_inject r))\<rparr>"

definition wire_to_raw :: "session_config_wire \<Rightarrow> 'v raw_session_config" where
  "wire_to_raw w = \<lparr>rsc_version = Some (sw_version w), rsc_persistent = sw_persistent w,
     rsc_socket_name = sw_socket_name w,
     rsc_unmatched = (case sw_unmatched w of Deny \<Rightarrow> None | Tunnel \<Rightarrow> Some ''tunnel''),
     rsc_rules = Some (Named (map (\<lambda>(h, r). (h, rule_to_raw r)) (sw_rules w))),
     rsc_credentials = (case sw_credentials w of None \<Rightarrow> None
       | Some c \<Rightarrow> Some \<lparr>rcr_default_mode = cw_default_mode c, rcr_overrides = cw_overrides c\<rparr>),
     rsc_unsupported_fields = []\<rparr>"

subsection \<open>The round trip\<close>

text \<open>A policy the daemon can accept: well formed, with hosts that its parser accepts.\<close>

definition sendable :: "host_parser \<Rightarrow> session_config \<Rightarrow> bool" where
  "sendable hp c \<longleftrightarrow> wf_session c \<and>
     (\<forall>r \<in> set (sc_rules c). normalize_dns_name hp (hr_host r) = Inr (hr_host r))"

lemma insert_rules_Inr:
  assumes "bt_wf m"
  shows "insert_rules m rs = Inr out \<longleftrightarrow> distinct (map hr_host rs) \<and>
    hr_host ` set rs \<inter> dom (map_of m) = {} \<and>
    out = fold (\<lambda>r. bt_insert (hr_host r) (named_rule r)) rs m"
  using assms
proof (induction rs arbitrary: m)
  case (Cons r rs)
  have "dom (map_of (bt_insert (hr_host r) (named_rule r) m)) = insert (hr_host r) (dom (map_of m))"
    using Cons.prems by (simp add: bt_insert_lookup)
  with Cons.IH [OF bt_insert_wf [OF Cons.prems]] show ?case by auto
qed auto

text \<open>Inserting rules with distinct hosts one by one sorts them.\<close>

lemma bt_collect_sorts:
  assumes "distinct (map f xs)"
  shows "bt_collect (map (\<lambda>x. (f x, g x)) xs) = map (\<lambda>x. (f x, g x)) (sort_key f xs)"
    (is "bt_collect ?kvs = ?sorted")
proof (rule btree.entries_eqI)
  have keys: "distinct (map f (sort_key f xs))"
    using assms by (simp add: distinct_map)
  then show "bt_wf ?sorted"
    by (simp add: bt_wf_def strict_sorted_iff comp_def)
  have "map_of (rev ?kvs) = map_of ?sorted"
    using assms keys by (subst map_of_inject_set) (auto simp: comp_def rev_map [symmetric])
  then show "map_of (bt_collect ?kvs) = map_of ?sorted" by (simp add: bt_collect_lookup)
qed (rule bt_collect_wf)

lemma insert_rules_sorted:
  "insert_rules [] rs = Inr out \<longleftrightarrow> distinct (map hr_host rs) \<and>
     out = map (\<lambda>r. (hr_host r, named_rule r)) (sort_key hr_host rs)"
proof -
  have "fold (\<lambda>r. bt_insert (hr_host r) (named_rule r)) rs [] =
      bt_collect (map (\<lambda>r. (hr_host r, named_rule r)) rs)"
    by (simp add: bt_collect_def fold_map comp_def)
  then show ?thesis
    using bt_collect_sorts [of hr_host rs named_rule] by (auto simp: insert_rules_Inr)
qed

lemma raw_injection_to_raw [simp]: "raw_injection (injection_to_raw i) = i"
  by (simp add: raw_injection_def injection_to_raw_def)

lemma raw_rule_to_raw: "raw_rule (hr_host r) (rule_to_raw (named_rule r)) = r"
  by (cases r) (simp add: raw_rule_def rule_to_raw_def named_rule_def skip_empty_def comp_def)

lemma raw_features_to_raw:
  "raw_features (rule_to_raw (named_rule r)) \<longleftrightarrow> hr_paths r \<noteq> [] \<or> hr_inject r \<noteq> []"
  by (auto simp: raw_features_def rule_to_raw_def named_rule_def skip_empty_def)

lemma validate_sent_rules:
  assumes "\<forall>r \<in> set rs. wf_rule r \<and> normalize_dns_name hp (hr_host r) = Inr (hr_host r)"
    and "distinct (map hr_host rs)" "hr_host ` set rs \<inter> set hosts = {}"
  shows "validate_named_rules_from hp index hosts
    (map (\<lambda>r. (hr_host r, rule_to_raw (named_rule r))) rs) = Inr rs"
  using assms
proof (induction rs arbitrary: index hosts)
  case (Cons r rs)
  have "hr_mode r = TunnelMode \<Longrightarrow> hr_paths r = [] \<and> hr_inject r = []"
    using Cons.prems(1) by (simp add: wf_rule_def)
  then have "raw_features (rule_to_raw (named_rule r)) \<longrightarrow> hr_mode r = InterceptMode"
    using rule_mode.exhaust by (auto simp: raw_features_to_raw)
  moreover have "wf_rule r" using Cons.prems(1) by simp
  ultimately have "validate_rule r ctx (raw_features (rule_to_raw (named_rule r))) = Inr r"
    for ctx by (rule validate_rule_wf [rotated])
  with Cons show ?case
    by (simp add: validate_named_rules_Cons raw_rule_to_raw del: validate_named_rules_from.simps)
qed simp

lemma validate_wire_rules:
  assumes "sendable hp c"
  shows "validate_named_rules hp
    (map (\<lambda>(h, r). (h, rule_to_raw r))
      (map (\<lambda>r. (hr_host r, named_rule r)) (sort_key hr_host (sc_rules c))))
    = Inr (sort_key hr_host (sc_rules c))"
  using assms validate_sent_rules [of "sort_key hr_host (sc_rules c)" hp "[]" 0]
  by (simp add: validate_named_rules_def sendable_def wf_session_def comp_def distinct_map)

lemma validate_wire_credentials:
  assumes "wf_session c"
  shows "validate_credentials (case (if sc_default_credential_mode c \<noteq> None \<or> sc_credential_modes c \<noteq> []
        then Some \<lparr>cw_default_mode = sc_default_credential_mode c, cw_overrides = sc_credential_modes c\<rparr>
        else None) of None \<Rightarrow> None
      | Some w \<Rightarrow> Some \<lparr>rcr_default_mode = cw_default_mode w, rcr_overrides = cw_overrides w\<rparr>)
    = Inr (sc_default_credential_mode c, sc_credential_modes c)"
  using assms btree.wf_distinct [of "sc_credential_modes c"]
  by (auto simp: validate_credentials_Inr wf_session_def bt_collect_id)

subsection \<open>Properties\<close>

text \<open>
  C35. Sending a policy and validating it on the other side loses nothing: the request can be
  built, and the daemon accepts exactly that policy, with its rules ordered by host.
\<close>

theorem create_request_roundtrip:
  assumes "sendable hp c"
  shows "\<exists>q. create_request_new c = Inr q \<and> validate_session_document hp (wire_to_raw (cq_session q)) =
    Inr (c\<lparr>sc_rules := sort_key hr_host (sc_rules c)\<rparr>)"
proof -
  let ?c = "c\<lparr>sc_rules := sort_key hr_host (sc_rules c)\<rparr>"
  from assms have wf: "wf_session c" and d: "distinct (map hr_host (sc_rules c))"
    by (auto simp: sendable_def wf_session_def)
  then obtain q where q: "create_request_new c = Inr q"
    by (simp add: create_request_new_def insert_rules_sorted result_simps)
  then have rules: "sw_rules (cq_session q) =
      map (\<lambda>r. (hr_host r, named_rule r)) (sort_key hr_host (sc_rules c))"
    by (auto simp: create_request_new_def insert_rules_sorted result_simps)
  have "validate_session_document hp (wire_to_raw (cq_session q)) = Inr ?c"
    unfolding validate_session_document_Inr
    using q wf validate_wire_rules [OF assms] validate_wire_credentials [OF wf]
    by (auto simp: create_request_new_def result_simps wire_to_raw_def insert_rules_sorted
        wf_session_def split: unmatched_host_policy.split option.split)
  with q show ?thesis by blast
qed

theorem create_request_roundtrip_witness:
  "sendable plain_hosts example_session \<and>
   (\<exists>q. create_request_new example_session = Inr q \<and>
      validate_session_document plain_hosts (wire_to_raw (cq_session q) :: unit raw_session_config) =
        Inr (example_session\<lparr>sc_rules := rev (sc_rules example_session)\<rparr>))"
proof -
  have wf: "wf_session example_session"
    by (rule validate_session_document_makes_wf [OF plain_hosts_law example_document])
  have s: "sendable plain_hosts example_session"
    unfolding sendable_def using wf by (simp add: example_session_def normalize_example)
  have "sort_key hr_host (sc_rules example_session) = rev (sc_rules example_session)"
    by (simp add: example_session_def less_list_code less_char_def eval_simps)
  then show ?thesis using s create_request_roundtrip [OF s] by metis
qed

end
