(* ===== verification/Client_Api.thy ===== *)
theory Client_Api
  imports Control_Server Client_Wire
begin

text \<open>
  The operations of the client: \<open>Client\<close>, \<open>exchange\<close>, \<open>success_result\<close> and \<open>map_remote_error\<close> of
  \<open>crates/baffle-client/src/lib.rs\<close>. One operation opens one connection; a server is a function
  that takes the bytes of a request and its own state, and gives what the connection delivers
  (\<open>None\<close> when it cannot be opened or written) and the new state. The TOML serializer of requests
  and the JSON deserializer of responses are the parameters in \<open>codec\<close>.
\<close>

subsection \<open>Exchange\<close>

record 'j envelope =
  ev_version :: int
  ev_ok :: bool
  ev_result :: "'j option"
  ev_error :: "(string \<times> string) option"

record create_result =
  cr_id :: string
  cr_socket :: string
  cr_persistent :: bool
  cr_ca_certificate_pem :: "string option"
  cr_credential_seed_base64url :: "string option"

datatype client_request =
    CreateRequest create_request
  | CreateFromFileRequest string bool
  | StopRequest string
  | ReloadRequest string
  | ReloadAllRequest
  | ListRequest

record 'j codec =
  to_toml :: "client_request \<Rightarrow> string option"
  from_json :: "string \<Rightarrow> 'j envelope option"
  as_create :: "'j \<Rightarrow> create_result option"
  as_stop :: "'j \<Rightarrow> bool option"
  as_reload :: "'j \<Rightarrow> reload_result option"
  as_reload_all :: "'j \<Rightarrow> reload_result list option"
  as_list :: "'j \<Rightarrow> session_info list option"

type_synonym 's server = "string \<Rightarrow> 's \<Rightarrow> control_event list option \<times> 's"

definition map_remote_error :: "string \<Rightarrow> string \<Rightarrow> client_error" where
  "map_remote_error code message =
     (if code = ''unauthorized'' \<or> code = ''secret_unavailable'' then Authorization message
      else if code = ''invalid_request'' then InvalidPolicy message
      else if code = ''unsupported_version'' then ProtocolMismatch message
      else if code = ''busy'' \<or> code = ''session_limit'' then CapacityLimit message
      else if code = ''session_not_found'' then SessionNotFound message
      else if code = ''config_file_not_found'' then SessionConfigNotFound message
      else if code = ''config_file_unavailable'' then SessionConfigUnavailable message
      else if code = ''config_file_invalid'' then SessionConfigInvalid message
      else if code = ''ephemeral_required'' then InvalidPolicy message
      else if code = ''operation_not_allowed'' then OperationNotAllowed message
      else if code = ''internal_error'' \<or> code = ''shutting_down'' then Provisioning message
      else ServerError code message)"

definition open_envelope :: "'j envelope \<Rightarrow> client_error + 'j" where
  "open_envelope envelope =
     (if ev_version envelope \<noteq> PROTOCOL_VERSION
      then Inl (ProtocolMismatch (''client supports version '' @ nat_to_string (nat PROTOCOL_VERSION) @
        '', daemon returned version '' @ nat_to_string (nat (ev_version envelope))))
      else if ev_ok envelope then ok_or (Protocol ''successful response has no result'') (ev_result envelope)
      else and_then (ok_or (Protocol ''failed response has no error'') (ev_error envelope))
        (\<lambda>(code, message). Inl (map_remote_error code message)))"

definition exchange :: "'j codec \<Rightarrow> 's server \<Rightarrow> client_request \<Rightarrow> 's \<Rightarrow> (client_error + 'j) \<times> 's" where
  "exchange c server request s =
     (case request_frame (to_toml c request) of
        Inl e \<Rightarrow> (Inl e, s)
      | Inr bytes \<Rightarrow>
          (case server bytes s of
             (delivery, s) \<Rightarrow>
               (and_then (ok_or Transport delivery) (\<lambda>events.
                and_then (read_response_frame events) (\<lambda>(body, _).
                and_then (ok_or (Protocol ''response is not valid JSON'') (from_json c body)) open_envelope)), s)))"

definition success_result :: "('j \<Rightarrow> 'a option) \<Rightarrow> client_error + 'j \<Rightarrow> client_error + 'a" where
  "success_result as response =
     and_then response (\<lambda>v. ok_or (Protocol ''result does not match the operation response'') (as v))"

subsection \<open>Operations\<close>

record session =
  ses_id :: string
  ses_socket_path :: string
  ses_persistent :: bool
  ses_ca_certificate_pem :: "string option"
  ses_credential_seed_base64url :: "string option"
  ses_lease :: bool

definition session_of :: "create_result \<Rightarrow> session" where
  "session_of created = \<lparr>ses_id = cr_id created, ses_socket_path = cr_socket created,
     ses_persistent = cr_persistent created, ses_ca_certificate_pem = cr_ca_certificate_pem created,
     ses_credential_seed_base64url = cr_credential_seed_base64url created, ses_lease = (\<not> cr_persistent created)\<rparr>"

definition client_create :: "'j codec \<Rightarrow> 's server \<Rightarrow> session_config \<Rightarrow> 's \<Rightarrow> (client_error + session) \<times> 's" where
  "client_create c server config s =
     (case create_request_new config of
        Inl message \<Rightarrow> (Inl (Protocol message), s)
      | Inr request \<Rightarrow>
          (case exchange c server (CreateRequest request) s of
             (response, s) \<Rightarrow> (and_then (success_result (as_create c) response) (\<lambda>created. Inr (session_of created)), s)))"

definition client_stop :: "'j codec \<Rightarrow> 's server \<Rightarrow> string \<Rightarrow> 's \<Rightarrow> (client_error + unit) \<times> 's" where
  "client_stop c server session_id s =
     (case exchange c server (StopRequest session_id) s of
        (response, s) \<Rightarrow>
          (and_then (success_result (as_stop c) response) (\<lambda>stopped.
           if \<not> stopped then Inl (Protocol ''daemon did not confirm that the session stopped'') else Inr ()), s))"

text \<open>The display of an error, which the cleanup below puts into its own message; \<open>source\<close> is the text
  of the I/O or TOML error below it.\<close>

fun display_error :: "string \<Rightarrow> client_error \<Rightarrow> string" where
  "display_error source (Authorization m) = ''authorization failed: '' @ m"
| "display_error source (InvalidPolicy m) = ''invalid policy: '' @ m"
| "display_error source (CapacityLimit m) = ''capacity limit: '' @ m"
| "display_error source (ProtocolMismatch m) = ''protocol mismatch: '' @ m"
| "display_error source (Provisioning m) = ''provisioning failed: '' @ m"
| "display_error source (SessionNotFound m) = ''session not found: '' @ m"
| "display_error source (SessionConfigNotFound m) = ''session configuration not found: '' @ m"
| "display_error source (SessionConfigUnavailable m) = ''session configuration unavailable: '' @ m"
| "display_error source (SessionConfigInvalid m) = ''invalid session configuration: '' @ m"
| "display_error source (OperationNotAllowed m) = ''operation not allowed: '' @ m"
| "display_error source Transport = ''control transport failed: '' @ source"
| "display_error source Serialization = ''could not encode request: '' @ source"
| "display_error source (Protocol m) = ''control protocol error: '' @ m"
| "display_error source (ServerError code m) = ''daemon error '' @ code @ '': '' @ m"

definition create_from_file_with_requirement :: "string \<Rightarrow> 'j codec \<Rightarrow> 's server \<Rightarrow> string \<Rightarrow> bool \<Rightarrow> 's \<Rightarrow>
    (client_error + session) \<times> 's" where
  "create_from_file_with_requirement source c server name require_ephemeral s =
     (case validate_session_config_name name of
        Inl message \<Rightarrow> (Inl (InvalidPolicy message), s)
      | Inr _ \<Rightarrow>
          (case exchange c server (CreateFromFileRequest name require_ephemeral) s of
             (response, s) \<Rightarrow>
               (case success_result (as_create c) response of
                  Inl e \<Rightarrow> (Inl e, s)
                | Inr created \<Rightarrow>
                    if require_ephemeral \<and> cr_persistent created
                    then (case client_stop c server (cr_id created) s of
                        (Inr _, s) \<Rightarrow> (Inl (Protocol (''daemon returned a persistent session despite require_ephemeral; ''
                          @ ''the session was stopped'')), s)
                      | (Inl error, s) \<Rightarrow> (Inl (Protocol (''daemon returned a persistent session despite require_ephemeral; ''
                          @ ''stopping the session failed: '' @ display_error source error)), s))
                    else (Inr (session_of created), s))))"

definition client_reload :: "'j codec \<Rightarrow> 's server \<Rightarrow> string \<Rightarrow> 's \<Rightarrow> (client_error + reload_result) \<times> 's" where
  "client_reload c server session_id s =
     (case exchange c server (ReloadRequest session_id) s of (response, s) \<Rightarrow> (success_result (as_reload c) response, s))"

definition client_reload_all :: "'j codec \<Rightarrow> 's server \<Rightarrow> 's \<Rightarrow> (client_error + reload_result list) \<times> 's" where
  "client_reload_all c server s =
     (case exchange c server ReloadAllRequest s of (response, s) \<Rightarrow> (success_result (as_reload_all c) response, s))"

definition client_list :: "'j codec \<Rightarrow> 's server \<Rightarrow> 's \<Rightarrow> (client_error + session_info list) \<times> 's" where
  "client_list c server s =
     (case exchange c server ListRequest s of (response, s) \<Rightarrow> (success_result (as_list c) response, s))"

definition create_from_file :: "string \<Rightarrow> 'j codec \<Rightarrow> 's server \<Rightarrow> string \<Rightarrow> 's \<Rightarrow> (client_error + session) \<times> 's" where
  "create_from_file source c server name = create_from_file_with_requirement source c server name False"

definition create_ephemeral_from_file :: "string \<Rightarrow> 'j codec \<Rightarrow> 's server \<Rightarrow> string \<Rightarrow> 's \<Rightarrow> (client_error + session) \<times> 's" where
  "create_ephemeral_from_file source c server name = create_from_file_with_requirement source c server name True"

text \<open>\<open>Client::reload\<close> and \<open>Client::reload_all\<close>: the results without the diagnostics.\<close>

definition without_detail :: "reload_result \<Rightarrow> reload_result" where
  "without_detail result = result\<lparr>rr_detail := None\<rparr>"

definition client_reload_result :: "'j codec \<Rightarrow> 's server \<Rightarrow> string \<Rightarrow> 's \<Rightarrow> (client_error + reload_result) \<times> 's" where
  "client_reload_result c server session_id s =
     (case client_reload c server session_id s of (r, s) \<Rightarrow> (and_then r (\<lambda>result. Inr (without_detail result)), s))"

definition client_reload_all_results :: "'j codec \<Rightarrow> 's server \<Rightarrow> 's \<Rightarrow> (client_error + reload_result list) \<times> 's" where
  "client_reload_all_results c server s =
     (case client_reload_all c server s of (r, s) \<Rightarrow> (and_then r (\<lambda>results. Inr (map without_detail results)), s))"

text \<open>\<open>Session::close\<close> takes the control connection out of the handle; the debug form has no secret.\<close>

definition session_close :: "session \<Rightarrow> session" where
  "session_close self = self\<lparr>ses_lease := False\<rparr>"

record session_debug =
  sd_id :: string
  sd_socket_path :: string
  sd_persistent :: bool
  sd_has_credential_seed :: bool
  sd_has_lease :: bool

definition session_fmt :: "session \<Rightarrow> session_debug" where
  "session_fmt self = \<lparr>sd_id = ses_id self, sd_socket_path = ses_socket_path self, sd_persistent = ses_persistent self,
     sd_has_credential_seed = (ses_credential_seed_base64url self \<noteq> None), sd_has_lease = ses_lease self\<rparr>"

text \<open>
  Whatever the daemon answers: a handle holds a lease exactly when its session is ephemeral, and
  an ephemeral session that was asked for is never returned as a persistent one.
\<close>

lemma session_of_lease [simp]: "ses_lease (session_of created) \<longleftrightarrow> \<not> ses_persistent (session_of created)"
  by (simp add: session_of_def)

lemma create_from_file_lease:
  assumes "create_from_file_with_requirement source c server name require_ephemeral s = (Inr session, s')"
  shows "(ses_lease session \<longleftrightarrow> \<not> ses_persistent session) \<and> (require_ephemeral \<longrightarrow> \<not> ses_persistent session)"
  using assms unfolding create_from_file_with_requirement_def
  by (auto simp: session_of_def split: sum.splits prod.splits if_splits)

lemma create_ephemeral_from_file_lease:
  "create_ephemeral_from_file source c server name s = (Inr session, s') \<Longrightarrow> ses_lease session \<and> \<not> ses_persistent session"
  unfolding create_ephemeral_from_file_def by (drule create_from_file_lease) simp

lemma session_fmt_redacts:
  "session_fmt (s\<lparr>ses_credential_seed_base64url := Some seed\<rparr>) = session_fmt (s\<lparr>ses_credential_seed_base64url := Some seed'\<rparr>)"
  by (simp add: session_fmt_def)

subsection \<open>Error codes\<close>

lemma respond_error_codes:
  assumes "respond env others request d = (ErrorResponse code message, lease, d')"
  shows "(code, message) \<in> {ERR_BUSY, ERR_OPERATION_NOT_ALLOWED, ERR_INTERNAL, ERR_EPHEMERAL_REQUIRED,
      ERR_SESSION_NOT_FOUND, ERR_SECRET_UNAVAILABLE, ERR_SESSION_LIMIT, ERR_SHUTTING_DOWN} \<or>
    code \<in> range create_code"
proof (cases request)
  case (Create v session)
  note e = create_session_response_error [of env others session None]
  show ?thesis
  proof (cases "se_create_mode env = Inline")
    case True
    with assms Create have w: "with_slot (create_session_response env others session None) d = (ErrorResponse code message, lease, d')"
      by (simp add: respond_def)
    from with_slot_eq [OF w] e show ?thesis by (fastforce simp: error_value_def)
  qed (use assms Create in \<open>auto simp: respond_def error_value_def\<close>)
next
  case (CreateFromFile v name eph)
  note e = create_session_response_error [of env others _ "Some name"]
  show ?thesis
  proof (cases "se_create_mode env = FileOnly")
    case True
    with assms CreateFromFile obtain f where w: "with_slot f d = (ErrorResponse code message, lease, d')"
      and f: "\<And>e. f e = (case re_configs (se_reload env) of
               None \<Rightarrow> (error_value ERR_INTERNAL, None, e)
             | Some store \<Rightarrow>
                 (case read_session store name of
                    Inl x \<Rightarrow> (ErrorResponse (create_code x) (fe_detail x), None, e)
                  | Inr session \<Rightarrow>
                      if eph \<and> sc_persistent session then (error_value ERR_EPHEMERAL_REQUIRED, None, e)
                      else create_session_response env others session (Some name) e))"
      by (auto simp: respond_def)
    from with_slot_eq [OF w] show ?thesis
      unfolding f by (auto simp: error_value_def dest: e split: option.splits sum.splits if_splits)
  qed (use assms CreateFromFile in \<open>auto simp: respond_def error_value_def\<close>)
qed (use assms in \<open>auto simp: respond_def error_value_def split: prod.splits bool.splits sum.splits\<close>)

subsection \<open>The daemon as a server\<close>

definition envelope_of :: "response \<Rightarrow> result_value envelope" where
  "envelope_of response = (case response of
       ErrorResponse code message \<Rightarrow> \<lparr>ev_version = PROTOCOL_VERSION, ev_ok = False, ev_result = None, ev_error = Some (code, message)\<rparr>
     | SuccessResponse v \<Rightarrow> \<lparr>ev_version = PROTOCOL_VERSION, ev_ok = True, ev_result = Some v, ev_error = None\<rparr>)"

definition client_view :: "response \<Rightarrow> client_error + result_value" where
  "client_view response = (case response of
       ErrorResponse code message \<Rightarrow> Inl (map_remote_error code message)
     | SuccessResponse v \<Rightarrow> Inr v)"

text \<open>
  One connection to the daemon by user \<open>uid\<close>: \<open>to_json\<close> writes responses (\<open>write_value\<close>), and \<open>chunked\<close> is
  how bytes are cut into chunks on their way.
\<close>

definition daemon_server :: "('v, 'w) server_env \<Rightarrow> waits \<Rightarrow> u32 \<Rightarrow> (response \<Rightarrow> string) \<Rightarrow> (string \<Rightarrow> control_event list) \<Rightarrow>
    daemon server" where
  "daemon_server env others uid to_json chunked bytes d =
     (case handle_connection env others (Some uid) (chunked bytes) True d of
        (None, d) \<Rightarrow> (Some [], d)
      | (Some response, d) \<Rightarrow>
          (case frame (to_json response) of
             None \<Rightarrow> (Some [], d)
           | Some bytes \<Rightarrow> (Some (chunked bytes), d)))"

lemma open_envelope_of: "open_envelope (envelope_of response) = client_view response"
  by (simp add: open_envelope_def envelope_of_def client_view_def split: response.split)

definition mapped_code :: "string \<Rightarrow> bool" where
  "mapped_code code \<longleftrightarrow> (\<forall>message. \<exists>e. map_remote_error code message = e \<and> (\<forall>c m. e \<noteq> ServerError c m))"

lemma mapped_codes:
  "mapped_code (create_code e)"
  "(code, message) \<in> {ERR_BUSY, ERR_OPERATION_NOT_ALLOWED, ERR_INTERNAL, ERR_EPHEMERAL_REQUIRED,
      ERR_SESSION_NOT_FOUND, ERR_SECRET_UNAVAILABLE, ERR_SESSION_LIMIT, ERR_SHUTTING_DOWN,
      ERR_UNAUTHORIZED, ERR_INVALID_REQUEST, ERR_UNSUPPORTED_VERSION} \<Longrightarrow> mapped_code code"
  by (auto simp: mapped_code_def map_remote_error_def create_code_def ERR_BUSY_def ERR_OPERATION_NOT_ALLOWED_def
      ERR_INTERNAL_def ERR_EPHEMERAL_REQUIRED_def ERR_SESSION_NOT_FOUND_def ERR_SECRET_UNAVAILABLE_def
      ERR_SESSION_LIMIT_def ERR_SHUTTING_DOWN_def ERR_UNAUTHORIZED_def ERR_INVALID_REQUEST_def
      ERR_UNSUPPORTED_VERSION_def split: file_error_kind.split)

lemma complete_frame_codes:
  assumes "read_request_frame events = Inr (Some body, rest)"
    and "handle_connection env others peer events write_ok d = (Some (ErrorResponse code message), d')"
  shows "mapped_code code"
proof (cases "\<exists>request. accepted_request env peer events request")
  case True
  then obtain request where a: "accepted_request env peer events request" ..
  obtain out lease d1 where r: "respond env others request d = (out, lease, d1)" by (metis prod_cases3)
  have "out = ErrorResponse code message"
    using assms(2) handle_connection_accepted [OF a] r by (cases lease) auto
  with respond_error_codes [of env others request d code message] r show ?thesis
    using mapped_codes by fastforce
next
  case False
  then have "(code, message) \<in> {ERR_UNAUTHORIZED, ERR_INVALID_REQUEST, ERR_UNSUPPORTED_VERSION}"
    using assms by (auto simp: handle_connection_def accepted_request_def error_value_def split: if_splits sum.splits)
  then show ?thesis using mapped_codes(2) by blast
qed

text \<open>
  C17. The client sees what the daemon answered: when the request fits a frame and the JSON of the
  answer fits one, an exchange, however both directions are cut into chunks, returns the result
  of a success and the mapped error of a failure, leaving the daemon in the state its handler
  left it; and the failure always has a meaning the client knows, never an unrecognised code.
\<close>

theorem client_sees_daemon:
  assumes "to_toml c request = Some body" "request_fits body" "frame body = Some bytes"
    and "\<And>bs. delivered (chunked bs) = Some bs"
    and "handle_connection env others (Some uid) (chunked bytes) True d = (Some response, d')"
    and "response_fits (to_json response)" "from_json c (to_json response) = Some (envelope_of response)"
  shows "exchange c (daemon_server env others uid to_json chunked) request d = (client_view response, d') \<and>
    (\<forall>code message. client_view response \<noteq> Inl (ServerError code message))"
proof -
  have req: "request_frame (to_toml c request) = Inr bytes"
    using assms(1-3) by (simp add: request_frame_def request_fits_def)
  obtain rbytes where rb: "frame (to_json response) = Some rbytes" using responses.fits_frame [OF assms(6)] by blast
  obtain es where "next_response (chunked rbytes) = Some (to_json response, es)"
    using responses.read_back [OF assms(6) rb, of "chunked rbytes" "[]"] assms(4) by auto
  then have resp: "read_response_frame (chunked rbytes) = Inr (to_json response, es)"
    by (auto simp: next_response_def split: sum.splits)
  have x: "exchange c (daemon_server env others uid to_json chunked) request d = (client_view response, d')"
    by (simp add: exchange_def req daemon_server_def assms(5,7) rb resp open_envelope_of)
  obtain rest where "next_request (chunked bytes) = Some (body, rest)"
    using requests.read_back [OF assms(2,3), of "chunked bytes" "[]"] assms(4) by auto
  then have "read_request_frame (chunked bytes) = Inr (Some body, rest)"
    by (auto simp: next_request_def split: sum.splits option.splits)
  note frame = this
  have "client_view response \<noteq> Inl (ServerError code message)" for code message
  proof (cases response)
    case (ErrorResponse c' m')
    then have "mapped_code c'" using complete_frame_codes [OF frame] assms(5) by blast
    then show ?thesis by (simp add: ErrorResponse client_view_def mapped_code_def)
  qed (simp add: client_view_def)
  with x show ?thesis by blast
qed

definition example_codec :: "response \<Rightarrow> result_value codec" where
  "example_codec response = \<lparr>to_toml = (\<lambda>_. Some ''x''), from_json = (\<lambda>_. Some (envelope_of response)),
     as_create = (\<lambda>_. None), as_stop = (\<lambda>_. None), as_reload = (\<lambda>_. None), as_reload_all = (\<lambda>_. None), as_list = (\<lambda>_. None)\<rparr>"

theorem client_sees_daemon_witness:
  "\<exists>sid socket. fst (exchange (example_codec (SuccessResponse (CreatedValue sid socket False ''PEM'' ''seed'')))
      (daemon_server example_server (\<lambda>_ r. r) 7 (\<lambda>_. ''j'') (\<lambda>bs. [Chunk bs])) ListRequest example_daemon) =
    Inr (CreatedValue sid socket False ''PEM'' ''seed'')"
proof -
  let ?cut = "\<lambda>bs. [Chunk bs]"
  have d: "delivered (?cut (to_be_bytes 1 @ ''x'')) = Some (to_be_bytes 1 @ ''x'')" by simp
  obtain socket d' where h: "handle_connection example_server (\<lambda>_ r. r) (Some 7) (?cut (to_be_bytes 1 @ ''x'')) True example_daemon =
     (Some (SuccessResponse (CreatedValue (new_session_id (replicate 16 0xA5)) socket False ''PEM'' ''seed'')), d')"
    using example_handled_any [OF d] by blast
  let ?r = "SuccessResponse (CreatedValue (new_session_id (replicate 16 0xA5)) socket False ''PEM'' ''seed'')"
  have f: "frame ''x'' = Some (to_be_bytes 1 @ ''x'')" by (simp add: frame_def)
  have "exchange (example_codec ?r) (daemon_server example_server (\<lambda>_ r. r) 7 (\<lambda>_. ''j'') ?cut) ListRequest example_daemon =
      (client_view ?r, d')"
    using client_sees_daemon [of "example_codec ?r" ListRequest "''x''", OF _ _ f, of ?cut example_server "\<lambda>_ r. r" 7
        example_daemon ?r d' "\<lambda>_. ''j''"] h
    by (simp add: example_codec_def request_fits_def response_fits_def MAX_REQUEST_BYTES_def MAX_RESPONSE_BYTES_def)
  then have "fst (exchange (example_codec ?r) (daemon_server example_server (\<lambda>_ r. r) 7 (\<lambda>_. ''j'') ?cut) ListRequest example_daemon) =
      Inr (CreatedValue (new_session_id (replicate 16 0xA5)) socket False ''PEM'' ''seed'')"
    by (simp add: client_view_def)
  then show ?thesis by blast
qed

end
