(* ===== verification/Socket_Directories.thy ===== *)
theory Socket_Directories
  imports Unix_Fs "HOL-Library.Multiset"
begin

text \<open>
  The proxy sockets of the runtime (\<open>proxy_runtime/rama/ingress.rs\<close>): binding a socket below
  directories that are created on the way, the guard that removes the socket again, and the
  registry of directory leases that is shared by the sessions of one manager. Also the system
  directory aliases of \<open>platform.rs\<close>, in their Linux form.

  The registry is a field that extends the world. Its map lock is held during a whole traversal
  and during the release of a guard's leases, so each of these is one program here. The socket
  name is text (it comes from the configuration), for which \<open>to_string_lossy\<close> is the
  identity.
\<close>

subsection \<open>State\<close>

text \<open>A \<open>DirectoryKey\<close> is the device and the inode number.\<close>

record directory_record =
  dr_parent :: file_id
  dr_name :: string
  dr_device :: u64
  dr_inode :: u64
  dr_path :: string
  dr_created_by_baffle :: bool
  dr_leases :: nat

record dir_world = world +
  dw_registry :: "file_id \<Rightarrow> directory_record option"

type_synonym ('e, 'a) dsys = "dir_world \<Rightarrow> ('e + 'a) \<times> dir_world"

record unix_socket_guard =
  ug_path :: string
  ug_parent :: file_id
  ug_name :: string
  ug_device :: u64
  ug_inode :: u64
  ug_created_directories :: "file_id list"

definition UNIX_SOCKET_PATH_BYTES :: nat where
  "UNIX_SOCKET_PATH_BYTES = 108"

subsection \<open>Directories\<close>

definition normalize_system_path :: "kernel \<Rightarrow> string \<Rightarrow> ('e, string, 'z) sys" where
  "normalize_system_path K path =
     (if take 3 (components path) = [RootDir, Normal ''var'', Normal ''run''] then
        sys_match (sys_stat K (path_loc K ''/var/run'') False) (\<lambda>r. case r of
          Inl e \<Rightarrow> sys_return path
        | Inr md \<Rightarrow>
            if md_kind md = Symlink then
              sys_match (sys_readlink K (path_loc K ''/var/run'')) (\<lambda>l. case l of
                Inl e \<Rightarrow> sys_return path
              | Inr target \<Rightarrow>
                  if components target = components ''/run''
                  then sys_return (path_join ''/run'' (path_of (drop 3 (components path))))
                  else sys_return path)
            else sys_return path)
      else sys_return path)"

definition same_directory :: "metadata \<Rightarrow> metadata \<Rightarrow> bool" where
  "same_directory md expected \<longleftrightarrow>
     md_kind md = Directory \<and> md_dev md = md_dev expected \<and> md_ino md = md_ino expected"

definition set_created_directory_mode :: "kernel \<Rightarrow> file_id \<Rightarrow> string \<Rightarrow> metadata \<Rightarrow> (io_error, unit, 'z) sys" where
  "set_created_directory_mode K parent name expected =
     sys_then (sys_open_dir K (Some parent, [name])) (\<lambda>directory.
     sys_then (sys_fstat K directory) (\<lambda>md.
       if \<not> same_directory md expected
       then sys_fail (Custom OtherErrorKind ''created socket directory changed before permission setup'')
       else sys_fchmod K directory 0x1C0))"

text \<open>Removal of an entry when it still passes a test; failures are only logged.\<close>

definition remove_if_matches :: "kernel \<Rightarrow> file_id \<Rightarrow> string \<Rightarrow> (metadata \<Rightarrow> bool) \<Rightarrow>
    (io_error, file_id, 'z) sys \<Rightarrow> ('e, unit, 'z) sys" where
  "remove_if_matches K parent name matches remove =
     sys_match (stat_at K parent name) (\<lambda>r. case r of
       Inr (Some md) \<Rightarrow> if matches md then sys_match remove (\<lambda>_. sys_return ()) else sys_return ()
     | _ \<Rightarrow> sys_return ())"

definition remove_directory_if :: "kernel \<Rightarrow> file_id \<Rightarrow> string \<Rightarrow> (metadata \<Rightarrow> bool) \<Rightarrow> ('e, unit, 'z) sys" where
  "remove_directory_if K parent name matches =
     remove_if_matches K parent name matches (sys_rmdir K (Some parent, [name]))"

definition remove_created_directory_if_unchanged :: "kernel \<Rightarrow> file_id \<Rightarrow> string \<Rightarrow> metadata \<Rightarrow> ('e, unit, 'z) sys" where
  "remove_created_directory_if_unchanged K parent name expected =
     remove_directory_if K parent name (\<lambda>md. same_directory md expected)"

text \<open>
  A new lease. The descriptor is cloned before the entry is looked up, so a failure leaves the
  registry as it was.
\<close>

definition add_lease :: "file_id \<Rightarrow> directory_record \<Rightarrow> bool \<Rightarrow> (io_error, file_id) dsys" where
  "add_lease key fresh created_by_baffle w =
     (let record = (case dw_registry w key of Some record \<Rightarrow> record | None \<Rightarrow> fresh) in
      (Inr key, w\<lparr>dw_registry := (dw_registry w)(key \<mapsto>
         record\<lparr>dr_created_by_baffle := dr_created_by_baffle record \<or> created_by_baffle,
                dr_leases := dr_leases record + 1\<rparr>)\<rparr>))"

definition register_directory :: "kernel \<Rightarrow> file_id \<Rightarrow> string \<Rightarrow> metadata \<Rightarrow> string \<Rightarrow> bool \<Rightarrow> (io_error, file_id) dsys" where
  "register_directory K parent name md path created_by_baffle =
     sys_then (sys_dup K parent) (\<lambda>clone.
       add_lease (Fid (md_dev md) (md_ino md))
         \<lparr>dr_parent = clone, dr_name = name, dr_device = md_dev md, dr_inode = md_ino md, dr_path = path,
          dr_created_by_baffle = created_by_baffle, dr_leases = 0\<rparr>
         created_by_baffle)"

definition forget_directory :: "file_id \<Rightarrow> ('e, unit) dsys" where
  "forget_directory key w = (Inr (), w\<lparr>dw_registry := (dw_registry w)(key := None)\<rparr>)"

text \<open>
  The end of a lease. The subtraction saturates, as it does on natural numbers. With the last
  lease the record goes, whether or not its directory could be removed.
\<close>

definition release_directory_lease :: "kernel \<Rightarrow> file_id \<Rightarrow> ('e, unit) dsys" where
  "release_directory_lease K key w =
     (case dw_registry w key of
        None \<Rightarrow> (Inr (), w)
      | Some old \<Rightarrow>
         (let record = old\<lparr>dr_leases := dr_leases old - 1\<rparr>;
              w1 = w\<lparr>dw_registry := (dw_registry w)(key \<mapsto> record)\<rparr>
          in if dr_leases record \<noteq> 0 then (Inr (), w1)
             else if \<not> dr_created_by_baffle record then forget_directory key w1
             else sys_then (remove_directory_if K (dr_parent record) (dr_name record) (\<lambda>md.
                 md_kind md = Directory \<and> md_dev md = dr_device record \<and> md_ino md = dr_inode record))
               (\<lambda>_. forget_directory key) w1))"

text \<open>Dropping a \<open>CreatedDirectorySet\<close>: its keys are released from the last one on.\<close>

fun release_directories :: "kernel \<Rightarrow> file_id list \<Rightarrow> ('e, unit) dsys" where
  "release_directories K [] = sys_return ()"
| "release_directories K (key # keys) =
     sys_then (release_directory_lease K key) (\<lambda>_. release_directories K keys)"

definition drop_created_directories :: "kernel \<Rightarrow> file_id list \<Rightarrow> ('e, unit) dsys" where
  "drop_created_directories K keys = release_directories K (rev keys)"

subsection \<open>The walk to the parent of a socket\<close>

text \<open>
  One component of the path once it is open: check it, restrict a new one, and lease it. A
  directory that was just made is taken back when this fails.
\<close>

definition undo_directory :: "kernel \<Rightarrow> file_id \<Rightarrow> string \<Rightarrow> metadata \<Rightarrow> bool \<Rightarrow> io_error \<Rightarrow> (io_error, 'a, 'z) sys" where
  "undo_directory K current name md made e =
     sys_then (if made then remove_created_directory_if_unchanged K current name md else sys_return ())
       (\<lambda>_. sys_fail e)"

definition lease_directory ::
  "kernel \<Rightarrow> file_id \<Rightarrow> string \<Rightarrow> string \<Rightarrow> bool \<Rightarrow> file_id \<Rightarrow> metadata \<Rightarrow> (io_error, file_id \<times> file_id \<times> string) dsys" where
  "lease_directory K current name normalized made next md =
     sys_match (register_directory K current name md (path_join normalized name) made) (\<lambda>registered. case registered of
       Inr key \<Rightarrow> sys_return (next, key, path_join normalized name)
     | Inl e \<Rightarrow> undo_directory K current name md made e)"

definition enter_directory ::
  "kernel \<Rightarrow> file_id \<Rightarrow> string \<Rightarrow> string \<Rightarrow> bool \<Rightarrow> file_id \<Rightarrow> (io_error, file_id \<times> file_id \<times> string) dsys" where
  "enter_directory K current name normalized made next =
     sys_then (sys_fstat K next) (\<lambda>md.
     if md_kind md \<noteq> Directory
     then sys_fail (Custom NotADirectoryKind ''socket path component is not a directory'')
     else if made then
       sys_match (set_created_directory_mode K current name md) (\<lambda>r. case r of
         Inl e \<Rightarrow> undo_directory K current name md made e
       | Inr _ \<Rightarrow> lease_directory K current name normalized made next md)
     else lease_directory K current name normalized made next md)"

definition open_component ::
  "kernel \<Rightarrow> file_id \<Rightarrow> string \<Rightarrow> string \<Rightarrow> (io_error, file_id \<times> file_id \<times> string) dsys" where
  "open_component K current name normalized =
     sys_match (sys_open_dir K (Some current, [name])) (\<lambda>r. case r of
       Inr fd \<Rightarrow> enter_directory K current name normalized False fd
     | Inl e \<Rightarrow>
         if io_kind_of e \<noteq> NotFoundKind then sys_fail e
         else sys_match (sys_mkdir K (Some current, [name]) 0x1C0) (\<lambda>m. case m of
           Inr _ \<Rightarrow>
             sys_then (sys_open_dir K (Some current, [name])) (enter_directory K current name normalized True)
         | Inl e' \<Rightarrow>
             if io_kind_of e' \<noteq> AlreadyExistsKind then sys_fail e'
             else sys_then (sys_open_dir K (Some current, [name]))
               (enter_directory K current name normalized False)))"

text \<open>The loop over the components; an error carries the leases that were taken before it.\<close>

fun open_components :: "kernel \<Rightarrow> component list \<Rightarrow> file_id \<Rightarrow> string \<Rightarrow> file_id list \<Rightarrow>
    (io_error \<times> file_id list, file_id \<times> file_id list) dsys" where
  "open_components K [] current normalized keys = sys_return (current, keys)"
| "open_components K (c # cs) current normalized keys =
     (case component_names c of
        [] \<Rightarrow> open_components K cs current normalized keys
      | name # _ \<Rightarrow>
          if CHR 0x00 \<in> set name
          then sys_fail (Custom InvalidInputKind ''invalid directory name'', keys)
          else sys_match (open_component K current name normalized) (\<lambda>r. case r of
            Inl e \<Rightarrow> sys_fail (e, keys)
          | Inr (next, key, normalized') \<Rightarrow> open_components K cs next normalized' (keys @ [key])))"

definition parent_or_dot :: "string \<Rightarrow> string" where
  "parent_or_dot path =
     (case parent_components (components path) of
        None \<Rightarrow> ''.''
      | Some cs \<Rightarrow> if cs = [] then ''.'' else path_of cs)"

definition absolute_path :: "kernel \<Rightarrow> string \<Rightarrow> (io_error, string, 'z) sys" where
  "absolute_path K path =
     (if is_absolute path then sys_return path
      else sys_then (sys_getcwd K) (\<lambda>cwd. sys_return (path_join cwd path)))"

definition open_socket_parent_locked ::
  "kernel \<Rightarrow> string \<Rightarrow> (io_error \<times> file_id list, file_id \<times> file_id list \<times> string) dsys" where
  "open_socket_parent_locked K path =
     sys_then (sys_context (\<lambda>e. (e, [])) (absolute_path K (parent_or_dot path))) (\<lambda>logical_absolute_parent.
     sys_then (normalize_system_path K logical_absolute_parent) (\<lambda>absolute_parent.
     sys_then (sys_context (\<lambda>e. (e, [])) (sys_open_dir K (None, []))) (\<lambda>root.
     sys_then (open_components K (components absolute_parent) root ''/'' []) (\<lambda>(current, keys).
       case file_name path of
         None \<Rightarrow> sys_fail (Custom InvalidInputKind ''missing socket name'', keys)
       | Some name \<Rightarrow> sys_return (current, keys, path_join logical_absolute_parent name)))))"

definition open_socket_parent :: "kernel \<Rightarrow> string \<Rightarrow> (io_error, file_id \<times> file_id list \<times> string) dsys" where
  "open_socket_parent K path =
     sys_match (open_socket_parent_locked K path) (\<lambda>r. case r of
       Inr ok \<Rightarrow> sys_return ok
     | Inl (e, keys) \<Rightarrow> sys_then (drop_created_directories K keys) (\<lambda>_. sys_fail e))"

subsection \<open>The guard of a socket\<close>

definition guard_matches :: "unix_socket_guard \<Rightarrow> metadata \<Rightarrow> bool" where
  "guard_matches guard md \<longleftrightarrow>
     md_kind md = SocketFile \<and> md_dev md = ug_device guard \<and> md_ino md = ug_inode guard"

definition unlink_owned :: "kernel \<Rightarrow> unix_socket_guard \<Rightarrow> ('e, unit, 'z) sys" where
  "unlink_owned K guard =
     remove_if_matches K (ug_parent guard) (ug_name guard) (guard_matches guard)
       (sys_unlink K (Some (ug_parent guard), [ug_name guard]))"

text \<open>Dropping the guard runs \<open>unlink_owned\<close> and then drops its directory set.\<close>

definition drop_guard :: "kernel \<Rightarrow> unix_socket_guard \<Rightarrow> ('e, unit) dsys" where
  "drop_guard K guard =
     sys_then (unlink_owned K guard) (\<lambda>_. drop_created_directories K (ug_created_directories guard))"

text \<open>
  An error after the socket was bound drops what was made so far: the guard once there is one,
  else the directory set, and the listener.
\<close>

definition restrict_socket :: "kernel \<Rightarrow> file_id \<Rightarrow> unix_socket_guard \<Rightarrow> (io_error, file_id \<times> unix_socket_guard) dsys" where
  "restrict_socket K listener guard =
     (let loc = (Some (ug_parent guard), [ug_name guard]);
          abandon = (\<lambda>e. sys_then (drop_guard K guard) (\<lambda>_. sys_match (sys_close K listener) (\<lambda>_. sys_fail e)))
      in sys_match (sys_chmod K loc 0x180) (\<lambda>r. case r of
           Inl e \<Rightarrow> abandon e
         | Inr _ \<Rightarrow>
             sys_match (stat_at K (ug_parent guard) (ug_name guard)) (\<lambda>c. case c of
               Inl e \<Rightarrow> abandon e
             | Inr current \<Rightarrow>
                 if (case current of None \<Rightarrow> True
                     | Some md \<Rightarrow> \<not> guard_matches guard md \<or> md_mode md AND 0x1FF \<noteq> 0x180)
                 then abandon (Custom OtherErrorKind ''bound Unix socket identity or permissions changed'')
                 else sys_return (listener, guard))))"

definition bind_in_parent :: "kernel \<Rightarrow> string \<Rightarrow> file_id \<times> file_id list \<times> string \<Rightarrow> (io_error, file_id \<times> unix_socket_guard) dsys" where
  "bind_in_parent K name opened = (case opened of (parent, created_directories, normalized) \<Rightarrow>
     let abandon = (\<lambda>e. sys_then (drop_created_directories K created_directories) (\<lambda>_. sys_fail e))
     in sys_match (stat_at K parent name) (\<lambda>r. case r of
          Inl e \<Rightarrow> abandon e
        | Inr (Some _) \<Rightarrow> abandon (Custom AlreadyExistsKind ''socket path exists'')
        | Inr None \<Rightarrow>
            sys_match (sys_bind K (Some parent, [name])) (\<lambda>b. case b of
              Inl e \<Rightarrow> abandon e
            | Inr listener \<Rightarrow>
                sys_match (stat_at K parent name) (\<lambda>s. case s of
                  Inl e \<Rightarrow> sys_match (sys_close K listener) (\<lambda>_. abandon e)
                | Inr None \<Rightarrow>
                    sys_match (sys_close K listener)
                      (\<lambda>_. abandon (Custom OtherErrorKind ''bound Unix socket disappeared''))
                | Inr (Some identity) \<Rightarrow>
                    restrict_socket K listener
                      \<lparr>ug_path = normalized, ug_parent = parent, ug_name = name, ug_device = md_dev identity,
                       ug_inode = md_ino identity, ug_created_directories = created_directories\<rparr>))))"

definition bind_unix_listener :: "kernel \<Rightarrow> string \<Rightarrow> (io_error, file_id \<times> unix_socket_guard) dsys" where
  "bind_unix_listener K path =
     sys_then (absolute_path K path) (\<lambda>absolute.
     if length absolute \<ge> UNIX_SOCKET_PATH_BYTES
     then sys_fail (Custom InvalidInputKind ''Unix socket path is too long'')
     else case file_name absolute of
       None \<Rightarrow> sys_fail (Custom InvalidInputKind ''missing socket name'')
     | Some name \<Rightarrow>
         if CHR 0x00 \<in> set name then sys_fail (Custom InvalidInputKind ''invalid socket name'')
         else sys_then (open_socket_parent K absolute) (bind_in_parent K name))"

subsection \<open>Ownership\<close>

text \<open>
  The node that a later check will compare with was made by a call of the runtime's own, unless
  another process put a node of its own in place before the next call looked.
\<close>

definition mkdir_owned :: "kernel \<Rightarrow> (nat \<times> fs_event) list \<Rightarrow> nat \<Rightarrow> file_id \<Rightarrow> bool" where
  "mkdir_owned K log t key \<longleftrightarrow>
     (\<exists>t0 loc i. (t0, Ev_Mkdir loc i) \<in> set log \<and> t0 < t \<and> (quiet K (Suc t0) \<longrightarrow> key = i))"

definition bind_owned :: "kernel \<Rightarrow> (nat \<times> fs_event) list \<Rightarrow> nat \<Rightarrow> location \<Rightarrow> file_id \<Rightarrow> bool" where
  "bind_owned K log t loc key \<longleftrightarrow>
     (\<exists>t0 i. (t0, Ev_Bind loc i) \<in> set log \<and> t0 < t \<and> (quiet K (Suc t0) \<longrightarrow> key = i))"

fun removal_owned :: "kernel \<Rightarrow> (nat \<times> fs_event) list \<Rightarrow> nat \<times> fs_event \<Rightarrow> bool" where
  "removal_owned K log (t, Ev_Unlink loc v nd) \<longleftrightarrow>
     (\<exists>key. bind_owned K log t loc key \<and> (quiet K t \<longrightarrow> v = key))"
| "removal_owned K log (t, Ev_Rmdir loc v) \<longleftrightarrow>
     (\<exists>key. mkdir_owned K log t key \<and> (quiet K t \<longrightarrow> v = key))"
| "removal_owned K log _ \<longleftrightarrow> True"

definition removals_owned :: "kernel \<Rightarrow> (nat \<times> fs_event) list \<Rightarrow> bool" where
  "removals_owned K log \<longleftrightarrow> (\<forall>e \<in> set log. removal_owned K log e)"

lemma owned_mono:
  "mkdir_owned K log t key \<Longrightarrow> set log \<subseteq> set log' \<Longrightarrow> t \<le> t' \<Longrightarrow> mkdir_owned K log' t' key"
  "bind_owned K log t loc key \<Longrightarrow> set log \<subseteq> set log' \<Longrightarrow> t \<le> t' \<Longrightarrow> bind_owned K log' t' loc key"
  unfolding mkdir_owned_def bind_owned_def
  by (elim exE conjE; intro exI conjI; (erule subsetD)?; simp?)+

lemma removal_owned_mono:
  "removal_owned K log e \<Longrightarrow> set log \<subseteq> set log' \<Longrightarrow> removal_owned K log' e"
  by (cases "(K, log, e)" rule: removal_owned.cases) (auto intro: owned_mono)

lemma removals_owned_append:
  assumes "removals_owned K log" "\<And>e. e \<in> set new \<Longrightarrow> removal_owned K (new @ log) e"
  shows "removals_owned K (new @ log)"
  using assms removal_owned_mono [of K log _ "new @ log"] by (auto simp: removals_owned_def)

lemma not_removal_owned: "\<not> is_removal ev \<Longrightarrow> removal_owned K log (t, ev)"
  by (cases ev) auto

text \<open>
  The invariant of the registry: every record counts the leases that are held, no record is
  kept without one, and a record that claims its directory knows the call that made it.
\<close>

definition record_ok :: "kernel \<Rightarrow> file_id multiset \<Rightarrow> (nat \<times> fs_event) list \<Rightarrow> nat \<Rightarrow> file_id \<Rightarrow>
    directory_record option \<Rightarrow> bool" where
  "record_ok K held log t key entry \<longleftrightarrow> (case entry of
     None \<Rightarrow> count held key = 0
   | Some record \<Rightarrow> dr_leases record = count held key \<and> 0 < count held key \<and>
       Fid (dr_device record) (dr_inode record) = key \<and>
       (dr_created_by_baffle record \<longrightarrow> mkdir_owned K log t key))"

definition registry_ok :: "kernel \<Rightarrow> file_id multiset \<Rightarrow> dir_world \<Rightarrow> bool" where
  "registry_ok K held w \<longleftrightarrow> (\<forall>key. record_ok K held (w_log w) (w_tick w) key (dw_registry w key))"

lemma record_ok_mono:
  "record_ok K held log t key entry \<Longrightarrow> set log \<subseteq> set log' \<Longrightarrow> t \<le> t' \<Longrightarrow> record_ok K held log' t' key entry"
  by (auto simp: record_ok_def intro: owned_mono split: option.splits)

definition log_inv :: "kernel \<Rightarrow> 'z world_scheme \<Rightarrow> bool" where
  "log_inv K w \<longleftrightarrow> log_wf w \<and> removals_owned K (w_log w)"

definition dir_inv :: "kernel \<Rightarrow> file_id multiset \<Rightarrow> dir_world \<Rightarrow> bool" where
  "dir_inv K held w \<longleftrightarrow> log_inv K w \<and> registry_ok K held w"

lemma frames_registry: "frames m \<Longrightarrow> m w = (r, w') \<Longrightarrow> dw_registry w' = dw_registry w"
proof -
  assume "frames m" "m w = (r, w')"
  then have "world.more w' = world.more w" unfolding frames_def by (metis snd_conv)
  then show ?thesis by (cases w; cases w') simp
qed

lemma registry_ok_mono:
  assumes "registry_ok K held w" "dw_registry w' = dw_registry w"
    "set (w_log w) \<subseteq> set (w_log w')" "w_tick w \<le> w_tick w'"
  shows "registry_ok K held w'"
  using assms record_ok_mono unfolding registry_ok_def by metis

text \<open>A program that removes nothing keeps the log invariant.\<close>

lemma log_inv_passive:
  assumes "logs keeps_entries m"
  shows "triple (log_inv K) m (\<lambda>_. log_inv K)"
proof (rule tripleI)
  fix w r w'
  assume inv: "log_inv K w" and run: "m w = (r, w')"
  obtain new where new: "w_log w' = new @ w_log w" "w_tick w \<le> w_tick w'"
    "\<And>t ev. (t, ev) \<in> set new \<Longrightarrow> (t, ev) \<in> keeps_entries \<and> w_tick w \<le> t \<and> t < w_tick w'"
    using logsD [OF assms run] by metis
  have "removals_owned K (w_log w')"
    unfolding new(1) using inv new(3)
    by (intro removals_owned_append) (auto simp: log_inv_def intro!: not_removal_owned)
  then show "log_inv K w'" using inv logs_wf [OF assms run] by (simp add: log_inv_def)
qed

text \<open>A program that leaves the registry alone keeps what is said of it, and of past events.\<close>

lemma dir_inv_frame:
  assumes "triple (\<lambda>w. log_inv K w \<and> P w) m (\<lambda>_. log_inv K)" "frames m" "logs UNIV m"
  shows "triple (\<lambda>w. dir_inv K held w \<and> P w) m (\<lambda>_. dir_inv K held)"
proof (rule tripleI)
  fix w r w'
  assume inv: "dir_inv K held w \<and> P w" and run: "m w = (r, w')"
  obtain new where "w_log w' = new @ w_log w" "w_tick w \<le> w_tick w'"
    using logsD [OF assms(3) run] by metis
  then have "registry_ok K held w'"
    using inv frames_registry [OF assms(2) run]
    by (auto simp: dir_inv_def intro: registry_ok_mono)
  moreover have "log_inv K w'"
    using tripleD [OF assms(1) run] inv by (simp add: dir_inv_def)
  ultimately show "dir_inv K held w'" by (simp add: dir_inv_def)
qed

lemma dir_inv_passive:
  assumes "logs keeps_entries m" "frames m"
  shows "triple (dir_inv K held) m (\<lambda>_. dir_inv K held)"
proof -
  have "triple (\<lambda>w. log_inv K w \<and> True) m (\<lambda>_. log_inv K)"
    using log_inv_passive [OF assms(1)] by simp
  from dir_inv_frame [OF this assms(2) logs_mono [OF assms(1)]] show ?thesis by simp
qed

text \<open>Inspecting an entry and removing it when its identity is one that the runtime owns.\<close>

lemma log_inv_removal:
  assumes "log_inv K w" "w_log w' = w_log w \<or> (w_log w' = (w_tick w, ev) # w_log w \<and> removal_owned K (w_log w) (w_tick w, ev))"
    "w_tick w' = Suc (w_tick w)"
  shows "log_inv K w'"
proof -
  have wf: "log_wf w'" using assms by (fastforce simp: log_inv_def log_wf_def)
  have "removals_owned K ((w_tick w, ev) # w_log w)" if "removal_owned K (w_log w) (w_tick w, ev)"
    using assms(1) removal_owned_mono [OF that, of "(w_tick w, ev) # w_log w"]
      removals_owned_append [of K "w_log w" "[(w_tick w, ev)]"]
    by (auto simp: log_inv_def)
  with wf assms show ?thesis by (auto simp: log_inv_def)
qed

lemma syscall_tick: "syscall K f w = (r, w') \<Longrightarrow> w_tick w' = Suc (w_tick w)"
  by (auto simp: syscall_def Let_def split: option.splits sum.splits)

lemma logs_remove_if_matches: "logs UNIV act \<Longrightarrow> logs UNIV (remove_if_matches K d n c act)"
  unfolding remove_if_matches_def
  by (intro logs_intros) (auto intro!: logs_intros split: sum.split option.split)

lemma frames_remove_if_matches: "frames act \<Longrightarrow> frames (remove_if_matches K d n c act)"
  unfolding remove_if_matches_def
  by (intro frames_intros) (auto intro!: frames_intros split: sum.split option.split)

lemma logs_removals [simp]: "logs UNIV (remove_directory_if K d n c)" "logs UNIV (unlink_owned K g)"
  by (simp_all add: remove_directory_if_def unlink_owned_def logs_remove_if_matches)

lemma frames_removals [simp]: "frames (remove_directory_if K d n c)" "frames (unlink_owned K g)"
  by (simp_all add: remove_directory_if_def unlink_owned_def frames_remove_if_matches)

lemma remove_directory_if_ok: "remove_directory_if K d n c w = (r, w') \<Longrightarrow> r = Inr ()"
  by (auto simp: remove_directory_if_def remove_if_matches_def sys_defs
      split: prod.splits sum.splits option.splits if_splits)

lemma remove_if_matches_inv:
  assumes key: "\<And>md. c md \<Longrightarrow> md_id md = key"
    and past: "\<And>log t log' t'. own log t \<Longrightarrow> set log \<subseteq> set log' \<Longrightarrow> t \<le> t' \<Longrightarrow> own log' t'"
    and act: "\<And>md w r w'. stat_saw K (Some d, [n]) md w \<Longrightarrow> act w = (r, w') \<Longrightarrow> md_id md = key \<Longrightarrow> own (w_log w) (w_tick w) \<Longrightarrow>
      w_tick w' = Suc (w_tick w) \<and>
      (\<exists>ev. w_log w' = w_log w \<or> w_log w' = (w_tick w, ev) # w_log w \<and> removal_owned K (w_log w) (w_tick w, ev))"
  shows "triple (\<lambda>w. log_inv K w \<and> own (w_log w) (w_tick w)) (remove_if_matches K d n c act) (\<lambda>_. log_inv K)"
proof (rule tripleI, elim conjE)
  fix w r w'
  assume inv: "log_inv K w" and own: "own (w_log w) (w_tick w)"
    and run: "remove_if_matches K d n c act w = (r, w')"
  obtain s w1 where stat: "stat_at K d n w = (s, w1)" by (meson surj_pair)
  have inv1: "log_inv K w1"
    using log_inv_passive [of "stat_at K d n" K] inv stat by (auto dest: tripleD)
  have own1: "own (w_log w1) (w_tick w1)"
    using past [OF own] logs_past [OF logs_stat_at [where S = UNIV] stat] by blast
  show "log_inv K w'"
  proof (cases "\<exists>md. s = Inr (Some md) \<and> c md")
    case False
    with run stat inv1 show ?thesis
      by (auto simp: remove_if_matches_def sys_defs split: sum.splits option.splits if_splits)
  next
    case True
    then obtain md where md: "s = Inr (Some md)" "c md" by blast
    obtain q w2 where rm: "act w1 = (q, w2)" by (meson surj_pair)
    have "w' = w2" using run stat md rm by (simp add: remove_if_matches_def sys_defs)
    moreover have "stat_saw K (Some d, [n]) md w1" using stat_at_saw stat md by blast
    ultimately show ?thesis
      using act [OF _ rm key [OF md(2)] own1] log_inv_removal [OF inv1] by blast
  qed
qed

lemma remove_directory_if_inv:
  assumes "\<And>md. c md \<Longrightarrow> md_id md = key"
  shows "triple (\<lambda>w. log_inv K w \<and> mkdir_owned K (w_log w) (w_tick w) key) (remove_directory_if K d n c)
    (\<lambda>_. log_inv K)"
  unfolding remove_directory_if_def
proof (rule remove_if_matches_inv [OF assms])
  fix md w r w'
  assume "stat_saw K (Some d, [n]) md w" "md_id md = key" "mkdir_owned K (w_log w) (w_tick w) key"
    and rm: "sys_rmdir K (Some d, [n]) w = (r, w')"
  then show "w_tick w' = Suc (w_tick w) \<and>
      (\<exists>ev. w_log w' = w_log w \<or> w_log w' = (w_tick w, ev) # w_log w \<and> removal_owned K (w_log w) (w_tick w, ev))"
    using rmdir_victim [OF _ rm] syscall_tick [OF rm [unfolded sys_rmdir_def]] removal_owned.simps(2) by metis
qed (auto intro: owned_mono)

definition guard_owned :: "kernel \<Rightarrow> (nat \<times> fs_event) list \<Rightarrow> nat \<Rightarrow> unix_socket_guard \<Rightarrow> bool" where
  "guard_owned K log t g \<longleftrightarrow> bind_owned K log t (Some (ug_parent g), [ug_name g]) (Fid (ug_device g) (ug_inode g))"

lemma guard_owned_mono:
  "guard_owned K log t g \<Longrightarrow> set log \<subseteq> set log' \<Longrightarrow> t \<le> t' \<Longrightarrow> guard_owned K log' t' g"
  unfolding guard_owned_def by (rule owned_mono)

lemma unlink_owned_inv:
  "triple (\<lambda>w. log_inv K w \<and> guard_owned K (w_log w) (w_tick w) g) (unlink_owned K g) (\<lambda>_. log_inv K)"
  unfolding unlink_owned_def
proof (rule remove_if_matches_inv [where key = "(Fid (ug_device g) (ug_inode g))"])
  fix md w r w'
  let ?loc = "(Some (ug_parent g), [ug_name g])"
  assume "stat_saw K ?loc md w" "md_id md = (Fid (ug_device g) (ug_inode g))" "guard_owned K (w_log w) (w_tick w) g"
    and rm: "sys_unlink K ?loc w = (r, w')"
  then show "w_tick w' = Suc (w_tick w) \<and>
      (\<exists>ev. w_log w' = w_log w \<or> w_log w' = (w_tick w, ev) # w_log w \<and> removal_owned K (w_log w) (w_tick w, ev))"
    using unlink_victim [OF _ rm] syscall_tick [OF rm [unfolded sys_unlink_def]] removal_owned.simps(1)
    unfolding guard_owned_def by metis
qed (auto intro: guard_owned_mono simp: guard_matches_def md_id_def)


lemma record_ok_other: "k \<noteq> key \<Longrightarrow> record_ok K (add_mset key held) log t k e \<longleftrightarrow> record_ok K held log t k e"
  by (simp add: record_ok_def split: option.split)

lemma log_inv_registry [simp]: "log_inv K (w\<lparr>dw_registry := reg\<rparr>) \<longleftrightarrow> log_inv K w"
  by (simp add: log_inv_def log_wf_def)

lemma dir_inv_update:
  assumes "log_inv K w" "\<And>k. k \<noteq> key \<Longrightarrow> record_ok K held (w_log w) (w_tick w) k (dw_registry w k)"
    "record_ok K held (w_log w) (w_tick w) key e"
  shows "dir_inv K held (w\<lparr>dw_registry := (dw_registry w)(key := e)\<rparr>)"
  using assms by (auto simp: dir_inv_def registry_ok_def)

lemma release_directory_lease_inv:
  "triple (dir_inv K (add_mset key held)) (release_directory_lease K key :: ('e, unit) dsys) (\<lambda>_. dir_inv K held)"
proof (rule tripleI)
  fix w and r :: "'e + unit" and w'
  assume inv: "dir_inv K (add_mset key held) w" and run: "release_directory_lease K key w = (r, w')"
  have reg: "record_ok K (add_mset key held) (w_log w) (w_tick w) k (dw_registry w k)" for k
    using inv unfolding dir_inv_def registry_ok_def by blast
  obtain old where old: "dw_registry w key = Some old" "dr_leases old = Suc (count held key)"
      "Fid (dr_device old) (dr_inode old) = key" "dr_created_by_baffle old \<longrightarrow> mkdir_owned K (w_log w) (w_tick w) key"
    using reg [of key] by (auto simp: record_ok_def split: option.splits)
  define rc where "rc = old\<lparr>dr_leases := dr_leases old - 1\<rparr>"
  define w1 where "w1 = w\<lparr>dw_registry := (dw_registry w)(key \<mapsto> rc)\<rparr>"
  have others: "record_ok K held (w_log w) (w_tick w) k (dw_registry w k)" if "k \<noteq> key" for k
    using reg [of k] record_ok_other [OF that] by blast
  have forget: "dir_inv K held (snd (forget_directory key w2 :: ('e + unit) \<times> dir_world))"
    if "count held key = 0" "log_inv K w2" "dw_registry w2 = dw_registry w1"
      "set (w_log w) \<subseteq> set (w_log w2)" "w_tick w \<le> w_tick w2" for w2
    unfolding forget_directory_def snd_conv
    using that others
    by (intro dir_inv_update) (auto simp: w1_def record_ok_def [of _ _ _ _ _ None] intro: record_ok_mono)
  show "dir_inv K held w'"
  proof (cases "count held key = 0")
    case False
    then have "w' = w1" using run old by (simp add: release_directory_lease_def rc_def w1_def Let_def)
    moreover have "record_ok K held (w_log w) (w_tick w) key (Some rc)"
      using False old by (auto simp: record_ok_def rc_def)
    ultimately show ?thesis
      using others inv by (auto simp: w1_def dir_inv_def [of _ "add_mset key held"] intro: dir_inv_update)
  next
    case True
    let ?m = "remove_directory_if K (dr_parent rc) (dr_name rc) (\<lambda>md.
                 md_kind md = Directory \<and> md_dev md = dr_device rc \<and> md_ino md = dr_inode rc)"
    obtain q w2 where w2: "?m w1 = (q :: 'e + unit, w2)" by (meson surj_pair)
    have inv1: "log_inv K w1" using inv by (simp add: w1_def dir_inv_def)
    show ?thesis
    proof (cases "dr_created_by_baffle old")
      case False
      then have "w' = snd (forget_directory key w1 :: ('e + unit) \<times> dir_world)"
        using run old True by (auto simp: release_directory_lease_def rc_def w1_def Let_def forget_directory_def)
      then show ?thesis using forget [OF True inv1] by (simp add: w1_def)
    next
      case created: True
      have "w' = snd (forget_directory key w2 :: ('e + unit) \<times> dir_world)"
        using run old True created w2 remove_directory_if_ok [OF w2]
        by (auto simp: release_directory_lease_def rc_def w1_def Let_def sys_then_def)
      moreover have "log_inv K w2"
        using tripleD [OF remove_directory_if_inv [where key = key] w2] inv1 old created
        by (auto simp: w1_def rc_def md_id_def)
      ultimately show ?thesis
        using forget [OF True] frames_registry [OF frames_removals(1) w2] logs_past [OF logs_removals(1) w2]
        by (auto simp: w1_def)
    qed
  qed
qed


lemma release_directory_lease_ok [simp]: "fst (release_directory_lease K key w) = Inr ()"
  by (auto simp: release_directory_lease_def Let_def sys_then_def forget_directory_def
      dest: remove_directory_if_ok split: option.split prod.split sum.split)

lemma release_directories_ok [simp]: "fst (release_directories K keys w) = Inr ()"
proof (induction keys arbitrary: w)
  case (Cons key keys)
  then show ?case by (simp add: sys_then_ok)
qed (simp add: sys_return_def)

lemma release_directories_inv:
  "triple (dir_inv K (mset keys + held)) (release_directories K keys) (\<lambda>_. dir_inv K held)"
proof (induction keys)
  case Nil
  then show ?case by (simp add: triple_def sys_return_def)
next
  case (Cons key keys)
  show ?case
    unfolding release_directories.simps
    by (rule triple_then_ok [OF release_directory_lease_ok])
      (use Cons release_directory_lease_inv [of K key "mset keys + held"] in auto)
qed

lemma drop_created_directories_inv:
  "triple (dir_inv K (mset keys + held)) (drop_created_directories K keys) (\<lambda>_. dir_inv K held)"
  using release_directories_inv [of K "rev keys" held] by (simp add: drop_created_directories_def)

lemma drop_created_directories_ok [simp]: "fst (drop_created_directories K keys w) = Inr ()"
  by (simp add: drop_created_directories_def)

lemma unlink_owned_ok [simp]: "fst (unlink_owned K g w) = Inr ()"
  by (auto simp: unlink_owned_def remove_if_matches_def sys_defs split: prod.split sum.split option.split)

lemma drop_guard_inv:
  "triple (\<lambda>w. dir_inv K (mset (ug_created_directories g) + held) w \<and> guard_owned K (w_log w) (w_tick w) g)
    (drop_guard K g) (\<lambda>_. dir_inv K held)"
  unfolding drop_guard_def
  by (rule triple_then_ok [OF unlink_owned_ok dir_inv_frame [OF unlink_owned_inv]])
    (simp_all add: drop_created_directories_inv)

lemma drop_guard_ok [simp]: "fst (drop_guard K g w) = Inr ()"
  by (simp add: drop_guard_def sys_then_ok)

text \<open>Giving up: run the cleanup, then report the error.\<close>

lemma triple_give_up:
  assumes "\<And>w. fst (m w) = Inr ()" "triple P m (\<lambda>_. R)"
  shows "triple P (sys_then m (\<lambda>_. sys_fail e)) (\<lambda>r w. r = Inl e \<and> R w)"
  by (rule triple_then_ok [OF assms]) (simp add: triple_def sys_fail_def)


subsection \<open>The walk keeps the registry\<close>

definition dir_own :: "kernel \<Rightarrow> file_id multiset \<Rightarrow> bool \<Rightarrow> file_id \<Rightarrow> dir_world \<Rightarrow> bool" where
  "dir_own K held made key w \<longleftrightarrow> dir_inv K held w \<and> (made \<longrightarrow> mkdir_owned K (w_log w) (w_tick w) key)"

text \<open>After a step that takes leases: none on an error, else those of its result.\<close>

fun leased :: "kernel \<Rightarrow> file_id multiset \<Rightarrow> ('a \<Rightarrow> file_id multiset) \<Rightarrow> 'e + 'a \<Rightarrow> dir_world \<Rightarrow> bool" where
  "leased K held f (Inl e) w \<longleftrightarrow> dir_inv K held w"
| "leased K held f (Inr x) w \<longleftrightarrow> dir_inv K (f x + held) w"

lemma leased_Inr: "leased K held f (Inr x) = dir_inv K (f x + held)"
  by (rule ext) simp

lemma dir_own_passive:
  assumes "logs keeps_entries m" "frames m"
  shows "triple (dir_own K held made key) m (\<lambda>_. dir_own K held made key)"
proof (rule tripleI)
  fix w r w'
  assume "dir_own K held made key w" "m w = (r, w')"
  then show "dir_own K held made key w'"
    using tripleD [OF dir_inv_passive [OF assms], of w r w'] logs_past [OF assms(1), of w r w'] owned_mono(1)
    unfolding dir_own_def by blast
qed

lemma dir_own_fstat:
  "triple (dir_own K held made i) (sys_fstat K i) (\<lambda>r w. dir_own K held made i w \<and> (\<forall>md. r = Inr md \<longrightarrow> md_id md = i))"
proof (rule tripleI)
  fix w r w'
  assume pre: "dir_own K held made i w" and run: "sys_fstat K i w = (r, w')"
  have "dir_own K held made i w'"
    using tripleD [where m = "sys_fstat K i", OF dir_own_passive run pre] by simp
  moreover have "\<forall>md. r = Inr md \<longrightarrow> md_id md = i"
    using run unfolding sys_fstat_def by (auto simp: syscall_Inr result_simps)
  ultimately show "dir_own K held made i w' \<and> (\<forall>md. r = Inr md \<longrightarrow> md_id md = i)" ..
qed

lemma set_created_directory_mode_passive:
  "logs keeps_entries (set_created_directory_mode K d n md)" "frames (set_created_directory_mode K d n md)"
  unfolding set_created_directory_mode_def
  by (intro logs_intros frames_intros; simp)+

lemma remove_created_directory_inv:
  assumes "md_id md = key"
  shows "triple (dir_own K held True key) (remove_created_directory_if_unchanged K d n md) (\<lambda>_. dir_inv K held)"
  unfolding remove_created_directory_if_unchanged_def
  by (rule triple_weaken [OF dir_inv_frame [OF remove_directory_if_inv [where key = key]]])
    (use assms in \<open>auto simp: same_directory_def md_id_def dir_own_def\<close>)

lemma remove_created_directory_ok [simp]: "fst (remove_created_directory_if_unchanged K d n md w) = Inr ()"
  unfolding remove_created_directory_if_unchanged_def by (metis prod.collapse remove_directory_if_ok)

lemma register_directory_inv:
  assumes "md_id md = key"
  shows "triple (dir_own K held made key) (register_directory K d n md path made)
    (\<lambda>r w. case r of Inl e \<Rightarrow> dir_own K held made key w | Inr k \<Rightarrow> k = key \<and> dir_inv K (add_mset key held) w)"
  unfolding register_directory_def
proof (rule triple_then [OF dir_own_passive])
  fix clone
  let ?fresh = "\<lparr>dr_parent = clone, dr_name = n, dr_device = md_dev md, dr_inode = md_ino md, dr_path = path,
          dr_created_by_baffle = made, dr_leases = 0\<rparr>"
  show "triple (dir_own K held made key) (add_lease (Fid (md_dev md) (md_ino md)) ?fresh made)
    (\<lambda>r w. case r of Inl e \<Rightarrow> dir_own K held made key w | Inr k \<Rightarrow> k = key \<and> dir_inv K (add_mset key held) w)"
  proof (rule tripleI)
    fix w r w'
    assume own: "dir_own K held made key w" and run: "add_lease (Fid (md_dev md) (md_ino md)) ?fresh made w = (r, w')"
    define rc where "rc = (case dw_registry w key of Some rc \<Rightarrow> rc | None \<Rightarrow> ?fresh)"
    have key: "(Fid (md_dev md) (md_ino md)) = key" using assms by (simp add: md_id_def)
    have w': "r = Inr key" "w' = w\<lparr>dw_registry := (dw_registry w)(key \<mapsto>
        rc\<lparr>dr_created_by_baffle := dr_created_by_baffle rc \<or> made, dr_leases := dr_leases rc + 1\<rparr>)\<rparr>"
      using run unfolding add_lease_def key by (auto simp: Let_def rc_def)
    have reg: "record_ok K held (w_log w) (w_tick w) k (dw_registry w k)" for k
      using own unfolding dir_own_def dir_inv_def registry_ok_def by blast
    have "dir_inv K (add_mset key held) w'"
      unfolding w'(2)
    proof (rule dir_inv_update)
      show "log_inv K w" using own by (simp add: dir_own_def dir_inv_def)
      show "record_ok K (add_mset key held) (w_log w) (w_tick w) k (dw_registry w k)" if "k \<noteq> key" for k
        using reg record_ok_other [OF that] by blast
      show "record_ok K (add_mset key held) (w_log w) (w_tick w) key
          (Some (rc\<lparr>dr_created_by_baffle := dr_created_by_baffle rc \<or> made, dr_leases := dr_leases rc + 1\<rparr>))"
        using reg [of key] own key
        by (auto simp: record_ok_def rc_def dir_own_def split: option.splits)
    qed
    with w'(1) show "case r of Inl e \<Rightarrow> dir_own K held made key w' | Inr k \<Rightarrow> k = key \<and> dir_inv K (add_mset key held) w'"
      by simp
  qed
qed simp_all


lemma undo_directory_inv:
  assumes "md_id md = key"
  shows "triple (dir_own K held made key) (undo_directory K current name md made e) (leased K held f)"
proof -
  have "triple (dir_own K held made key)
      (if made then remove_created_directory_if_unchanged K current name md else sys_return ()) (\<lambda>_. dir_inv K held)"
    using remove_created_directory_inv [OF assms, of K held current name]
    by (cases made) (auto simp: triple_def sys_return_def dir_own_def)
  from triple_give_up [OF _ this] show ?thesis
    unfolding undo_directory_def by (rule triple_weaken) (auto simp: sys_return_def)
qed

lemma lease_directory_inv:
  assumes "md_id md = next"
  shows "triple (dir_own K held made next) (lease_directory K current name normalized made next md)
    (leased K held (\<lambda>(next, key, normalized). {#key#}))"
  unfolding lease_directory_def
  by (rule triple_cases [OF register_directory_inv [OF assms]])
    (simp_all add: undo_directory_inv [OF assms], simp add: triple_def sys_return_def)

lemma enter_directory_inv:
  "triple (dir_own K held made next) (enter_directory K current name normalized made next)
    (leased K held (\<lambda>(next, key, normalized). {#key#}))"
  unfolding enter_directory_def
proof (rule triple_then [OF dir_own_fstat])
  fix md
  let ?Q = "leased K held (\<lambda>(next, key, normalized). {#key#})"
  let ?lease = "lease_directory K current name normalized made next md"
  have "triple (dir_own K held made next) (if made then
       sys_match (set_created_directory_mode K current name md) (\<lambda>r. case r of
         Inl e \<Rightarrow> undo_directory K current name md made e
       | Inr _ \<Rightarrow> ?lease)
     else ?lease) ?Q" if "md_id md = next"
    using lease_directory_inv [OF that] undo_directory_inv [OF that]
    by (auto intro!: triple_cases [OF dir_own_passive [OF set_created_directory_mode_passive]])
  then show "triple (\<lambda>w. dir_own K held made next w \<and> (\<forall>md'. Inr md = Inr md' \<longrightarrow> md_id md' = next))
     (if md_kind md \<noteq> Directory
      then sys_fail (Custom NotADirectoryKind ''socket path component is not a directory'')
      else if made then
       sys_match (set_created_directory_mode K current name md) (\<lambda>r. case r of
         Inl e \<Rightarrow> undo_directory K current name md made e
       | Inr _ \<Rightarrow> ?lease)
     else ?lease) ?Q"
    by (auto simp: triple_def sys_fail_def dir_own_def)
qed (simp add: dir_own_def)


lemma open_component_inv:
  "triple (dir_inv K held) (open_component K current name normalized)
    (leased K held (\<lambda>(next, key, normalized). {#key#}))"
proof -
  let ?Q = "leased K held (\<lambda>(next, key, normalized). {#key#})"
  let ?loc = "(Some current, [name])"
  have present: "triple (dir_inv K held) (enter_directory K current name normalized False fd) ?Q" for fd
    by (rule triple_weaken [OF enter_directory_inv]) (simp_all add: dir_own_def)
  have reopen: "triple (dir_inv K held) (sys_then (sys_open_dir K ?loc) (enter_directory K current name normalized False)) ?Q"
    by (rule triple_then [OF dir_inv_passive]) (simp_all add: present)
  have opened: "triple (\<lambda>w. dir_inv K held w \<and> (\<exists>w0 i. sys_mkdir K ?loc 0x1C0 w0 = (Inr i, w))) (sys_open_dir K ?loc)
      (\<lambda>r. case r of Inl e \<Rightarrow> dir_inv K held | Inr fd \<Rightarrow> dir_own K held True fd)"
  proof (rule tripleI, elim conjE exE)
    fix w r w' w0 i
    assume inv: "dir_inv K held w" and mk: "sys_mkdir K ?loc 0x1C0 w0 = (Inr i, w)" and run: "sys_open_dir K ?loc w = (r, w')"
    have "dir_inv K held w'"
      using tripleD [where m = "sys_open_dir K ?loc", OF dir_inv_passive run inv] by simp
    then show "(case r of Inl e \<Rightarrow> dir_inv K held | Inr fd \<Rightarrow> dir_own K held True fd) w'"
      using mkdir_then_open [OF mk] run by (fastforce simp: dir_own_def mkdir_owned_def split: sum.split)
  qed
  have made: "triple (\<lambda>w. dir_inv K held w \<and> (\<exists>w0 i. sys_mkdir K ?loc 0x1C0 w0 = (Inr i, w)))
      (sys_then (sys_open_dir K ?loc) (enter_directory K current name normalized True)) ?Q"
    by (rule triple_then [OF opened]) (simp_all add: enter_directory_inv)
  have create: "triple (dir_inv K held) (sys_mkdir K ?loc 0x1C0)
      (\<lambda>r w. dir_inv K held w \<and> (\<forall>i. r = Inr i \<longrightarrow> (\<exists>w0. sys_mkdir K ?loc 0x1C0 w0 = (Inr i, w))))"
    using dir_inv_passive [of "sys_mkdir K ?loc 0x1C0" K held] unfolding triple_def by (auto simp: prod_eq_iff)
  have made': "triple (\<lambda>w. dir_inv K held w \<and> (\<forall>j. Inr i = Inr j \<longrightarrow> (\<exists>w0. sys_mkdir K ?loc 0x1C0 w0 = (Inr j, w))))
      (sys_then (sys_open_dir K ?loc) (enter_directory K current name normalized True)) ?Q" for i :: file_id
    by (rule triple_weaken [OF made]) auto
  have absent: "triple (dir_inv K held) (sys_match (sys_mkdir K ?loc 0x1C0) (\<lambda>m. case m of
           Inr _ \<Rightarrow> sys_then (sys_open_dir K ?loc) (enter_directory K current name normalized True)
         | Inl e \<Rightarrow> if io_kind_of e \<noteq> AlreadyExistsKind then sys_fail e
             else sys_then (sys_open_dir K ?loc) (enter_directory K current name normalized False))) ?Q"
    by (rule triple_cases [OF create]) (use reopen made' in \<open>auto simp: triple_def sys_fail_def\<close>)
  show ?thesis
    unfolding open_component_def
    by (rule triple_cases [OF dir_inv_passive]) (use present absent in \<open>auto simp: triple_def sys_fail_def\<close>)
qed

fun walk_leases :: "(io_error \<times> file_id list) + (file_id \<times> file_id list) \<Rightarrow> file_id list" where
  "walk_leases (Inl (e, keys)) = keys"
| "walk_leases (Inr (current, keys)) = keys"

lemma open_components_inv:
  "triple (dir_inv K (mset keys + held)) (open_components K cs current normalized keys)
    (\<lambda>r. dir_inv K (mset (walk_leases r) + held))"
proof (induction cs arbitrary: current normalized keys)
  case Nil
  then show ?case by (simp add: triple_def sys_return_def)
next
  case (Cons c cs)
  have step: "triple (dir_inv K (mset keys + held)) (sys_match (open_component K current name normalized) (\<lambda>r. case r of
            Inl e \<Rightarrow> sys_fail (e, keys)
          | Inr (next, key, normalized') \<Rightarrow> open_components K cs next normalized' (keys @ [key])))
       (\<lambda>r. dir_inv K (mset (walk_leases r) + held))" for name
    by (rule triple_cases [OF open_component_inv])
      (use Cons in \<open>auto simp: triple_def sys_fail_def split: prod.split\<close>)
  show ?case
    using step Cons [of keys current normalized]
    by (auto simp: triple_def sys_fail_def split: list.split)
qed


lemma normalize_system_path_passive [simp]:
  "logs keeps_entries (normalize_system_path K path)" "frames (normalize_system_path K path)"
  unfolding normalize_system_path_def
  by (auto intro!: logs_intros frames_intros split: sum.split)

lemma absolute_path_passive [simp]:
  "logs keeps_entries (absolute_path K path)" "frames (absolute_path K path)"
  unfolding absolute_path_def
  by (auto intro!: logs_intros frames_intros)

fun parent_leases :: "(io_error \<times> file_id list) + (file_id \<times> file_id list \<times> string) \<Rightarrow> file_id list" where
  "parent_leases (Inl (e, keys)) = keys"
| "parent_leases (Inr (current, keys, path)) = keys"

lemma normalize_system_path_ok: "fst (normalize_system_path K path w) \<noteq> Inl e"
  by (auto simp: normalize_system_path_def sys_defs split: sum.split prod.split)

lemma open_socket_parent_locked_inv:
  "triple (dir_inv K held) (open_socket_parent_locked K path) (\<lambda>r. dir_inv K (mset (parent_leases r) + held))"
proof -
  let ?Q = "\<lambda>r. dir_inv K (mset (parent_leases r) + held)"
  let ?none = "\<lambda>e :: io_error. (e, [] :: file_id list)"
  have still: "triple (dir_inv K held) (sys_context ?none m)
      (\<lambda>r w. dir_inv K held w \<and> (\<forall>e. r = Inl e \<longrightarrow> snd e = []))"
    if "logs keeps_entries m" "frames m" for m :: "(io_error, 'b, _) sys"
    using dir_inv_passive [OF logs_context frames_context, OF that, of K held ?none]
    by (auto simp: triple_def sys_context_def map_err_Inl_iff split: prod.split)
  have walk: "triple (dir_inv K held) (sys_then (open_components K cs root normalized []) (\<lambda>(current, keys).
       case file_name path of
         None \<Rightarrow> sys_fail (Custom InvalidInputKind ''missing socket name'', keys)
       | Some name \<Rightarrow> sys_return (current, keys, path_join parent name))) ?Q" for cs root normalized parent
    by (rule triple_then [OF open_components_inv [of K "[]" held, simplified]])
      (auto simp: triple_def sys_fail_def sys_return_def split: option.split)
  have after: "triple (dir_inv K held) (sys_then (sys_context ?none m) k) ?Q"
    if "logs keeps_entries m" "frames m" "\<And>x. triple (dir_inv K held) (k x) ?Q" for m :: "(io_error, 'b, _) sys" and k
    by (rule triple_then [OF still [OF that(1,2)]]) (use that(3) in \<open>auto simp: triple_def\<close>)
  have normal: "triple (dir_inv K held) (sys_then (normalize_system_path K p) k) ?Q"
    if "\<And>x. triple (dir_inv K held) (k x) ?Q" for p k
    by (rule triple_then [where R = "\<lambda>r w. dir_inv K held w \<and> (\<forall>e. r \<noteq> Inl e)"])
      (use that dir_inv_passive [OF normalize_system_path_passive, of K held K p] in
        \<open>auto simp: triple_def normalize_system_path_ok\<close>)
  show ?thesis
    unfolding open_socket_parent_locked_def
    by (intro after normal walk) simp_all
qed


lemma drop_and_fail_inv:
  "triple (dir_inv K (mset keys + held)) (sys_then (drop_created_directories K keys) (\<lambda>_. sys_fail e)) (leased K held f)"
  by (rule triple_weaken [OF triple_give_up [OF drop_created_directories_ok drop_created_directories_inv]]) auto

lemma open_socket_parent_inv:
  "triple (dir_inv K held) (open_socket_parent K path) (leased K held (\<lambda>(current, keys, path). mset keys))"
proof -
  have "triple (dir_inv K (mset (parent_leases (Inl e)) + held))
      (case e of (e, keys) \<Rightarrow> sys_then (drop_created_directories K keys) (\<lambda>_. sys_fail e)) (leased K held f)" for e f
    by (cases e) (simp add: drop_and_fail_inv)
  then show ?thesis
    unfolding open_socket_parent_def
    by (intro triple_cases [OF open_socket_parent_locked_inv]) (auto simp: triple_def sys_return_def)
qed

text \<open>A guard comes with the leases of its directories and with a socket that the runtime bound.\<close>

fun guarded :: "kernel \<Rightarrow> file_id multiset \<Rightarrow> 'e + file_id \<times> unix_socket_guard \<Rightarrow> dir_world \<Rightarrow> bool" where
  "guarded K held (Inl e) w \<longleftrightarrow> dir_inv K held w"
| "guarded K held (Inr (listener, g)) w \<longleftrightarrow>
     dir_inv K (mset (ug_created_directories g) + held) w \<and> guard_owned K (w_log w) (w_tick w) g"

lemma guard_passive:
  assumes "logs keeps_entries m" "frames m"
  shows "triple (\<lambda>w. dir_inv K held w \<and> guard_owned K (w_log w) (w_tick w) g) m
    (\<lambda>_ w. dir_inv K held w \<and> guard_owned K (w_log w) (w_tick w) g)"
proof (rule tripleI)
  fix w r w'
  assume "dir_inv K held w \<and> guard_owned K (w_log w) (w_tick w) g" "m w = (r, w')"
  then show "dir_inv K held w' \<and> guard_owned K (w_log w') (w_tick w') g"
    using tripleD [OF dir_inv_passive [OF assms], of w r w'] logs_past [OF assms(1), of w r w'] guard_owned_mono
    by blast
qed

lemma restrict_socket_inv:
  fixes held g
  defines "P \<equiv> \<lambda>K w. dir_inv K (mset (ug_created_directories g) + held) w \<and> guard_owned K (w_log w) (w_tick w) g"
  shows "triple (P K) (restrict_socket K listener g) (guarded K held)"
proof -
  have close: "triple (dir_inv K held) (sys_match (sys_close K listener) (\<lambda>_. sys_fail e)) (guarded K held)" for e
    by (rule triple_match [OF dir_inv_passive]) (simp_all add: triple_def sys_fail_def)
  have abandon: "triple (P K)
      (sys_then (drop_guard K g) (\<lambda>_. sys_match (sys_close K listener) (\<lambda>_. sys_fail e))) (guarded K held)" for e
    unfolding P_def by (rule triple_then_ok [OF drop_guard_ok drop_guard_inv close])
  have ret: "triple (P K) (sys_return (listener, g)) (guarded K held)"
    by (simp add: triple_def sys_return_def P_def)
  have step: "triple (P K) m (\<lambda>_. P K)" if "logs keeps_entries m" "frames m" for m :: "('f, 'b) dsys"
    unfolding P_def by (rule guard_passive [OF that])
  have check: "triple (P K) (sys_match (stat_at K (ug_parent g) (ug_name g)) (\<lambda>c. case c of
               Inl e \<Rightarrow> sys_then (drop_guard K g) (\<lambda>_. sys_match (sys_close K listener) (\<lambda>_. sys_fail e))
             | Inr current \<Rightarrow> if bad current
                 then sys_then (drop_guard K g) (\<lambda>_. sys_match (sys_close K listener) (\<lambda>_. sys_fail e'))
                 else sys_return (listener, g))) (guarded K held)" for bad e'
    by (rule triple_cases [OF step]) (simp_all add: abandon ret)
  show ?thesis
    unfolding restrict_socket_def Let_def
    by (rule triple_cases [OF step]) (simp_all add: abandon check)
qed

lemma bind_in_parent_inv:
  "triple (dir_inv K (mset keys + held)) (bind_in_parent K name (parent, keys, path)) (guarded K held)"
proof -
  let ?P = "dir_inv K (mset keys + held)"
  let ?loc = "(Some parent, [name])"
  have abandon: "triple ?P (sys_then (drop_created_directories K keys) (\<lambda>_. sys_fail e)) (guarded K held)" for e :: io_error
    by (rule triple_weaken [OF triple_give_up [OF drop_created_directories_ok drop_created_directories_inv]]) auto
  have close: "triple ?P (sys_match (sys_close K listener) (\<lambda>_. sys_then (drop_created_directories K keys) (\<lambda>_. sys_fail e)))
      (guarded K held)" for listener and e :: io_error
    by (rule triple_match [OF dir_inv_passive]) (simp_all add: abandon)
  have bind: "triple ?P (sys_bind K ?loc) (\<lambda>r w. ?P w \<and> (\<forall>i. r = Inr i \<longrightarrow> (\<exists>w0. sys_bind K ?loc w0 = (Inr i, w))))"
    using dir_inv_passive [of "sys_bind K ?loc" K "mset keys + held"] unfolding triple_def by (auto simp: prod_eq_iff)
  have stat: "triple (\<lambda>w. ?P w \<and> (\<exists>w0. sys_bind K ?loc w0 = (Inr i, w))) (stat_at K parent name)
      (\<lambda>r w. ?P w \<and> (\<forall>md. r = Inr (Some md) \<longrightarrow> bind_owned K (w_log w) (w_tick w) ?loc (md_id md)))" for i
  proof (rule tripleI, elim conjE exE)
    fix w r w' w0
    assume inv: "?P w" and b: "sys_bind K ?loc w0 = (Inr i, w)" and run: "stat_at K parent name w = (r, w')"
    have "?P w'" using tripleD [where m = "stat_at K parent name", OF dir_inv_passive run inv] by simp
    then show "?P w' \<and> (\<forall>md. r = Inr (Some md) \<longrightarrow> bind_owned K (w_log w') (w_tick w') ?loc (md_id md))"
      using bind_then_stat [OF b] run unfolding bind_owned_def by blast
  qed
  let ?guard = "\<lambda>md. \<lparr>ug_path = path, ug_parent = parent, ug_name = name, ug_device = md_dev md,
      ug_inode = md_ino md, ug_created_directories = keys\<rparr>"
  have restrict: "triple (\<lambda>w. ?P w \<and> bind_owned K (w_log w) (w_tick w) ?loc (md_id md))
      (restrict_socket K listener (?guard md)) (guarded K held)" for md listener
    by (rule triple_weaken [OF restrict_socket_inv]) (simp_all add: guard_owned_def md_id_def)
  have bound: "triple (\<lambda>w. ?P w \<and> (\<exists>w0. sys_bind K ?loc w0 = (Inr i, w))) (sys_match (stat_at K parent name) (\<lambda>s. case s of
        Inl e \<Rightarrow> sys_match (sys_close K l) (\<lambda>_. sys_then (drop_created_directories K keys) (\<lambda>_. sys_fail e))
      | Inr None \<Rightarrow> sys_match (sys_close K l) (\<lambda>_. sys_then (drop_created_directories K keys) (\<lambda>_. sys_fail e'))
      | Inr (Some md) \<Rightarrow> restrict_socket K l (?guard md))) (guarded K held)" for i l and e' :: io_error
    by (rule triple_cases [OF stat]) (use close restrict in \<open>auto simp: triple_def split: option.split\<close>)
  have free: "triple ?P (sys_match (sys_bind K ?loc) (\<lambda>b. case b of
        Inl e \<Rightarrow> sys_then (drop_created_directories K keys) (\<lambda>_. sys_fail e)
      | Inr l \<Rightarrow> sys_match (stat_at K parent name) (\<lambda>s. case s of
          Inl e \<Rightarrow> sys_match (sys_close K l) (\<lambda>_. sys_then (drop_created_directories K keys) (\<lambda>_. sys_fail e))
        | Inr None \<Rightarrow> sys_match (sys_close K l) (\<lambda>_. sys_then (drop_created_directories K keys) (\<lambda>_. sys_fail e'))
        | Inr (Some md) \<Rightarrow> restrict_socket K l (?guard md)))) (guarded K held)" for e' :: io_error
    by (rule triple_cases [OF bind], rule triple_weaken [OF abandon], simp, simp, rule triple_weaken [OF bound]) auto
  show ?thesis
    unfolding bind_in_parent_def Let_def prod.case
    by (rule triple_cases [OF dir_inv_passive]) (use abandon free in \<open>auto split: option.split\<close>)
qed

lemma bind_unix_listener_inv: "triple (dir_inv K held) (bind_unix_listener K path) (guarded K held)"
proof -
  have "triple (dir_inv K held) (sys_then (open_socket_parent K p) (bind_in_parent K name)) (guarded K held)" for p name
    by (rule triple_then [OF open_socket_parent_inv]) (auto simp: leased_Inr bind_in_parent_inv)
  then show ?thesis
    unfolding bind_unix_listener_def
    by (intro triple_then [OF dir_inv_passive]) (auto simp: triple_def sys_fail_def split: option.split)
qed


subsection \<open>Sockets of many sessions\<close>

text \<open>
  Sessions start and stop concurrently. A bind first walks to the parent with the registry
  locked and then binds without the lock; other binds and drops may run in between. Other
  processes act at every call.
\<close>

record sock_state =
  ss_opened :: "(file_id \<times> file_id list \<times> string) list"
  ss_guards :: "unix_socket_guard list"
  ss_world :: dir_world

inductive sock_step :: "kernel \<Rightarrow> sock_state \<Rightarrow> sock_state \<Rightarrow> bool" for K where
  walk: "open_socket_parent K path (ss_world s) = (Inr opened, w) \<Longrightarrow>
     sock_step K s (s\<lparr>ss_opened := opened # ss_opened s, ss_world := w\<rparr>)"
| walk_error: "open_socket_parent K path (ss_world s) = (Inl e, w) \<Longrightarrow> sock_step K s (s\<lparr>ss_world := w\<rparr>)"
| bind: "ss_opened s = before @ opened # after \<Longrightarrow> bind_in_parent K name opened (ss_world s) = (Inr (listener, guard), w) \<Longrightarrow>
     sock_step K s \<lparr>ss_opened = before @ after, ss_guards = guard # ss_guards s, ss_world = w\<rparr>"
| bind_error: "ss_opened s = before @ opened # after \<Longrightarrow> bind_in_parent K name opened (ss_world s) = (Inl e, w) \<Longrightarrow>
     sock_step K s (s\<lparr>ss_opened := before @ after, ss_world := w\<rparr>)"
| stop: "ss_guards s = before @ guard # after \<Longrightarrow> drop_guard K guard (ss_world s) = (Inr () :: io_error + unit, w) \<Longrightarrow>
     sock_step K s (s\<lparr>ss_guards := before @ after, ss_world := w\<rparr>)"

definition sock_init :: "unix_fs \<Rightarrow> sock_state" where
  "sock_init fs = \<lparr>ss_opened = [], ss_guards = [],
     ss_world = \<lparr>w_fs = fs, w_tick = 0, w_log = [], dw_registry = Map.empty\<rparr>\<rparr>"

definition held_leases :: "sock_state \<Rightarrow> file_id list" where
  "held_leases s = concat (map (\<lambda>(parent, keys, path). keys) (ss_opened s)) @ concat (map ug_created_directories (ss_guards s))"

definition sock_inv :: "kernel \<Rightarrow> sock_state \<Rightarrow> bool" where
  "sock_inv K s \<longleftrightarrow> dir_inv K (mset (held_leases s)) (ss_world s) \<and>
     (\<forall>g \<in> set (ss_guards s). guard_owned K (w_log (ss_world s)) (w_tick (ss_world s)) g)"

text \<open>Nothing of the past is forgotten by the programs that change the registry.\<close>

lemma logs_registry [simp]:
  "logs UNIV (add_lease key fresh made)" "logs UNIV (forget_directory key)"
  by (simp_all add: logs_def adds_def add_lease_def forget_directory_def Let_def)

lemma adds_registry [simp]: "adds S (w\<lparr>dw_registry := reg\<rparr>) w' \<longleftrightarrow> adds S w w'"
  by (simp add: adds_def)

lemma logs_put: "(\<And>w. logs S (k w)) \<Longrightarrow> logs S (\<lambda>w. k w (w\<lparr>dw_registry := g w\<rparr>))"
  unfolding logs_def by (metis adds_registry)

lemma logs_release [simp]: "logs UNIV (release_directory_lease K key :: ('e, unit) dsys)"
proof -
  define g where "g w = (case dw_registry w key of None \<Rightarrow> dw_registry w
    | Some old \<Rightarrow> (dw_registry w)(key \<mapsto> old\<lparr>dr_leases := dr_leases old - 1\<rparr>))" for w :: dir_world
  define k :: "dir_world \<Rightarrow> ('e, unit) dsys" where "k w = (case dw_registry w key of None \<Rightarrow> sys_return ()
    | Some old \<Rightarrow> if dr_leases old - 1 \<noteq> 0 then sys_return ()
       else if \<not> dr_created_by_baffle old then forget_directory key
       else sys_then (remove_directory_if K (dr_parent old) (dr_name old) (\<lambda>md.
                 md_kind md = Directory \<and> md_dev md = dr_device old \<and> md_ino md = dr_inode old))
               (\<lambda>_. forget_directory key))" for w :: dir_world
  have "(release_directory_lease K key :: ('e, unit) dsys) = (\<lambda>w. k w (w\<lparr>dw_registry := g w\<rparr>))"
    by (rule ext) (simp add: release_directory_lease_def k_def g_def Let_def sys_return_def split: option.split)
  moreover have "logs UNIV (k w)" for w
    by (auto simp: k_def intro!: logs_intros split: option.split)
  ultimately show ?thesis using logs_put [of UNIV k g] by simp
qed

lemma logs_release_all [simp]: "logs UNIV (release_directories K keys)"
  by (induction keys) (auto intro!: logs_intros)

lemma logs_drop [simp]: "logs UNIV (drop_created_directories K keys)" "logs UNIV (drop_guard K g)"
  by (auto simp: drop_created_directories_def drop_guard_def intro!: logs_intros)

lemma logs_undo [simp]: "logs UNIV (undo_directory K current name md made e)"
  by (auto simp: undo_directory_def remove_created_directory_if_unchanged_def intro!: logs_intros)

lemma logs_component [simp]: "logs UNIV (open_component K current name normalized)"
proof -
  have "logs UNIV (lease_directory K current name normalized made nx md)" for made nx md
    by (auto simp: lease_directory_def register_directory_def intro!: logs_intros split: sum.split)
  then have "logs UNIV (enter_directory K current name normalized made nx)" for made nx
    by (auto simp: enter_directory_def set_created_directory_mode_def intro!: logs_intros split: sum.split)
  then show ?thesis
    by (auto simp: open_component_def intro!: logs_intros split: sum.split)
qed

lemma logs_components [simp]: "logs UNIV (open_components K cs current normalized keys)"
  by (induction cs arbitrary: current normalized keys)
    (auto intro!: logs_intros split: list.split sum.split prod.split)

lemma logs_open_parent [simp]: "logs UNIV (open_socket_parent K path)"
proof -
  have "logs UNIV (open_socket_parent_locked K path)"
    unfolding open_socket_parent_locked_def
    by (intro logs_intros) (auto intro: logs_mono [of keeps_entries] split: option.split)
  then show ?thesis
    by (auto simp: open_socket_parent_def intro!: logs_intros split: sum.split prod.split)
qed

lemma logs_bind_in_parent [simp]: "logs UNIV (bind_in_parent K name opened)"
proof -
  have "logs UNIV (restrict_socket K listener g)" for listener g
    by (auto simp: restrict_socket_def Let_def intro!: logs_intros split: sum.split option.split)
  then show ?thesis
    by (auto simp: bind_in_parent_def Let_def intro!: logs_intros split: sum.split option.split prod.split)
qed


lemma sock_inv_init: "sock_inv K (sock_init fs)"
  by (simp add: sock_inv_def sock_init_def held_leases_def dir_inv_def log_inv_def log_wf_def
      removals_owned_def registry_ok_def record_ok_def)

text \<open>A step in terms of the leases: those of other guards stay as they are.\<close>

lemma guards_past:
  assumes "logs UNIV m" "m w = (r, w')" "\<forall>g \<in> set gs. guard_owned K (w_log w) (w_tick w) g"
  shows "\<forall>g \<in> set gs. guard_owned K (w_log w') (w_tick w') g"
  using assms(3) logs_past [OF assms(1,2)] guard_owned_mono by blast

lemma sock_inv_step: "sock_step K s s' \<Longrightarrow> sock_inv K s \<Longrightarrow> sock_inv K s'"
proof (induction rule: sock_step.induct)
  case (walk path s opened w)
  obtain p keys n where o: "opened = (p, keys, n)" by (cases opened)
  show ?case
    using walk tripleD [OF open_socket_parent_inv [of K "mset (held_leases s)"] walk(1)]
      guards_past [OF logs_open_parent walk(1)]
    by (auto simp: sock_inv_def held_leases_def o ac_simps)
next
  case (walk_error path s e w)
  then show ?case
    using tripleD [OF open_socket_parent_inv [of K "mset (held_leases s)"] walk_error(1)]
      guards_past [OF logs_open_parent walk_error(1)]
    by (auto simp: sock_inv_def held_leases_def)
next
  case (bind s before opened after name listener guard w)
  obtain p keys n where o: "opened = (p, keys, n)" by (cases opened)
  let ?rest = "s\<lparr>ss_opened := before @ after\<rparr>"
  have "mset (held_leases s) = mset keys + mset (held_leases ?rest)"
    using bind(1) by (simp add: held_leases_def o)
  with bind tripleD [OF bind_in_parent_inv [of K keys "mset (held_leases ?rest)"] bind(2) [unfolded o]]
  show ?case
    using guards_past [OF logs_bind_in_parent bind(2)]
    by (auto simp: sock_inv_def held_leases_def ac_simps)
next
  case (bind_error s before opened after name e w)
  obtain p keys n where o: "opened = (p, keys, n)" by (cases opened)
  let ?rest = "s\<lparr>ss_opened := before @ after\<rparr>"
  have "mset (held_leases s) = mset keys + mset (held_leases ?rest)"
    using bind_error(1) by (simp add: held_leases_def o)
  with bind_error tripleD [OF bind_in_parent_inv [of K keys "mset (held_leases ?rest)"] bind_error(2) [unfolded o]]
  show ?case
    using guards_past [OF logs_bind_in_parent bind_error(2)]
    by (auto simp: sock_inv_def held_leases_def ac_simps)
next
  case (stop s before guard after w)
  let ?rest = "s\<lparr>ss_guards := before @ after\<rparr>"
  have "mset (held_leases s) = mset (ug_created_directories guard) + mset (held_leases ?rest)"
    using stop(1) by (simp add: held_leases_def)
  with stop tripleD [OF drop_guard_inv [of K guard "mset (held_leases ?rest)"] stop(2)]
  show ?case
    using guards_past [OF logs_drop(2) stop(2)]
    by (auto simp: sock_inv_def held_leases_def ac_simps)
qed

definition sock_reachable :: "kernel \<Rightarrow> unix_fs \<Rightarrow> sock_state \<Rightarrow> bool" where
  "sock_reachable K fs s \<longleftrightarrow> (sock_step K)\<^sup>*\<^sup>* (sock_init fs) s"

interpretation sockets: invariant_system "sock_init fs" "sock_step K" "sock_inv K" for fs K
  by unfold_locales (auto intro: sock_inv_init sock_inv_step)

lemma sock_reachable_inv: "sock_reachable K fs s \<Longrightarrow> sock_inv K s"
  unfolding sock_reachable_def by (rule sockets.inv_reachable)


subsection \<open>Properties\<close>

text \<open>
  C13. Whatever other processes do between its calls and whichever calls fail, with any number of
  sessions binding and stopping their sockets in any order, the runtime removes only what it
  made. Every entry it unlinked is one it had bound a socket under, and the node is the bound one
  unless another process acted just before it was recorded or just before it was unlinked; every
  directory it removed is one it had created, under the same proviso. The registry counts for
  each directory exactly the leases that are held, and has no record without one, so a directory
  is given up only with its last lease.
\<close>

theorem sockets_removed_are_owned:
  assumes "sock_reachable K fs s"
  shows "(\<forall>t loc v nd. (t, Ev_Unlink loc v nd) \<in> set (w_log (ss_world s)) \<longrightarrow>
        (\<exists>t0 i. (t0, Ev_Bind loc i) \<in> set (w_log (ss_world s)) \<and> t0 < t \<and>
           (quiet K (Suc t0) \<and> quiet K t \<longrightarrow> v = i)))
    \<and> (\<forall>t loc v. (t, Ev_Rmdir loc v) \<in> set (w_log (ss_world s)) \<longrightarrow>
        (\<exists>t0 loc0 i. (t0, Ev_Mkdir loc0 i) \<in> set (w_log (ss_world s)) \<and> t0 < t \<and>
           (quiet K (Suc t0) \<and> quiet K t \<longrightarrow> v = i)))
    \<and> (\<forall>key. case dw_registry (ss_world s) key of
          None \<Rightarrow> key \<notin> set (held_leases s)
        | Some rc \<Rightarrow> key \<in> set (held_leases s) \<and> dr_leases rc = count_list (held_leases s) key)"
proof -
  let ?w = "ss_world s"
  have inv: "sock_inv K s" by (rule sock_reachable_inv [OF assms])
  then have own: "removals_owned K (w_log ?w)" and reg: "registry_ok K (mset (held_leases s)) ?w"
    by (auto simp: sock_inv_def dir_inv_def log_inv_def)
  have "\<exists>t0 i. (t0, Ev_Bind loc i) \<in> set (w_log ?w) \<and> t0 < t \<and> (quiet K (Suc t0) \<and> quiet K t \<longrightarrow> v = i)"
    if "(t, Ev_Unlink loc v nd) \<in> set (w_log ?w)" for t loc v nd
    using own that by (force simp: removals_owned_def bind_owned_def)
  moreover have "\<exists>t0 loc0 i. (t0, Ev_Mkdir loc0 i) \<in> set (w_log ?w) \<and> t0 < t \<and> (quiet K (Suc t0) \<and> quiet K t \<longrightarrow> v = i)"
    if "(t, Ev_Rmdir loc v) \<in> set (w_log ?w)" for t loc v
    using own that by (force simp: removals_owned_def mkdir_owned_def)
  moreover have "case dw_registry ?w key of None \<Rightarrow> key \<notin> set (held_leases s)
        | Some rc \<Rightarrow> key \<in> set (held_leases s) \<and> dr_leases rc = count_list (held_leases s) key" for key
    using reg count_list_0_iff [of "held_leases s" key] unfolding registry_ok_def record_ok_def
    by (auto simp: count_mset dest!: spec [of _ key] split: option.splits)
  ultimately show ?thesis by blast
qed


definition example_node :: "file_id \<Rightarrow> node option" where
  "example_node i = (if i = Fid 1 1 then Some \<lparr>nd_kind = Directory, nd_uid = 0, nd_mode = 0x1ED, nd_data = [],
     nd_entries = [(''.'', Fid 1 1), (''..'', Fid 1 1)], nd_listening = False\<rparr> else None)"

definition example_unix_fs :: unix_fs where
  "example_unix_fs = \<lparr>fs_node = example_node, fs_root = Fid 1 1\<rparr>"

definition example_kernel :: kernel where
  "example_kernel = \<lparr>k_env = \<lambda>t fs. fs, k_fault = \<lambda>t. None, k_ino = \<lambda>t. of_nat (t + 10), k_uid = 7,
     k_umask = 0x12, k_cwd = Fid 1 1, k_cwd_path = ''/''\<rparr>"


definition example_parent :: "file_id \<times> file_id list \<times> string" where
  "example_parent = (Fid 1 12, [Fid 1 12], ''/r/s'')"

definition example_guard :: unix_socket_guard where
  "example_guard = \<lparr>ug_path = ''/r/s'', ug_parent = Fid 1 12, ug_name = ''s'', ug_device = 1, ug_inode = 20,
     ug_created_directories = [Fid 1 12]\<rparr>"

definition example_socket :: node where
  "example_socket = \<lparr>nd_kind = SocketFile, nd_uid = 7, nd_mode = 0x180, nd_data = [], nd_entries = [], nd_listening = True\<rparr>"

definition example_walked :: dir_world where
  "example_walked = snd (open_socket_parent example_kernel ''/r/s'' (ss_world (sock_init example_unix_fs)))"

definition example_bound :: dir_world where
  "example_bound = snd (bind_in_parent example_kernel ''s'' example_parent example_walked)"

definition example_stopped :: dir_world where
  "example_stopped = snd (drop_guard example_kernel example_guard example_bound :: (io_error + unit) \<times> dir_world)"

lemma example_results:
  "fst (open_socket_parent example_kernel ''/r/s'' (ss_world (sock_init example_unix_fs))) = Inr example_parent"
  "fst (bind_in_parent example_kernel ''s'' example_parent example_walked) = Inr (Fid 1 20, example_guard)"
  "(15, Ev_Unlink (Some (Fid 1 12), [''s'']) (Fid 1 20) example_socket) \<in> set (w_log example_stopped)"
  by code_simp+

lemma example_reachable:
  "sock_reachable example_kernel example_unix_fs \<lparr>ss_opened = [], ss_guards = [], ss_world = example_stopped\<rparr>"
proof -
  let ?s0 = "sock_init example_unix_fs"
  let ?s1 = "?s0\<lparr>ss_opened := example_parent # ss_opened ?s0, ss_world := example_walked\<rparr>"
  let ?s2 = "\<lparr>ss_opened = [] @ [], ss_guards = example_guard # ss_guards ?s1, ss_world = example_bound\<rparr>"
  have "sock_step example_kernel ?s0 ?s1"
    by (rule sock_step.walk [of _ "''/r/s''"]) (simp add: prod_eq_iff example_results example_walked_def)
  moreover have "sock_step example_kernel ?s1 ?s2"
    by (rule sock_step.bind [of ?s1 "[]" example_parent "[]" _ "''s''" "Fid 1 20"])
      (simp_all add: sock_init_def prod_eq_iff example_results example_bound_def)
  moreover have "sock_step example_kernel ?s2 (?s2\<lparr>ss_guards := [] @ [], ss_world := example_stopped\<rparr>)"
    by (rule sock_step.stop [of ?s2 "[]" example_guard "[]"])
      (simp_all add: sock_init_def prod_eq_iff example_stopped_def)
  ultimately show ?thesis
    unfolding sock_reachable_def by (simp add: sock_init_def)
qed

theorem sockets_removed_are_owned_witness:
  "(15, Ev_Unlink (Some (Fid 1 12), [''s'']) (Fid 1 20) example_socket) \<in> set (w_log example_stopped) \<and>
   (\<exists>t0 < 15. (t0, Ev_Bind (Some (Fid 1 12), [''s'']) (Fid 1 20)) \<in> set (w_log example_stopped))"
proof -
  have "\<And>t. quiet example_kernel t" by (simp add: quiet_def example_kernel_def)
  then show ?thesis
    using sockets_removed_are_owned [OF example_reachable] example_results(3) by fastforce
qed

end
