(* ===== verification/Config_Store.thy ===== *)
theory Config_Store
  imports Import_Compose Socket_Directories
begin

unbundle bit_operations_syntax

text \<open>
  Opening the directory of session configurations: \<open>SessionConfigStore::open\<close> and
  \<open>open_trusted_directory_tree\<close> of \<open>src/control/file_config.rs\<close>, over the kernel. The walk starts
  at the root and pins every directory before it looks at it, so that the directory whose
  metadata was checked is the one that is entered, whatever other processes do meanwhile. What
  is read through the store is the theory of imports.
\<close>

subsection \<open>Operations\<close>

record session_config_store =
  scs_directory :: file_id
  scs_trusted_uid :: u32

fun normal_components :: "component list \<Rightarrow> string list option" where
  "normal_components [] = Some []"
| "normal_components (RootDir # cs) = normal_components cs"
| "normal_components (Normal name # cs) = map_option (Cons name) (normal_components cs)"
| "normal_components (_ # cs) = None"

text \<open>\<open>openat_file\<close> with the flags of a directory that must not be a link.\<close>

definition openat_directory :: "kernel \<Rightarrow> file_id \<Rightarrow> string \<Rightarrow> (io_error, file_id, 'z) sys" where
  "openat_directory K parent name = sys_open_dir K (Some parent, [name])"

fun walk_directories :: "kernel \<Rightarrow> u32 \<Rightarrow> file_id \<Rightarrow> string list \<Rightarrow> (failure, file_id, 'z) sys" where
  "walk_directories K trusted_uid directory [] = sys_return directory"
| "walk_directories K trusted_uid directory (component # rest) =
     (if CHR 0x00 \<in> set component then sys_fail (Bail ''session configuration directory path is invalid'')
      else
        sys_then (sys_context (Context ''could not securely open session configuration directory'')
          (openat_directory K directory component)) (\<lambda>directory.
        sys_then (sys_context (Context ''could not inspect session configuration directory'')
          (sys_fstat K directory)) (\<lambda>metadata.
        sys_then (sys_context (Context ''session configuration directory has unsafe ownership or permissions'')
          (sys_result (validate_config_directory_metadata metadata trusted_uid (rest \<noteq> [])))) (\<lambda>_.
        walk_directories K trusted_uid directory rest))))"

definition open_trusted_directory_tree :: "kernel \<Rightarrow> string \<Rightarrow> u32 \<Rightarrow> (failure, file_id, 'z) sys" where
  "open_trusted_directory_tree K path trusted_uid =
     (if \<not> is_absolute path then sys_fail (Bail ''session configuration directory must be absolute'')
      else
        sys_then (sys_context (Context ''could not open filesystem root for session configuration'')
          (sys_open_dir K (None, []))) (\<lambda>root.
        case normal_components (components path) of
          None \<Rightarrow> sys_fail (Bail ''session configuration directory path is invalid'')
        | Some parts \<Rightarrow>
            if parts = [] then sys_fail (Bail ''session configuration directory must not be the filesystem root'')
            else walk_directories K trusted_uid root parts))"

definition session_config_store_open :: "kernel \<Rightarrow> string \<Rightarrow> u32 \<Rightarrow> (failure, session_config_store, 'z) sys" where
  "session_config_store_open K directory trusted_uid =
     sys_then (normalize_system_path K directory) (\<lambda>normalized_directory.
     sys_then (open_trusted_directory_tree K normalized_directory trusted_uid) (\<lambda>directory.
       sys_return \<lparr>scs_directory = directory, scs_trusted_uid = trusted_uid\<rparr>))"

subsection \<open>What was opened\<close>

text \<open>
  The walk of a path from an open directory as the log shows it: each component was opened in the
  directory before it, and the directory that was opened was found to belong to the trusted user
  or to root and not to be writable by others. On the way, but not at the end, a sticky directory
  may be writable.
\<close>

inductive trusted_chain :: "fs_event set \<Rightarrow> u32 \<Rightarrow> file_id \<Rightarrow> string list \<Rightarrow> file_id \<Rightarrow> bool" for log uid where
  chain_end: "trusted_chain log uid directory [] directory"
| chain_step: "Ev_Open (Some directory, [component]) entered \<in> log \<Longrightarrow> Ev_Fstat entered md \<in> log \<Longrightarrow>
     md_kind md = Directory \<Longrightarrow> md_uid md = uid \<or> md_uid md = 0 \<Longrightarrow>
     md_mode md AND 0x12 = 0 \<or> rest \<noteq> [] \<and> md_mode md AND 0x200 \<noteq> 0 \<Longrightarrow>
     trusted_chain log uid entered rest final \<Longrightarrow> trusted_chain log uid directory (component # rest) final"

lemma trusted_chain_mono: "trusted_chain log uid d parts e \<Longrightarrow> log \<subseteq> log' \<Longrightarrow> trusted_chain log' uid d parts e"
  by (induction rule: trusted_chain.induct) (auto intro: trusted_chain.intros)

definition logged_events :: "'z world_scheme \<Rightarrow> fs_event set" where
  "logged_events w = snd ` set (w_log w)"

lemma logged_events_mono: "logs S m \<Longrightarrow> m w = (r, w') \<Longrightarrow> logged_events w \<subseteq> logged_events w'"
  unfolding logged_events_def by (drule (1) logs_past) blast

lemma logged_looks:
  "sys_open_dir K loc w = (Inr i, w') \<Longrightarrow> Ev_Open loc i \<in> logged_events w'"
  "sys_fstat K i w = (Inr md, w') \<Longrightarrow> Ev_Fstat i md \<in> logged_events w'"
  by (auto simp: sys_open_dir_def sys_fstat_def syscall_def Let_def logged_events_def inspect_Inr_iff
      split: option.splits sum.splits prod.splits)

lemma valid_directory_Inr:
  "validate_config_directory_metadata md uid sticky = Inr u \<Longrightarrow>
     md_kind md = Directory \<and> (md_uid md = uid \<or> md_uid md = 0) \<and>
     (md_mode md AND 0x12 = 0 \<or> sticky \<and> md_mode md AND 0x200 \<noteq> 0)"
  by (auto simp: validate_config_directory_metadata_def trusted_owner_def split: if_splits)

lemma logs_walk [simp]: "logs keeps_entries (walk_directories K uid d parts)"
  by (induction parts arbitrary: d) (auto simp: openat_directory_def intro!: logs_intros)

lemma store_open_passive: "logs keeps_entries (session_config_store_open K directory uid)"
  unfolding session_config_store_open_def open_trusted_directory_tree_def
  by (auto intro!: logs_intros split: option.split)

lemma walk_directories_chain:
  "walk_directories K uid d parts w = (Inr e, w') \<Longrightarrow> trusted_chain (logged_events w') uid d parts e"
proof (induction parts arbitrary: d w)
  case Nil
  then show ?case by (simp add: sys_return_def chain_end)
next
  case (Cons component rest)
  from Cons.prems obtain i w1 md w2 where step:
    "sys_open_dir K (Some d, [component]) w = (Inr i, w1)" "sys_fstat K i w1 = (Inr md, w2)"
    "validate_config_directory_metadata md uid (rest \<noteq> []) = Inr ()" "walk_directories K uid i rest w2 = (Inr e, w')"
    by (auto simp: openat_directory_def sys_defs map_err_Inr_iff
        split: if_splits prod.splits sum.splits)
  have "logged_events w1 \<subseteq> logged_events w2" by (rule logged_events_mono [where S = UNIV and m = "sys_fstat K i", OF _ step(2)]) simp
  moreover have "logged_events w2 \<subseteq> logged_events w'" by (rule logged_events_mono [OF logs_walk step(4)])
  moreover note logged_looks(1) [OF step(1)] logged_looks(2) [OF step(2)]
  ultimately have "Ev_Open (Some d, [component]) i \<in> logged_events w'" "Ev_Fstat i md \<in> logged_events w'" by auto
  note seen = this
  show ?case
    by (rule chain_step [OF seen]) (use valid_directory_Inr [OF step(3)] Cons.IH [OF step(4)] in simp_all)
qed

lemma session_store_chain:
  fixes w :: "'z world_scheme"
  assumes "session_config_store_open K directory uid w = (Inr store, w')"
  shows "scs_trusted_uid store = uid \<and> (\<exists>path w1 root parts.
    (normalize_system_path K directory :: (failure, string, 'z) sys) w = (Inr path, w1) \<and>
    is_absolute path \<and> normal_components (components path) = Some parts \<and> parts \<noteq> [] \<and>
    Ev_Open (None, []) root \<in> logged_events w' \<and> trusted_chain (logged_events w') uid root parts (scs_directory store))"
proof -
  from assms obtain path w1 root w2 parts where run:
    "(normalize_system_path K directory :: (failure, string, 'z) sys) w = (Inr path, w1)"
    "is_absolute path" "sys_open_dir K (None, []) w1 = (Inr root, w2)" "normal_components (components path) = Some parts"
    "parts \<noteq> []" "walk_directories K uid root parts w2 = (Inr (scs_directory store), w')" "scs_trusted_uid store = uid"
    by (auto simp: session_config_store_open_def open_trusted_directory_tree_def sys_defs map_err_Inr_iff
        split: if_splits prod.splits sum.splits option.splits)
  have "Ev_Open (None, []) root \<in> logged_events w'"
    using logged_looks(1) [OF run(3)] logged_events_mono [OF logs_walk run(6)] by blast
  with run walk_directories_chain [OF run(6)] show ?thesis by blast
qed

text \<open>The path that is walked: the directory, or its name below \<open>/run\<close> when it was given through the link to it.\<close>

lemma normalize_system_path_Inr:
  assumes "normalize_system_path K path w = (Inr path', w')"
  shows "path' = path \<or> take 3 (components path) = [RootDir, Normal ''var'', Normal ''run''] \<and>
    path' = path_join ''/run'' (path_of (drop 3 (components path)))"
  using assms
  by (auto simp: normalize_system_path_def elim!: sys_matchE split: if_splits sum.splits)

end
