(* ===== verification/Server_Startup.thy ===== *)
theory Server_Startup
  imports Config_Store Test_Trust Control_Server
begin

text \<open>
  How the control server takes its sockets (\<open>control/server.rs\<close>): the private directories,
  the startup lock, the removal of sockets that a dead daemon left behind, the bind of the
  control socket with its guard, the accept loop and the shutdown.

  The recursion over nested session socket directories takes fuel, since other processes could
  nest directories faster than the scan descends; running out of fuel is the error \<open>None\<close>, and
  \<open>scan_returns\<close> shows that the depth of the tree is enough when nothing is added to it.
  The probe of a socket is the Linux one, through the descriptor of the directory, and the
  macOS one, through the path of the directory, with the resolution of that path as a parameter.
\<close>

subsection \<open>Private directories and the startup lock\<close>

definition ctx :: "string \<Rightarrow> (io_error, 'a, 'z) sys \<Rightarrow> (failure, 'a, 'z) sys" where
  "ctx message = sys_context (Context message)"

text \<open>The components are pushed onto a path one after the other; a missing one is created.\<close>

fun ensure_components :: "kernel \<Rightarrow> string \<Rightarrow> component list \<Rightarrow> (failure, unit, 'z) sys" where
  "ensure_components K current [] = sys_return ()"
| "ensure_components K current (c # cs) =
     (let current = path_join current (component_text c) in
      sys_match (sys_stat K (path_loc K current) False) (\<lambda>r. case r of
        Inr md \<Rightarrow>
          if md_kind md \<noteq> Directory
          then sys_fail (Bail ''control socket directory path contains a non-directory component'')
          else ensure_components K current cs
      | Inl e \<Rightarrow>
          if io_kind_of e = NotFoundKind then
            sys_then (ctx (''could not create directory '' @ current) (sys_mkdir K (path_loc K current) 0x1FF)) (\<lambda>_.
            sys_then (ctx ''could not restrict control directory permissions'' (sys_chmod K (path_loc K current) 0x1C0)) (\<lambda>_.
              ensure_components K current cs))
          else sys_fail (Context ''could not inspect control socket directory'' e)))"

definition ensure_private_directory :: "kernel \<Rightarrow> string \<Rightarrow> u32 \<Rightarrow> (failure, unit, 'z) sys" where
  "ensure_private_directory K path expected_uid =
     sys_then (ctx ''could not resolve working directory'' (absolute_path K path)) (\<lambda>logical.
     sys_then (normalize_system_path K logical) (\<lambda>absolute.
     sys_then (ensure_components K [] (components absolute)) (\<lambda>_.
     sys_then (ctx ''could not inspect control socket directory'' (sys_stat K (path_loc K absolute) False)) (\<lambda>md.
       if md_uid md \<noteq> expected_uid
       then sys_fail (Bail ''control socket directory is not owned by the trusted operator'')
       else if md_mode md AND 0x3F \<noteq> 0
       then sys_fail (Bail ''control socket directory permissions must be 0700 or more restrictive'')
       else sys_return ()))))"

definition with_file_name :: "string \<Rightarrow> string \<Rightarrow> string" where
  "with_file_name path name = path_of (butlast (components path) @ [Normal name])"

text \<open>\<open>StartupLock::acquire\<close>: the descriptor that holds the lock.\<close>

definition acquire_startup_lock :: "kernel \<Rightarrow> string \<Rightarrow> u32 \<Rightarrow> (failure, file_id, 'z) sys" where
  "acquire_startup_lock K control_socket expected_uid =
     (case file_name control_socket of
        None \<Rightarrow> sys_fail (Bail ''control socket path has no file name'')
      | Some name \<Rightarrow>
         (let lock_path = with_file_name control_socket (name @ ''.lock'') in
          sys_then (ctx (''could not open startup lock '' @ lock_path) (sys_open_create K (path_loc K lock_path) 0x180)) (\<lambda>file.
          sys_then (ctx (''could not inspect startup lock '' @ lock_path) (sys_fstat K file)) (\<lambda>md.
            if md_kind md \<noteq> RegularFile \<or> md_uid md \<noteq> expected_uid \<or> md_mode md AND 0x3F \<noteq> 0
            then sys_fail (Bail ''startup lock has unexpected owner, type, or permissions'')
            else sys_then (ctx (''could not lock startup file '' @ lock_path) (sys_flock K file)) (\<lambda>_.
              sys_return file)))))"

subsection \<open>Stale sockets\<close>

datatype socket_probe_result = Active | Stale | Changed

definition probe_socket_path :: "kernel \<Rightarrow> location \<Rightarrow> (io_error, socket_probe_result, 'z) sys" where
  "probe_socket_path K loc = sys_match (sys_connect K loc) (\<lambda>r. case r of
     Inr _ \<Rightarrow> sys_return Active
   | Inl e \<Rightarrow>
       if io_kind_of e = ConnectionRefusedKind \<or> io_kind_of e = NotFoundKind then sys_return Stale
       else sys_fail e)"

definition probe_pinned_socket :: "kernel \<Rightarrow> file_id \<Rightarrow> string \<Rightarrow> metadata \<Rightarrow> (io_error, socket_probe_result, 'z) sys" where
  "probe_pinned_socket K parent name md = probe_socket_path K (Some parent, [name])"

definition stat_path :: "kernel \<Rightarrow> string \<Rightarrow> bool \<Rightarrow> (io_error, metadata option, 'z) sys" where
  "stat_path K path follow_symlinks =
     (if CHR 0x00 \<in> set path then sys_fail (Custom InvalidInputKind ''path contains a null byte'')
      else sys_match (sys_stat K (path_loc K path) follow_symlinks) (\<lambda>r. case r of
        Inr md \<Rightarrow> sys_return (Some md)
      | Inl e \<Rightarrow>
          if io_kind_of e = NotFoundKind \<or> io_kind_of e = NotADirectoryKind then sys_return None
          else sys_fail e))"

definition path_still_names_pinned_socket ::
  "kernel \<Rightarrow> file_id \<Rightarrow> string \<Rightarrow> metadata \<Rightarrow> string \<Rightarrow> (io_error, bool, 'z) sys" where
  "path_still_names_pinned_socket K parent name expected_socket parent_path =
     sys_then (stat_path K parent_path True) (\<lambda>found. case found of
       None \<Rightarrow> sys_return False
     | Some path_parent \<Rightarrow>
         sys_then (sys_fstat K parent) (\<lambda>pinned_parent.
         if \<not> same_directory path_parent pinned_parent then sys_return False
         else sys_then (stat_path K (path_join parent_path name) False) (\<lambda>found. case found of
           None \<Rightarrow> sys_return False
         | Some path_socket \<Rightarrow>
             sys_return (md_kind path_socket = SocketFile \<and> md_uid path_socket = md_uid expected_socket \<and>
               md_id path_socket = md_id expected_socket))))"

definition probe_socket_via_resolved_path ::
  "kernel \<Rightarrow> (file_id \<Rightarrow> (io_error, string, 'z) sys) \<Rightarrow> file_id \<Rightarrow> string \<Rightarrow> metadata \<Rightarrow>
    (io_error, socket_probe_result, 'z) sys" where
  "probe_socket_via_resolved_path K resolve_parent_path parent name md =
     sys_then (resolve_parent_path parent) (\<lambda>parent_path.
     sys_match (sys_connect K (path_loc K (path_join parent_path name))) (\<lambda>r. case r of
       Inr _ \<Rightarrow> sys_return Active
     | Inl e \<Rightarrow>
         if io_kind_of e = ConnectionRefusedKind \<or> io_kind_of e = NotFoundKind then
           sys_match (resolve_parent_path parent) (\<lambda>again. case again of
             Inl e' \<Rightarrow> sys_return Changed
           | Inr current_parent_path \<Rightarrow>
               if current_parent_path \<noteq> parent_path then sys_return Changed
               else sys_then (path_still_names_pinned_socket K parent name md parent_path) (\<lambda>same.
                 sys_return (if same then Stale else Changed)))
         else sys_fail e))"

text \<open>Whether an entry is a socket of the trusted operator.\<close>

definition operator_socket :: "u32 \<Rightarrow> metadata \<Rightarrow> bool" where
  "operator_socket uid md \<longleftrightarrow> md_kind md = SocketFile \<and> md_uid md = uid"

text \<open>After a stale answer: the entry must still be the socket that was probed.\<close>

definition unlink_stale_socket :: "kernel \<Rightarrow> file_id \<Rightarrow> string \<Rightarrow> string \<Rightarrow> u32 \<Rightarrow> metadata \<Rightarrow> (failure, bool, 'z) sys" where
  "unlink_stale_socket K parent name display_path expected_uid md =
     sys_then (ctx (''could not recheck '' @ display_path) (stat_at K parent name)) (\<lambda>found. case found of
       None \<Rightarrow> sys_return False
     | Some current \<Rightarrow>
         if \<not> operator_socket expected_uid current \<or> md_id current \<noteq> md_id md
         then sys_fail (Bail ''socket path changed during stale socket cleanup'')
         else sys_match (sys_unlink K (Some parent, [name])) (\<lambda>r. case r of
           Inr _ \<Rightarrow> sys_return True
         | Inl e \<Rightarrow>
             if io_kind_of e = NotFoundKind then sys_return False
             else sys_fail (Context (''could not remove stale socket '' @ display_path) e)))"

definition remove_stale_socket_at_with_probe ::
  "kernel \<Rightarrow> (file_id \<Rightarrow> string \<Rightarrow> metadata \<Rightarrow> (io_error, socket_probe_result, 'z) sys) \<Rightarrow>
    file_id \<Rightarrow> string \<Rightarrow> string \<Rightarrow> u32 \<Rightarrow> (failure, bool, 'z) sys" where
  "remove_stale_socket_at_with_probe K probe parent name display_path expected_uid =
     sys_then (ctx (''could not inspect '' @ display_path) (stat_at K parent name)) (\<lambda>found. case found of
       None \<Rightarrow> sys_return False
     | Some md \<Rightarrow>
         if \<not> operator_socket expected_uid md then sys_return False
         else sys_then (ctx (''could not check whether socket '' @ display_path @ '' is active'') (probe parent name md)) (\<lambda>result.
           if result = Stale then unlink_stale_socket K parent name display_path expected_uid md
           else sys_return False))"

definition remove_stale_socket_at :: "kernel \<Rightarrow> file_id \<Rightarrow> string \<Rightarrow> string \<Rightarrow> u32 \<Rightarrow> (failure, bool, 'z) sys" where
  "remove_stale_socket_at K = remove_stale_socket_at_with_probe K (probe_pinned_socket K)"

definition open_socket_directory :: "kernel \<Rightarrow> string \<Rightarrow> (io_error, file_id, 'z) sys" where
  "open_socket_directory K path = sys_open_dir K (path_loc K path)"

definition remove_stale_socket :: "kernel \<Rightarrow> string \<Rightarrow> u32 \<Rightarrow> (failure, bool, 'z) sys" where
  "remove_stale_socket K path expected_uid =
     (case file_name path of
        None \<Rightarrow> sys_fail (Bail ''socket path has no file name'')
      | Some name \<Rightarrow>
          if CHR 0x00 \<in> set name then sys_fail (Bail ''socket path contains a null byte'')
          else sys_then (ctx (''could not open socket directory '' @ parent_or_dot path)
              (open_socket_directory K (parent_or_dot path))) (\<lambda>parent.
            remove_stale_socket_at K parent name path expected_uid))"

definition directory_entry_names :: "kernel \<Rightarrow> file_id \<Rightarrow> (io_error, string list, 'z) sys" where
  "directory_entry_names K directory =
     sys_then (sys_dup K directory) (\<lambda>stream.
     sys_then (sys_readdir K stream) (\<lambda>names.
       sys_return (filter (\<lambda>n. n \<noteq> ''.'' \<and> n \<noteq> ''..'') names)))"

text \<open>Errors of the scan: \<open>None\<close> when the fuel has run out.\<close>

type_synonym 'z scan = "(failure option, unit, 'z) sys"

definition scan_ctx :: "string \<Rightarrow> (io_error, 'a, 'z) sys \<Rightarrow> (failure option, 'a, 'z) sys" where
  "scan_ctx message = sys_context (\<lambda>e. Some (Context message e))"

definition scan_subdirectory :: "(file_id \<Rightarrow> string \<Rightarrow> 'z scan) \<Rightarrow> kernel \<Rightarrow> file_id \<Rightarrow> string \<Rightarrow> string \<Rightarrow> metadata \<Rightarrow> 'z scan" where
  "scan_subdirectory rec K directory name path md =
     sys_match (sys_open_dir K (Some directory, [name])) (\<lambda>r. case r of
       Inl e \<Rightarrow>
         if io_kind_of e = NotFoundKind \<or> io_kind_of e = NotADirectoryKind \<or> e = Os ELOOP then sys_return ()
         else sys_fail (Some (Context (''could not open nested session socket directory '' @ path) e))
     | Inr child \<Rightarrow>
         sys_then (scan_ctx (''could not inspect '' @ path) (sys_fstat K child)) (\<lambda>opened.
           if md_id opened \<noteq> md_id md then sys_return () else rec child path))"

fun scan_entries :: "(file_id \<Rightarrow> string \<Rightarrow> 'z scan) \<Rightarrow> kernel \<Rightarrow> file_id \<Rightarrow> string \<Rightarrow> u32 \<Rightarrow> string list \<Rightarrow> 'z scan" where
  "scan_entries rec K directory display_path uid [] = sys_return ()"
| "scan_entries rec K directory display_path uid (name # names) =
     (let path = path_join display_path name in
      sys_then (scan_ctx (''could not inspect '' @ path) (stat_at K directory name)) (\<lambda>found.
      sys_then (case found of
          None \<Rightarrow> sys_return ()
        | Some md \<Rightarrow>
            if md_kind md = Directory then scan_subdirectory rec K directory name path md
            else if md_kind md = SocketFile then
              sys_then (sys_context Some (remove_stale_socket_at K directory name path uid)) (\<lambda>_. sys_return ())
            else sys_return ()) (\<lambda>_.
        scan_entries rec K directory display_path uid names)))"

fun remove_stale_session_sockets_at :: "nat \<Rightarrow> kernel \<Rightarrow> u32 \<Rightarrow> file_id \<Rightarrow> string \<Rightarrow> 'z scan" where
  "remove_stale_session_sockets_at 0 K uid directory display_path = sys_fail None"
| "remove_stale_session_sockets_at (Suc fuel) K uid directory display_path =
     sys_then (scan_ctx (''could not read session socket directory '' @ display_path) (directory_entry_names K directory)) (\<lambda>names.
       scan_entries (remove_stale_session_sockets_at fuel K uid) K directory display_path uid names)"

definition remove_stale_session_sockets :: "nat \<Rightarrow> kernel \<Rightarrow> string \<Rightarrow> u32 \<Rightarrow> 'z scan" where
  "remove_stale_session_sockets fuel K directory uid =
     sys_then (scan_ctx (''could not open session socket directory '' @ directory) (open_socket_directory K directory)) (\<lambda>fd.
       remove_stale_session_sockets_at fuel K uid fd directory)"


subsection \<open>The control socket\<close>

text \<open>The guard of the control socket works on the path, and leaves a replacement alone.\<close>

record socket_guard =
  sg_path :: string
  sg_device :: u64
  sg_inode :: u64

definition drop_socket_guard :: "kernel \<Rightarrow> socket_guard \<Rightarrow> ('e, unit, 'z) sys" where
  "drop_socket_guard K guard =
     sys_match (sys_stat K (path_loc K (sg_path guard)) False) (\<lambda>r. case r of
       Inr md \<Rightarrow>
         if md_kind md = SocketFile \<and> md_dev md = sg_device guard \<and> md_ino md = sg_inode guard
         then sys_match (sys_unlink K (path_loc K (sg_path guard))) (\<lambda>_. sys_return ())
         else sys_return ()
     | Inl e \<Rightarrow> sys_return ())"

text \<open>From the bound listener to the guarded socket; an error drops the guard, then the listener.\<close>

definition restrict_control_socket :: "kernel \<Rightarrow> u32 \<Rightarrow> file_id \<Rightarrow> socket_guard \<Rightarrow> (failure option, file_id \<times> socket_guard, 'z) sys" where
  "restrict_control_socket K trusted_uid listener guard =
     (let loc = path_loc K (sg_path guard);
          abandon = (\<lambda>e. sys_then (drop_socket_guard K guard) (\<lambda>_. sys_match (sys_close K listener) (\<lambda>_. sys_fail (Some e))))
      in sys_match (sys_chmod K loc 0x180) (\<lambda>r. case r of
           Inl e \<Rightarrow> abandon (Context ''could not restrict control socket permissions'' e)
         | Inr _ \<Rightarrow>
             sys_match (sys_stat K loc False) (\<lambda>s. case s of
               Inl e \<Rightarrow> abandon (Context ''could not inspect bound control socket'' e)
             | Inr md \<Rightarrow>
                 if md_kind md \<noteq> SocketFile \<or> md_uid md \<noteq> trusted_uid \<or> md_mode md AND 0x1FF \<noteq> 0x180
                 then abandon (Bail ''bound control socket has unexpected owner or permissions'')
                 else sys_return (listener, guard))))"

definition bind_control_socket :: "kernel \<Rightarrow> string \<Rightarrow> u32 \<Rightarrow> (failure option, file_id \<times> socket_guard, 'z) sys" where
  "bind_control_socket K control_socket trusted_uid =
     (let loc = path_loc K control_socket in
      sys_then (scan_ctx (''could not bind control socket '' @ control_socket) (sys_bind K loc)) (\<lambda>listener.
      sys_match (sys_stat K loc False) (\<lambda>r. case r of
        Inl e \<Rightarrow> sys_match (sys_close K listener)
          (\<lambda>_. sys_fail (Some (Context ''could not inspect bound control socket'' e)))
      | Inr md \<Rightarrow>
          if md_kind md \<noteq> SocketFile then
            sys_match (sys_close K listener) (\<lambda>_. sys_fail (Some (Bail ''bound control socket has unexpected file type'')))
          else restrict_control_socket K trusted_uid listener
            \<lparr>sg_path = control_socket, sg_device = md_dev md, sg_inode = md_ino md\<rparr>)))"

definition clear_control_socket :: "kernel \<Rightarrow> string \<Rightarrow> u32 \<Rightarrow> (failure, unit, 'z) sys" where
  "clear_control_socket K control_socket trusted_uid =
     sys_match (sys_stat K (path_loc K control_socket) False) (\<lambda>r. case r of
       Inr md \<Rightarrow>
         if md_kind md = SocketFile then
           sys_then (remove_stale_socket K control_socket trusted_uid) (\<lambda>removed.
             sys_ensure removed (Bail ''control socket path already exists''))
         else sys_fail (Bail ''control socket path already exists'')
     | Inl e \<Rightarrow>
         if io_kind_of e = NotFoundKind then sys_return ()
         else sys_fail (Context ''could not inspect control socket path'' e))"

text \<open>
  \<open>ControlServer::bind\<close>. The lock is held until the socket is bound, and released with its
  descriptor.
\<close>

record control_server =
  sv_listener :: "file_id option"
  sv_socket_guard :: "socket_guard option"
  sv_trusted_operator_uid :: u32
  sv_create_mode :: session_create_mode
  sv_secret_store :: secret_store
  sv_session_configs :: "session_config_store option"
  sv_test_upstream_trust :: test_upstream_trust
  sv_daemon :: daemon
  sv_connections :: nat
  sv_session_cleanups :: "(string \<times> u64) list"

definition open_session_configs :: "kernel \<Rightarrow> daemon_settings \<Rightarrow> (failure, session_config_store option, 'z) sys" where
  "open_session_configs K settings =
     (case ds_create_mode settings of
        Inline \<Rightarrow> sys_return None
      | FileOnly \<Rightarrow>
         (case ds_session_config_dir settings of
            None \<Rightarrow> sys_fail (Bail ''file-only mode requires a session configuration directory'')
          | Some directory \<Rightarrow>
              sys_then (session_config_store_open K directory (ds_trusted_operator_uid settings)) (\<lambda>store.
                sys_return (Some store))))"

definition control_server_new :: "daemon_config \<Rightarrow> test_upstream_trust \<Rightarrow> session_config_store option \<Rightarrow> file_id \<times> socket_guard \<Rightarrow> control_server" where
  "control_server_new config trust session_configs bound =
     (let settings = dc_daemon config in
      \<lparr>sv_listener = Some (fst bound), sv_socket_guard = Some (snd bound),
       sv_trusted_operator_uid = ds_trusted_operator_uid settings, sv_create_mode = ds_create_mode settings,
       sv_secret_store = \<lparr>ss_directory = sst_directory (dc_secrets config),
         ss_trusted_operator_uid = ds_trusted_operator_uid settings, ss_allowed = sst_allowed (dc_secrets config)\<rparr>,
       sv_session_configs = session_configs, sv_test_upstream_trust = trust,
       sv_daemon = \<lparr>dm_registry = registry_new, dm_metrics = metrics_default,
         dm_slots = ds_max_provisioning_requests settings\<rparr>,
       sv_connections = 0, sv_session_cleanups = []\<rparr>)"

definition prepare_startup :: "nat \<Rightarrow> kernel \<Rightarrow> daemon_settings \<Rightarrow>
    (failure option, session_config_store option, 'z) sys" where
  "prepare_startup fuel K settings =
     (let control_socket = ds_control_socket settings;
          socket_dir = ds_socket_dir settings;
          uid = ds_trusted_operator_uid settings
      in sys_then (sys_context Some (ensure_private_directory K (parent_or_dot control_socket) uid)) (\<lambda>_.
         sys_then (sys_context Some (ensure_private_directory K socket_dir uid)) (\<lambda>_.
         sys_then (sys_context Some (acquire_startup_lock K control_socket uid)) (\<lambda>lock.
         sys_then (sys_context Some (open_session_configs K settings)) (\<lambda>session_configs.
         sys_then (sys_context Some (clear_control_socket K control_socket uid)) (\<lambda>_.
         sys_then (remove_stale_session_sockets fuel K socket_dir uid) (\<lambda>_.
           sys_return session_configs)))))))"

definition control_bind :: "nat \<Rightarrow> kernel \<Rightarrow> trust_env \<Rightarrow> daemon_config \<Rightarrow> (failure option, control_server, 'z) sys" where
  "control_bind fuel K trust config =
     sys_then (sys_context (\<lambda>e. Some (Context_of ''invalid test upstream TLS trust configuration'' e))
       (from_environment K trust)) (\<lambda>test_upstream_trust.
     sys_then (prepare_startup fuel K (dc_daemon config)) (\<lambda>session_configs.
     sys_then (bind_control_socket K (ds_control_socket (dc_daemon config))
         (ds_trusted_operator_uid (dc_daemon config))) (\<lambda>bound.
       sys_return (control_server_new config test_upstream_trust session_configs bound))))"

text \<open>
  One turn of \<open>ControlServer::run\<close>: what the selection delivered, and the tasks it starts.
\<close>

datatype select_event =
    Accepted "io_error + unit"
  | ConnectionJoined
  | CleanupJoined
  | RuntimeExited string u64

definition run_select :: "select_event \<Rightarrow> control_server \<Rightarrow> failure + control_server" where
  "run_select event server =
     (if sv_listener server = None then Inl (Bail ''control server is shutting down'')
      else case event of
        Accepted (Inl e) \<Rightarrow> Inl (Context ''control socket accept failed'' e)
      | Accepted (Inr _) \<Rightarrow> Inr (server\<lparr>sv_connections := sv_connections server + 1\<rparr>)
      | ConnectionJoined \<Rightarrow> Inr (server\<lparr>sv_connections := sv_connections server - 1\<rparr>)
      | CleanupJoined \<Rightarrow> Inr (server\<lparr>sv_session_cleanups := tl (sv_session_cleanups server)\<rparr>)
      | RuntimeExited sid generation \<Rightarrow>
          Inr (server\<lparr>sv_session_cleanups := sv_session_cleanups server @ [(sid, generation)]\<rparr>))"

text \<open>\<open>SessionManager::runtime_exit\<close>, the task that a runtime event starts.\<close>

definition runtime_exit :: "waits \<Rightarrow> string \<times> u64 \<Rightarrow> daemon \<Rightarrow> daemon" where
  "runtime_exit others exited d = (case exited of (sid, listener_generation) \<Rightarrow>
     (case rg_sessions (dm_registry d) sid of
        None \<Rightarrow> d
      | Some _ \<Rightarrow>
          (case runtime_exit_mark sid listener_generation (others 4 (dm_registry d)) of
             (Taken _, registry) \<Rightarrow> remove_taken others sid registry d
           | (_, registry) \<Rightarrow> d\<lparr>dm_registry := registry\<rparr>)))"

primrec sessions_stopped :: "nat \<Rightarrow> metrics \<Rightarrow> metrics" where
  "sessions_stopped 0 m = m"
| "sessions_stopped (Suc n) m = sessions_stopped n (snd (session_stopped m))"

text \<open>
  \<open>ControlServer::shutdown\<close>: the listener is closed first and new sessions are refused,
  connections are cancelled and pending cleanups awaited, then every session is shut down and the
  socket guard dropped. The identifiers are those the shutdown finds in the registry. The
  runtimes that are shut down are returned.
\<close>

definition shutdown_daemon :: "(daemon \<Rightarrow> string list) \<Rightarrow> (string \<times> u64) list \<Rightarrow> daemon \<Rightarrow> runtime list \<times> daemon" where
  "shutdown_daemon session_ids cleanups d =
     (let d = fold (runtime_exit (\<lambda>_ r. r)) cleanups
            (d\<lparr>dm_registry := reject_new_sessions (dm_registry d)\<rparr>)
      in case shutdown_all (session_ids d) (dm_registry d) of
           (runtimes, session_count, registry) \<Rightarrow>
             (runtimes, d\<lparr>dm_registry := registry, dm_metrics := sessions_stopped session_count (dm_metrics d)\<rparr>))"

definition shutdown_server :: "kernel \<Rightarrow> (daemon \<Rightarrow> string list) \<Rightarrow> control_server \<Rightarrow>
    ('e, runtime list \<times> control_server, 'z) sys" where
  "shutdown_server K session_ids server =
     (case shutdown_daemon session_ids (sv_session_cleanups server) (sv_daemon server) of
        (runtimes, d) \<Rightarrow>
          sys_then (case sv_listener server of
              None \<Rightarrow> sys_return ()
            | Some listener \<Rightarrow> sys_match (sys_close K listener) (\<lambda>_. sys_return ())) (\<lambda>_.
          sys_then (case sv_socket_guard server of
              None \<Rightarrow> sys_return ()
            | Some guard \<Rightarrow> drop_socket_guard K guard) (\<lambda>_.
            sys_return (runtimes, server\<lparr>sv_listener := None, sv_socket_guard := None, sv_connections := 0,
              sv_session_cleanups := [], sv_daemon := d\<rparr>))))"

subsection \<open>Only stale sockets are removed\<close>

text \<open>
  What may be removed at startup: an entry of which the runtime has just seen that it is a socket
  of the operator. When no other process acts between the failed connection and the removal,
  nothing listens on it.
\<close>

definition stale_removal :: "kernel \<Rightarrow> u32 \<Rightarrow> nat \<Rightarrow> node \<Rightarrow> bool" where
  "stale_removal K uid t nd \<longleftrightarrow>
     (quiet K t \<longrightarrow> nd_kind nd = SocketFile \<and> nd_uid nd = uid) \<and>
     (quiet K (t - 1) \<and> quiet K t \<and> k_fault K (t - 2) = None \<longrightarrow> \<not> nd_listening nd)"

definition startup_events :: "kernel \<Rightarrow> u32 \<Rightarrow> (nat \<times> fs_event) set" where
  "startup_events K uid = {(t, ev). (\<forall>loc v. ev \<noteq> Ev_Rmdir loc v) \<and>
     (\<forall>loc v nd. ev = Ev_Unlink loc v nd \<longrightarrow> stale_removal K uid t nd)}"

lemma startup_member [simp]: "\<not> is_removal ev \<Longrightarrow> (t, ev) \<in> startup_events K uid"
  by (auto simp: startup_events_def)

lemma keeps_startup: "keeps_entries \<subseteq> startup_events K uid"
  by (auto simp: startup_events_def)

lemma probe_stale:
  assumes "probe_pinned_socket K d n md w = (Inr Stale, w')"
  shows "w_tick w' = Suc (w_tick w)"
    "k_fault K (w_tick w) = None \<Longrightarrow> locate (w_fs w') (Some d, [n]) True = Inr i \<Longrightarrow>
      fs_node (w_fs w') i = Some nd \<Longrightarrow> \<not> (nd_kind nd = SocketFile \<and> nd_listening nd)"
proof -
  obtain e where "sys_connect K (Some d, [n]) w = (Inl e, w')"
    using assms by (auto simp: probe_pinned_socket_def probe_socket_path_def sys_defs
        split: prod.splits sum.splits if_splits)
  then show "w_tick w' = Suc (w_tick w)"
    "k_fault K (w_tick w) = None \<Longrightarrow> locate (w_fs w') (Some d, [n]) True = Inr i \<Longrightarrow>
      fs_node (w_fs w') i = Some nd \<Longrightarrow> \<not> (nd_kind nd = SocketFile \<and> nd_listening nd)"
    by (auto dest: sys_connect_tick sys_connect_Inl)
qed

text \<open>The last step of the cleanup: a stale answer, the check of the entry, the removal.\<close>

lemma unlink_after_probe:
  assumes "probe_pinned_socket K d n md0 w0 = (Inr Stale, w1)" "stat_at K d n w1 = (Inr (Some md), w2)"
    "operator_socket uid md" "sys_unlink K (Some d, [n]) w2 = (r, w3)"
  shows "w_log w3 = w_log w2 \<or>
    (\<exists>v nd. w_log w3 = (w_tick w2, Ev_Unlink (Some d, [n]) v nd) # w_log w2 \<and> stale_removal K uid (w_tick w2) nd)"
proof -
  have saw: "stat_saw K (Some d, [n]) md w2" and t2: "w_tick w2 = Suc (w_tick w1)"
    using stat_at_saw [OF assms(2)] by auto
  have t1: "w_tick w1 = Suc (w_tick w0)" by (rule probe_stale(1) [OF assms(1)])
  have loc: "locate (k_env K (w_tick w1) (w_fs w1)) (Some d, [n]) False = Inr (md_id md)"
    by (rule stat_at_Inr(1) [OF assms(2)])
  from unlink_victim [OF saw assms(4)] show ?thesis
  proof (elim disjE exE conjE)
    fix v nd
    assume log: "w_log w3 = (w_tick w2, Ev_Unlink (Some d, [n]) v nd) # w_log w2"
      and v: "quiet K (w_tick w2) \<longrightarrow> v = md_id md \<and> stat_of v nd = md \<and> fs_node (w_fs w2) v = Some nd"
    have "stale_removal K uid (w_tick w2) nd"
      unfolding stale_removal_def
    proof (intro conjI impI)
      assume q: "quiet K (w_tick w2)"
      with v assms(3) show "nd_kind nd = SocketFile" "nd_uid nd = uid"
        by (auto simp: operator_socket_def dest: stat_of_fields)
    next
      assume q: "quiet K (w_tick w2 - 1) \<and> quiet K (w_tick w2) \<and> k_fault K (w_tick w2 - 2) = None"
      then have same: "w_fs w2 = w_fs w1"
        using stat_at_Inr(4) [OF assms(2)] t2 by (simp add: quiet_def)
      with q v t1 t2 loc have "locate (w_fs w1) (Some d, [n]) False = Inr v" "fs_node (w_fs w1) v = Some nd"
        by (auto simp: quiet_def)
      moreover have "nd_kind nd = SocketFile" using q v assms(3) by (auto simp: operator_socket_def dest: stat_of_fields)
      ultimately show "\<not> nd_listening nd"
        using probe_stale(2) [OF assms(1), of v nd] locate_follow_same [of "w_fs w1" d n v nd] q t1 t2 by simp
    qed
    with log show ?thesis by blast
  qed simp
qed


lemma probe_passive [simp]: "logs keeps_entries (probe_pinned_socket K d n md)" "frames (probe_pinned_socket K d n md)"
  unfolding probe_pinned_socket_def probe_socket_path_def
  by (auto intro!: logs_intros frames_intros split: sum.split)

lemma logs_passive: "logs keeps_entries m \<Longrightarrow> logs (startup_events K uid) m"
  by (rule logs_mono [OF _ keeps_startup])

lemma unlink_stale_socket_adds:
  assumes probe: "probe_pinned_socket K d n md w0 = (Inr Stale, w)"
    and run: "unlink_stale_socket K d n path uid md w = (r, w')"
  shows "adds (startup_events K uid) w w'"
proof -
  obtain s w1 where s: "stat_at K d n w = (s, w1)" by (meson surj_pair)
  have a1: "adds (startup_events K uid) w w1"
    by (rule logs_adds [where m = "stat_at K d n", OF logs_passive s]) simp
  obtain u w2 where u: "sys_unlink K (Some d, [n]) w1 = (u, w2)" by (meson surj_pair)
  show ?thesis
  proof (cases "\<exists>md'. s = Inr (Some md') \<and> operator_socket uid md' \<and> md_id md' = md_id md")
    case True
    then obtain md' where md': "s = Inr (Some md')" "operator_socket uid md'" by blast
    have "adds (startup_events K uid) w1 w2"
      using unlink_after_probe [OF probe s [unfolded md'] md'(2) u] syscall_tick [OF u [unfolded sys_unlink_def]]
      by (auto simp: adds_def startup_events_def)
    moreover have "w' = w2"
      using run s u md' True
      by (auto simp: unlink_stale_socket_def ctx_def sys_then_def sys_context_def sys_match_def
          split: sum.splits if_splits)
    ultimately show ?thesis using a1 adds_trans by blast
  next
    case False
    then have "w' = w1"
      using run s
      by (auto simp: unlink_stale_socket_def ctx_def sys_then_def sys_context_def
          result_simps split: sum.splits option.splits if_splits)
    with a1 show ?thesis by simp
  qed
qed

lemma logs_remove_stale_socket_at [simp]:
  "logs (startup_events K uid) (remove_stale_socket_at K d n path uid)"
proof (rule logsI)
  fix w :: "'a world_scheme" and r w'
  assume run: "remove_stale_socket_at K d n path uid w = (r, w')"
  let ?S = "startup_events K uid"
  obtain s w1 where s: "stat_at K d n w = (s, w1)" by (meson surj_pair)
  have a1: "adds ?S w w1" by (rule logs_adds [where m = "stat_at K d n", OF logs_passive s]) simp
  show "adds ?S w w'"
  proof (cases "\<exists>md. s = Inr (Some md) \<and> operator_socket uid md")
    case False
    then have "w' = w1" using run s
      by (auto simp: remove_stale_socket_at_def remove_stale_socket_at_with_probe_def ctx_def sys_then_def
          sys_context_def result_simps split: sum.splits option.splits if_splits)
    with a1 show ?thesis by simp
  next
    case True
    then obtain md where md: "s = Inr (Some md)" "operator_socket uid md" by blast
    obtain p w2 where p: "probe_pinned_socket K d n md w1 = (p, w2)" by (meson surj_pair)
    have a2: "adds ?S w w2"
      by (rule adds_trans [OF a1 logs_adds [where m = "probe_pinned_socket K d n md", OF logs_passive p]]) simp
    have "w' = w2 \<or> (p = Inr Stale \<and> unlink_stale_socket K d n path uid md w2 = (r, w'))"
      using run s md p
      by (auto simp: remove_stale_socket_at_def remove_stale_socket_at_with_probe_def ctx_def sys_then_def
          sys_context_def result_simps split: sum.splits if_splits)
    then show ?thesis
      using a2 unlink_stale_socket_adds [of K d n md w1 w2] p by (blast intro: adds_trans)
  qed
qed


text \<open>The scan of the session sockets, and all that comes before the bind.\<close>

lemma logs_scan_entries:
  assumes "\<And>child path. logs (startup_events K uid) (rec child path)"
  shows "logs (startup_events K uid) (scan_entries rec K d path uid names)"
proof (induction names)
  case (Cons name names)
  have "logs (startup_events K uid) (scan_subdirectory rec K d name p md)" for p md
    unfolding scan_subdirectory_def scan_ctx_def
    by (intro logs_intros) (auto intro!: logs_intros assms split: sum.split)
  with Cons show ?case
    unfolding scan_entries.simps Let_def scan_ctx_def
    by (intro logs_intros) (auto intro!: logs_intros split: option.split)
qed simp

lemma logs_scan [simp]: "logs (startup_events K uid) (remove_stale_session_sockets_at fuel K uid d path)"
proof (induction fuel arbitrary: d path)
  case (Suc fuel)
  then show ?case
    unfolding remove_stale_session_sockets_at.simps scan_ctx_def directory_entry_names_def
    by (intro logs_intros logs_scan_entries) (auto intro: logs_passive)
qed simp

lemma logs_ensure_components: "logs keeps_entries (ensure_components K current cs)"
  by (induction cs arbitrary: current)
    (auto simp: Let_def ctx_def intro!: logs_intros split: sum.split)

lemma startup_passive:
  "logs keeps_entries (ensure_private_directory K path uid)"
  "logs keeps_entries (acquire_startup_lock K path uid)"
  unfolding ensure_private_directory_def acquire_startup_lock_def ctx_def
  by (auto simp: Let_def intro!: logs_intros logs_ensure_components split: option.split)

lemma logs_clear_control_socket: "logs (startup_events K uid) (clear_control_socket K path uid)"
proof -
  have "logs (startup_events K uid) (remove_stale_socket K path uid)"
    unfolding remove_stale_socket_def ctx_def open_socket_directory_def
    by (auto intro!: logs_intros split: option.split)
  then show ?thesis
    unfolding clear_control_socket_def
    by (intro logs_intros) (auto intro!: logs_intros split: sum.split)
qed

lemma logs_remove_stale_session_sockets: "logs (startup_events K uid) (remove_stale_session_sockets fuel K path uid)"
  unfolding remove_stale_session_sockets_def scan_ctx_def open_socket_directory_def
  by (intro logs_intros) (auto intro: logs_passive)

text \<open>The guard of the control socket removes what it has recorded, and nothing else.\<close>

definition guard_events :: "kernel \<Rightarrow> socket_guard \<Rightarrow> (nat \<times> fs_event) set" where
  "guard_events K g = {(t, ev). is_removal ev \<longrightarrow>
     (\<exists>v nd. ev = Ev_Unlink (path_loc K (sg_path g)) v nd \<and> (quiet K t \<longrightarrow> v = Fid (sg_device g) (sg_inode g)))}"

lemma guard_member [simp]: "\<not> is_removal ev \<Longrightarrow> (t, ev) \<in> guard_events K g"
  by (simp add: guard_events_def)

lemma keeps_guard: "keeps_entries \<subseteq> guard_events K g"
  by (auto simp: guard_events_def)

lemma logs_drop_socket_guard [simp]: "logs (guard_events K g) (drop_socket_guard K g :: ('e, unit, 'z) sys)"
proof (rule logsI)
  fix w :: "'z world_scheme" and r :: "'e + unit" and w'
  let ?loc = "path_loc K (sg_path g)"
  assume run: "drop_socket_guard K g w = (r, w')"
  obtain s w1 where s: "sys_stat K ?loc False w = (s, w1)" by (meson surj_pair)
  have a1: "adds (guard_events K g) w w1"
    by (rule logs_adds [where m = "sys_stat K ?loc False", OF logs_mono [OF _ keeps_guard] s]) simp
  obtain u w2 where u: "sys_unlink K ?loc w1 = (u, w2)" by (meson surj_pair)
  consider "w' = w1" | md where "w' = w2" "s = Inr md" "md_id md = Fid (sg_device g) (sg_inode g)"
    using run s u by (auto simp: drop_socket_guard_def sys_match_def md_id_def split: sum.splits if_splits)
  then show "adds (guard_events K g) w w'"
  proof cases
    case 2
    have "stat_saw K ?loc md w1" using sys_stat_saw s 2(2) by blast
    from unlink_victim [OF this u] have "adds (guard_events K g) w1 w2"
      using syscall_tick [OF u [unfolded sys_unlink_def]] 2(3) by (auto simp: adds_def guard_events_def)
    with a1 2 show ?thesis by (blast intro: adds_trans)
  qed (use a1 in auto)
qed

lemma logs_restrict_control_socket [simp]: "logs (guard_events K g) (restrict_control_socket K uid listener g)"
  unfolding restrict_control_socket_def Let_def
  by (intro logs_intros) (auto intro!: logs_intros split: sum.split)


lemma open_session_configs_passive: "logs keeps_entries (open_session_configs K settings)"
  unfolding open_session_configs_def
  by (auto intro!: logs_intros store_open_passive split: session_create_mode.split option.split)

lemma logs_prepare_startup: "logs (startup_events K (ds_trusted_operator_uid settings)) (prepare_startup fuel K settings)"
  unfolding prepare_startup_def Let_def
  by (intro logs_intros logs_clear_control_socket logs_remove_stale_session_sockets)
    (auto intro: logs_passive startup_passive open_session_configs_passive)

definition bound_events :: "kernel \<Rightarrow> location \<Rightarrow> (nat \<times> fs_event) list \<Rightarrow> (nat \<times> fs_event) set" where
  "bound_events K loc log = {(t, ev). is_removal ev \<longrightarrow>
     (\<exists>v nd t0 i. ev = Ev_Unlink loc v nd \<and> (t0, Ev_Bind loc i) \<in> set log \<and> t0 < t \<and>
        (quiet K (Suc t0) \<and> quiet K t \<longrightarrow> v = i))}"

lemma bound_member [simp]: "\<not> is_removal ev \<Longrightarrow> (t, ev) \<in> bound_events K loc log"
  by (simp add: bound_events_def)

text \<open>A guard that records the socket which was bound at its path.\<close>

definition guards_bound :: "kernel \<Rightarrow> string \<Rightarrow> socket_guard \<Rightarrow> 'z world_scheme \<Rightarrow> bool" where
  "guards_bound K path g w \<longleftrightarrow> sg_path g = path \<and>
     (\<exists>t0 i. (t0, Ev_Bind (path_loc K path) i) \<in> set (w_log w) \<and> t0 < w_tick w \<and>
        (quiet K (Suc t0) \<longrightarrow> Fid (sg_device g) (sg_inode g) = i))"

abbreviation guard_of :: "string \<Rightarrow> metadata \<Rightarrow> socket_guard" where
  "guard_of path md \<equiv> \<lparr>sg_path = path, sg_device = md_dev md, sg_inode = md_ino md\<rparr>"

lemma bind_then_guards:
  "sys_bind K (path_loc K path) w = (Inr i, w1) \<Longrightarrow> sys_stat K (path_loc K path) False w1 = (Inr md, w2) \<Longrightarrow>
     guards_bound K path (guard_of path md) w2"
  using bind_then_stat_path unfolding guards_bound_def md_id_def by fastforce

lemma guards_bound_mono: "guards_bound K path g w \<Longrightarrow> adds S w w' \<Longrightarrow> guards_bound K path g w'"
  unfolding guards_bound_def by (drule adds_past) (fastforce intro: order_less_le_trans)

lemma guards_bound_adds:
  assumes g: "guards_bound K path g w" and a: "adds (guard_events K g) w w'"
  shows "adds (bound_events K (path_loc K path) (w_log w')) w w'"
proof (rule adds_weaken [OF a])
  fix t ev
  assume "(t, ev) \<in> guard_events K g" "w_tick w \<le> t"
  moreover obtain t0 i where "(t0, Ev_Bind (path_loc K path) i) \<in> set (w_log w')" "t0 < w_tick w" "sg_path g = path"
      "quiet K (Suc t0) \<longrightarrow> Fid (sg_device g) (sg_inode g) = i"
    using g adds_past [OF a] unfolding guards_bound_def by blast
  ultimately show "(t, ev) \<in> bound_events K (path_loc K path) (w_log w')"
    by (force simp: guard_events_def bound_events_def)
qed

lemma bind_control_socket_adds:
  assumes "bind_control_socket K path uid w = (r, w')"
  shows "adds (bound_events K (path_loc K path) (w_log w')) w w'"
proof -
  let ?loc = "path_loc K path"
  let ?S = "bound_events K ?loc (w_log w')"
  note calls = bind_control_socket_def Let_def scan_ctx_def sys_then_def sys_context_def sys_match_def
  obtain b w1 where b: "sys_bind K ?loc w = (b, w1)" by (meson surj_pair)
  have a1: "adds ?S w w1" by (rule logs_adds [where m = "sys_bind K ?loc", OF _ b]) simp
  obtain s w2 where s: "sys_stat K ?loc False w1 = (s, w2)" by (meson surj_pair)
  have a2: "adds ?S w w2" by (rule adds_trans [OF a1 logs_adds [where m = "sys_stat K ?loc False", OF _ s]]) simp
  consider "w' = w1" | listener q where "sys_close K listener w2 = (q, w')"
    | listener md where "b = Inr listener" "s = Inr md" "restrict_control_socket K uid listener (guard_of path md) w2 = (r, w')"
    using assms b s
    by (cases b; cases s; cases "sys_close K (projr b) w2") (auto simp: calls split: if_splits)
  then show ?thesis
  proof cases
    case 1
    with a1 show ?thesis by simp
  next
    case (2 listener q)
    from logs_adds [where m = "sys_close K listener", OF _ this] show ?thesis using a2 by (auto intro: adds_trans)
  next
    case (3 listener md)
    have "adds ?S w2 w'"
      by (rule guards_bound_adds [OF bind_then_guards logs_adds [OF logs_restrict_control_socket 3(3)]]) (use b s 3 in auto)
    with a2 show ?thesis by (rule adds_trans)
  qed
qed


lemma restrict_control_socket_ok:
  assumes "restrict_control_socket K uid listener g w = (Inr (l, g'), w')"
  shows "l = listener \<and> g' = g \<and> (\<exists>md. stat_call (path_loc K (sg_path g)) False (w_fs w') = Inr md \<and>
    md_kind md = SocketFile \<and> md_uid md = uid \<and> md_mode md AND 0x1FF = 0x180)"
  using assms unfolding restrict_control_socket_def Let_def
  by (auto elim!: sys_matchE sys_thenE dest!: sys_stat_Inr(3) split: sum.splits if_splits)

lemma bind_control_socket_ok:
  assumes "bind_control_socket K path uid w = (Inr bound, w')"
  shows "\<exists>md. stat_call (path_loc K path) False (w_fs w') = Inr md \<and>
    md_kind md = SocketFile \<and> md_uid md = uid \<and> md_mode md AND 0x1FF = 0x180"
  using assms unfolding bind_control_socket_def Let_def scan_ctx_def
  by (cases bound) (auto elim!: sys_matchE sys_thenE split: sum.splits if_splits, drule restrict_control_socket_ok, simp)


text \<open>What one event of the startup may be.\<close>

lemma control_bind_adds:
  fixes config :: daemon_config and w :: "'z world_scheme"
  defines "uid \<equiv> ds_trusted_operator_uid (dc_daemon config)"
    and "path \<equiv> ds_control_socket (dc_daemon config)"
  assumes "control_bind fuel K trust config w = (r, w')"
  shows "adds (startup_events K uid \<union> bound_events K (path_loc K path) (w_log w')) w w'"
proof -
  let ?S = "startup_events K uid" and ?B = "bound_events K (path_loc K path) (w_log w')"
  obtain t w0 where t: "(from_environment K trust :: (failure, test_upstream_trust, 'z) sys) w = (t, w0)"
    by (meson surj_pair)
  have a0: "adds ?S w w0" by (rule logs_adds [OF logs_passive [OF logs_from_environment] t])
  obtain p w1 where p: "prepare_startup fuel K (dc_daemon config) w0 = (p, w1)" by (meson surj_pair)
  have a1: "adds ?S w0 w1" unfolding uid_def by (rule logs_adds [OF logs_prepare_startup p])
  consider "w' = w0" | "w' = w1" | b where "bind_control_socket K path uid w1 = (b, w')"
    using assms t p
    by (cases t; cases p) (auto simp: control_bind_def sys_then_def sys_context_def path_def uid_def
        split: prod.splits sum.splits)
  then show ?thesis
  proof cases
    case 3
    from bind_control_socket_adds [OF this] have "adds (?S \<union> ?B) w1 w'" by (rule adds_mono) simp
    with adds_mono [OF adds_trans [OF a0 a1], of "?S \<union> ?B"] show ?thesis by (auto intro: adds_trans)
  qed (use a0 adds_trans [OF a0 a1] in \<open>auto intro: adds_mono\<close>)
qed

lemma control_bind_ok:
  assumes "control_bind fuel K trust config w = (Inr server, w')"
  shows "\<exists>md. stat_call (path_loc K (ds_control_socket (dc_daemon config))) False (w_fs w') = Inr md \<and>
    md_kind md = SocketFile \<and> md_uid md = ds_trusted_operator_uid (dc_daemon config) \<and> md_mode md AND 0x1FF = 0x180"
  using assms unfolding control_bind_def
  by (auto elim!: sys_thenE sys_contextE dest: bind_control_socket_ok split: sum.splits)

text \<open>The configuration store of a server was opened while it started, and its log is still there.\<close>

lemma open_session_configs_Inr:
  assumes "open_session_configs K settings w = (Inr stores, w')"
  shows "(stores = None \<longleftrightarrow> ds_create_mode settings = Inline) \<and> (\<forall>store. stores = Some store \<longrightarrow>
    (\<exists>directory. ds_session_config_dir settings = Some directory \<and>
       session_config_store_open K directory (ds_trusted_operator_uid settings) w = (Inr store, w')))"
  using assms
  by (auto simp: open_session_configs_def elim!: sys_thenE split: session_create_mode.splits option.splits)

lemma prepare_startup_store:
  fixes w :: "'z world_scheme"
  assumes "prepare_startup fuel K settings w = (Inr stores, w')"
  shows "\<exists>w0 w1 :: 'z world_scheme. open_session_configs K settings w0 = (Inr stores, w1) \<and>
    logged_events w1 \<subseteq> logged_events w'"
proof -
  let ?uid = "ds_trusted_operator_uid settings"
  from assms obtain w0 w1 w2 :: "'z world_scheme" where run: "open_session_configs K settings w0 = (Inr stores, w1)"
    "clear_control_socket K (ds_control_socket settings) ?uid w1 = (Inr (), w2)"
    "remove_stale_session_sockets fuel K (ds_socket_dir settings) ?uid w2 = (Inr (), w')"
    unfolding prepare_startup_def Let_def by (auto elim!: sys_thenE sys_contextE)
  have "logged_events w1 \<subseteq> logged_events w2" "logged_events w2 \<subseteq> logged_events w'"
    using logged_events_mono [OF logs_clear_control_socket run(2)]
      logged_events_mono [OF logs_remove_stale_session_sockets run(3)] by auto
  with run(1) show ?thesis by blast
qed

lemma control_bind_store:
  fixes w :: "'z world_scheme"
  assumes "control_bind fuel K trust config w = (Inr server, w')"
  shows "\<exists>w0 w1 :: 'z world_scheme. open_session_configs K (dc_daemon config) w0 = (Inr (sv_session_configs server), w1) \<and>
    logged_events w1 \<subseteq> logged_events w'"
proof -
  let ?path = "ds_control_socket (dc_daemon config)" and ?uid = "ds_trusted_operator_uid (dc_daemon config)"
  from assms obtain w0 w1 :: "'z world_scheme" and bound where
    p: "prepare_startup fuel K (dc_daemon config) w0 = (Inr (sv_session_configs server), w1)"
    and b: "bind_control_socket K ?path ?uid w1 = (Inr bound, w')"
    unfolding control_bind_def by (auto elim!: sys_thenE sys_contextE simp: control_server_new_def Let_def)
  have "logged_events w1 \<subseteq> logged_events w'"
    using adds_past [OF bind_control_socket_adds [OF b]] by (auto simp: logged_events_def)
  with prepare_startup_store [OF p] show ?thesis by blast
qed

subsection \<open>The scan ends\<close>

text \<open>
  The depth of a directory: how many levels of directories hang below it. It does not grow when
  entries are only removed, which is all that the scan does.
\<close>

fun shallow :: "unix_fs \<Rightarrow> nat \<Rightarrow> file_id \<Rightarrow> bool" where
  "shallow fs 0 d = False"
| "shallow fs (Suc h) d = (case fs_node fs d of
     None \<Rightarrow> True
   | Some nd \<Rightarrow> list_all (\<lambda>(n, i). n \<noteq> ''.'' \<longrightarrow> n \<noteq> ''..'' \<longrightarrow>
       (case fs_node fs i of Some child \<Rightarrow> nd_kind child = Directory \<longrightarrow> shallow fs h i | None \<Rightarrow> True)) (nd_entries nd))"

definition shrinks :: "unix_fs \<Rightarrow> unix_fs \<Rightarrow> bool" where
  "shrinks fs fs' \<longleftrightarrow> (\<forall>i nd'. fs_node fs' i = Some nd' \<longrightarrow>
     (\<exists>nd. fs_node fs i = Some nd \<and> nd_kind nd' = nd_kind nd \<and> set (nd_entries nd') \<subseteq> set (nd_entries nd)))"

lemma shrinks_refl [simp]: "shrinks fs fs"
  by (simp add: shrinks_def)

lemma shrinksD:
  "shrinks fs fs' \<Longrightarrow> fs_node fs' i = Some nd' \<Longrightarrow>
   \<exists>nd. fs_node fs i = Some nd \<and> nd_kind nd' = nd_kind nd \<and> set (nd_entries nd') \<subseteq> set (nd_entries nd)"
  unfolding shrinks_def by blast

lemma shrinks_trans:
  assumes "shrinks a b" "shrinks b c"
  shows "shrinks a c"
  unfolding shrinks_def
proof (intro allI impI)
  fix i nd'
  assume "fs_node c i = Some nd'"
  from shrinksD [OF assms(2) this] obtain nd1 where nd1: "fs_node b i = Some nd1" "nd_kind nd' = nd_kind nd1"
    "set (nd_entries nd') \<subseteq> set (nd_entries nd1)" by blast
  from shrinksD [OF assms(1) nd1(1)] nd1(2,3)
  show "\<exists>nd. fs_node a i = Some nd \<and> nd_kind nd' = nd_kind nd \<and> set (nd_entries nd') \<subseteq> set (nd_entries nd)"
    by auto
qed

lemma shrinks_remove_entry: "shrinks fs (remove_entry fs d n)"
  by (auto simp: shrinks_def remove_entry_def update_node_def AList.delete_eq)

lemma shallow_shrinks: "shallow fs h d \<Longrightarrow> shrinks fs fs' \<Longrightarrow> shallow fs' h d"
proof (induction h arbitrary: d)
  case (Suc h)
  show ?case
  proof (cases "fs_node fs' d")
    case (Some nd')
    with Suc.prems(2) obtain nd where nd: "fs_node fs d = Some nd" "set (nd_entries nd') \<subseteq> set (nd_entries nd)"
      using shrinksD by blast
    have "case fs_node fs' i of Some child \<Rightarrow> nd_kind child = Directory \<longrightarrow> shallow fs' h i | None \<Rightarrow> True"
      if "(n, i) \<in> set (nd_entries nd')" "n \<noteq> ''.''" "n \<noteq> ''..''" for n i
    proof (cases "fs_node fs' i")
      case child: (Some child')
      with Suc.prems(2) obtain child where "fs_node fs i = Some child" "nd_kind child' = nd_kind child"
        using shrinksD by blast
      moreover have "(n, i) \<in> set (nd_entries nd)" using that(1) nd(2) by blast
      ultimately have "nd_kind child' = Directory \<Longrightarrow> shallow fs h i"
        using Suc.prems(1) nd(1) that(2,3) by (auto simp: list_all_iff)
      with Suc.IH [OF _ Suc.prems(2)] child show ?thesis by simp
    qed simp
    with Some show ?thesis by (auto simp: list_all_iff)
  qed simp
qed simp

definition shrinking :: "('e, 'a, 'z) sys \<Rightarrow> bool" where
  "shrinking m \<longleftrightarrow> (\<forall>w. shrinks (w_fs w) (w_fs (snd (m w))))"

lemma shrinkingD: "shrinking m \<Longrightarrow> m w = (r, w') \<Longrightarrow> shrinks (w_fs w) (w_fs w')"
  unfolding shrinking_def by (metis snd_conv)

lemma shrinking_pure [simp]: "shrinking (sys_return x)" "shrinking (sys_fail e)" "shrinking (sys_result r)"
  by (simp_all add: shrinking_def sys_return_def sys_fail_def sys_result_def)

lemma shrinking_match: "shrinking m \<Longrightarrow> (\<And>r. shrinking (k r)) \<Longrightarrow> shrinking (sys_match m k)"
  unfolding shrinking_def sys_match_def by (auto split: prod.split) (metis shrinks_trans snd_conv)

lemma shrinking_then: "shrinking m \<Longrightarrow> (\<And>x. shrinking (k x)) \<Longrightarrow> shrinking (sys_then m k)"
  unfolding sys_then_match by (rule shrinking_match) (simp_all split: sum.split)

lemma shrinking_context: "shrinking m \<Longrightarrow> shrinking (sys_context g m)"
  unfolding sys_context_match by (rule shrinking_match) simp_all

lemma shrinking_if: "shrinking a \<Longrightarrow> shrinking b \<Longrightarrow> shrinking (if c then a else b)"
  by simp

lemmas shrinking_intros = shrinking_match shrinking_then shrinking_context shrinking_if

text \<open>Other processes may remove entries too, but add none.\<close>

definition env_shrinks :: "kernel \<Rightarrow> bool" where
  "env_shrinks K \<longleftrightarrow> (\<forall>t fs. shrinks fs (k_env K t fs))"

lemma shrinking_syscall:
  assumes "env_shrinks K" "\<And>t fs x fs' ev. f t fs = Inr (x, fs', ev) \<Longrightarrow> shrinks fs fs'"
  shows "shrinking (syscall K f :: (io_error, 'a, 'z) sys)"
proof -
  have "shrinks (w_fs w) (k_env K (w_tick w) (w_fs w))" for w :: "'z world_scheme"
    using assms(1) by (simp add: env_shrinks_def)
  then show ?thesis
    using assms(2) unfolding shrinking_def
    by (simp add: syscall_def Let_def split: option.split sum.split prod.split) (blast intro: shrinks_trans)
qed

lemma shrinking_calls:
  assumes "env_shrinks K"
  shows "shrinking (sys_stat K loc follow)" "shrinking (sys_fstat K i)" "shrinking (sys_open_dir K loc)"
    "shrinking (sys_readdir K i)" "shrinking (sys_connect K loc)" "shrinking (sys_dup K i)" "shrinking (sys_unlink K loc)"
  unfolding sys_stat_def sys_fstat_def sys_open_dir_def sys_readdir_def sys_connect_def sys_dup_def sys_unlink_def
  by (rule shrinking_syscall [OF assms]; auto simp: result_simps intro: shrinks_remove_entry)+

lemma shrinking_stale:
  assumes "env_shrinks K"
  shows "shrinking (stat_at K d n)" "shrinking (remove_stale_socket_at K d n path uid)"
    "shrinking (directory_entry_names K d)"
proof -
  show stat: "shrinking (stat_at K d n)" for d n
    unfolding stat_at_def
    by (intro shrinking_intros) (auto simp: shrinking_calls [OF assms] split: sum.split)
  show "shrinking (remove_stale_socket_at K d n path uid)"
    unfolding remove_stale_socket_at_def remove_stale_socket_at_with_probe_def unlink_stale_socket_def
      probe_pinned_socket_def probe_socket_path_def ctx_def
    by (auto simp: shrinking_calls [OF assms] stat intro!: shrinking_intros split: sum.split option.split)
  show "shrinking (directory_entry_names K d)"
    unfolding directory_entry_names_def
    by (intro shrinking_intros) (simp_all add: shrinking_calls [OF assms])
qed

text \<open>A directory that the scan enters is an entry of the one it is in.\<close>

lemma sys_open_dir_child:
  assumes "sys_open_dir K (Some d, [n]) w = (Inr child, w')"
  shows "\<exists>nd nc. fs_node (w_fs w') d = Some nd \<and> (n, child) \<in> set (nd_entries nd) \<and>
    fs_node (w_fs w') child = Some nc \<and> nd_kind nc = Directory"
  using assms unfolding sys_open_dir_def syscall_Inr
  by (auto simp: result_simps node_at_def dir_lookup_def split: if_splits sum.splits option.splits dest: map_of_SomeD)

lemma shallow_child:
  assumes "shallow fs (Suc h) d" "fs_node fs d = Some nd" "(n, child) \<in> set (nd_entries nd)"
    "fs_node fs child = Some nc" "nd_kind nc = Directory" "n \<noteq> ''.''" "n \<noteq> ''..''"
  shows "shallow fs h child"
  using assms by (auto simp: list_all_iff)

declare shallow.simps(2) [simp del]

abbreviation deep :: "nat \<Rightarrow> file_id \<Rightarrow> 'z world_scheme \<Rightarrow> bool" where
  "deep h d w \<equiv> shallow (w_fs w) h d"

text \<open>Results of steps that never run out of fuel themselves.\<close>

abbreviation ended :: "nat \<Rightarrow> file_id \<Rightarrow> failure option + 'a \<Rightarrow> 'z world_scheme \<Rightarrow> bool" where
  "ended h d r w \<equiv> r \<noteq> Inl None \<and> deep h d w"

lemma ended_some:
  "shrinking m \<Longrightarrow> triple (deep h d) (sys_context (\<lambda>e. Some (g e)) m) (ended h d)"
  by (rule triple_context, rule tripleI) (auto simp: map_err_Inl_iff dest: shrinkingD intro: shallow_shrinks)

lemma scan_subdirectory_ended:
  assumes env: "env_shrinks K" and rec: "\<And>child path. shrinking (rec child path)"
    and ih: "\<And>child path. triple (deep h child) (rec child path) (\<lambda>r w. r \<noteq> Inl None)"
    and n: "n \<noteq> ''.''" "n \<noteq> ''..''"
  shows "triple (deep (Suc h) d) (scan_subdirectory rec K d n path md) (ended (Suc h) d)"
proof (rule tripleI)
  fix w r w'
  assume pre: "deep (Suc h) d w" and run: "scan_subdirectory rec K d n path md w = (r, w')"
  have shr: "shrinking (scan_subdirectory rec K d n path md)"
    unfolding scan_subdirectory_def scan_ctx_def
    by (auto simp: shrinking_calls [OF env] rec intro!: shrinking_intros split: sum.split)
  from shrinkingD [OF this run] pre have "deep (Suc h) d w'" by (rule shallow_shrinks [rotated])
  moreover have "r \<noteq> Inl None"
  proof
    assume "r = Inl None"
    with run obtain child w1 md' w2 where op: "sys_open_dir K (Some d, [n]) w = (Inr child, w1)"
        and st: "sys_fstat K child w1 = (Inr md', w2)" and sub: "rec child path w2 = (Inl None, w')"
      unfolding scan_subdirectory_def scan_ctx_def
      by (auto elim!: sys_matchE sys_thenE sys_contextE split: sum.splits if_splits)
    have "deep (Suc h) d w1" using shrinkingD [OF shrinking_calls(3) [OF env] op] pre by (rule shallow_shrinks [rotated])
    then have "deep h child w1" using sys_open_dir_child [OF op] shallow_child n by blast
    then have "deep h child w2" using shrinkingD [OF shrinking_calls(2) [OF env] st] by (rule shallow_shrinks)
    with tripleD [OF ih sub] show False by blast
  qed
  ultimately show "ended (Suc h) d r w'" by simp
qed

lemma shrinking_scan_entries:
  assumes env: "env_shrinks K" and rec: "\<And>child path. shrinking (rec child path)"
  shows "shrinking (scan_entries rec K d path uid names)"
proof (induction names)
  case (Cons n names)
  have "shrinking (scan_subdirectory rec K d n p md)" for p md
    unfolding scan_subdirectory_def scan_ctx_def
    by (auto simp: shrinking_calls [OF env] rec intro!: shrinking_intros split: sum.split)
  with Cons show ?case
    unfolding scan_entries.simps Let_def scan_ctx_def
    by (intro shrinking_intros) (auto simp: shrinking_stale [OF env] intro!: shrinking_intros split: option.split)
qed simp

lemma shrinking_scan: "env_shrinks K \<Longrightarrow> shrinking (remove_stale_session_sockets_at fuel K uid d path)"
  by (induction fuel arbitrary: d path)
    (auto simp: scan_ctx_def intro!: shrinking_intros shrinking_scan_entries shrinking_stale)

lemma scan_entries_ended:
  assumes env: "env_shrinks K" and rec: "\<And>child path. shrinking (rec child path)"
    and ih: "\<And>child path. triple (deep h child) (rec child path) (\<lambda>r w. r \<noteq> Inl None)"
    and names: "''.'' \<notin> set names" "''..'' \<notin> set names"
  shows "triple (deep (Suc h) d) (scan_entries rec K d path uid names) (ended (Suc h) d)"
  using names
proof (induction names)
  case Nil
  then show ?case by (simp add: triple_def sys_return_def)
next
  case (Cons n names)
  let ?path = "path_join path n"
  have sub: "triple (deep (Suc h) d) (scan_subdirectory rec K d n ?path md) (ended (Suc h) d)" for md
    using scan_subdirectory_ended [OF env rec ih, of n] Cons.prems by auto
  have sock: "triple (deep (Suc h) d)
      (sys_then (sys_context Some (remove_stale_socket_at K d n ?path uid)) (\<lambda>_. sys_return ())) (ended (Suc h) d)"
    by (rule triple_then [OF ended_some [OF shrinking_stale(2) [OF env]]]) (auto simp: triple_def sys_return_def)
  have entry: "triple (deep (Suc h) d) (case found of
          None \<Rightarrow> sys_return ()
        | Some md \<Rightarrow>
            if md_kind md = Directory then scan_subdirectory rec K d n ?path md
            else if md_kind md = SocketFile then
              sys_then (sys_context Some (remove_stale_socket_at K d n ?path uid)) (\<lambda>_. sys_return ())
            else sys_return ()) (ended (Suc h) d)" for found
    using sub sock by (auto simp: triple_def sys_return_def split: option.split)
  have rest: "triple (ended (Suc h) d (Inr x)) (scan_entries rec K d path uid names) (ended (Suc h) d)" for x :: unit
    using Cons by (auto simp: triple_def)
  show ?case
    unfolding scan_entries.simps Let_def scan_ctx_def
    by (rule triple_then [OF ended_some [OF shrinking_stale(1) [OF env]]], rule triple_weaken [OF triple_then [OF entry rest]])
      auto
qed

lemma directory_entry_names_plain:
  "directory_entry_names K d w = (Inr names, w') \<Longrightarrow> ''.'' \<notin> set names \<and> ''..'' \<notin> set names"
  by (auto simp: directory_entry_names_def elim!: sys_thenE)

lemma scan_ended:
  "env_shrinks K \<Longrightarrow> triple (deep h d) (remove_stale_session_sockets_at h K uid d path :: 'z scan) (\<lambda>r w. r \<noteq> Inl None)"
proof (induction h arbitrary: d path)
  case (Suc h)
  let ?names = "sys_context (\<lambda>e. Some (Context (''could not read session socket directory '' @ path) e)) (directory_entry_names K d)"
  have names: "triple (deep (Suc h) d) ?names
      (\<lambda>r w. ended (Suc h) d r w \<and> (\<forall>ns. r = Inr ns \<longrightarrow> ''.'' \<notin> set ns \<and> ''..'' \<notin> set ns))"
    using ended_some [OF shrinking_stale(3) [OF Suc.prems, of d], of "Suc h" d "Context (''could not read session socket directory '' @ path)"]
    by (auto simp: triple_def sys_context_def map_err_Inr_iff split: prod.split dest: directory_entry_names_plain)
  show ?case
    unfolding remove_stale_session_sockets_at.simps scan_ctx_def
  proof (rule triple_then [OF names])
    fix ns
    show "triple (\<lambda>w. ended (Suc h) d (Inr ns) w \<and> (\<forall>ns'. Inr ns = Inr ns' \<longrightarrow> ''.'' \<notin> set ns' \<and> ''..'' \<notin> set ns'))
       (scan_entries (remove_stale_session_sockets_at h K uid :: file_id \<Rightarrow> string \<Rightarrow> 'z scan) K d path uid ns) (\<lambda>r w. r \<noteq> Inl None)"
      using scan_entries_ended [where rec = "remove_stale_session_sockets_at h K uid :: file_id \<Rightarrow> string \<Rightarrow> 'z scan",
          OF Suc.prems shrinking_scan [OF Suc.prems] Suc.IH [OF Suc.prems], of ns d path uid]
      by (auto simp: triple_def)
  qed auto
qed (simp add: triple_def)

subsection \<open>Properties\<close>

text \<open>
  C20. Starting the control server removes no directory and unlinks only two kinds of entries.
  One is a socket that belongs to the operator and is stale: the entry was inspected just before
  it was unlinked, and unless another process acted in between it is a socket of the trusted
  operator on which nothing listens when the probe was answered by the file system. The other is
  the control socket that this very start had bound, when it gives up. A start that succeeds ends
  with a socket of the operator at the control path that only its owner may use.
\<close>

theorem startup_removes_only_stale_sockets:
  assumes "control_bind fuel K trust config \<lparr>w_fs = fs, w_tick = 0, w_log = []\<rparr> = (r, w')"
  shows "(\<forall>t loc v. (t, Ev_Rmdir loc v) \<notin> set (w_log w'))
    \<and> (\<forall>t loc v nd. (t, Ev_Unlink loc v nd) \<in> set (w_log w') \<longrightarrow>
        ((quiet K t \<longrightarrow> nd_kind nd = SocketFile \<and> nd_uid nd = ds_trusted_operator_uid (dc_daemon config)) \<and>
         (quiet K (t - 1) \<and> quiet K t \<and> k_fault K (t - 2) = None \<longrightarrow> \<not> nd_listening nd))
        \<or> (loc = path_loc K (ds_control_socket (dc_daemon config)) \<and>
           (\<exists>t0 i. (t0, Ev_Bind loc i) \<in> set (w_log w') \<and> t0 < t \<and> (quiet K (Suc t0) \<and> quiet K t \<longrightarrow> v = i))))
    \<and> (\<forall>server. r = Inr server \<longrightarrow>
        (\<exists>md. stat_call (path_loc K (ds_control_socket (dc_daemon config))) False (w_fs w') = Inr md \<and>
           md_kind md = SocketFile \<and> md_uid md = ds_trusted_operator_uid (dc_daemon config) \<and>
           md_mode md AND 0x1FF = 0x180))"
proof (intro conjI)
  let ?uid = "ds_trusted_operator_uid (dc_daemon config)"
  let ?loc = "path_loc K (ds_control_socket (dc_daemon config))"
  have ev: "e \<in> startup_events K ?uid \<union> bound_events K ?loc (w_log w')" if "e \<in> set (w_log w')" for e
    using control_bind_adds [OF assms] that by (cases e) (auto simp: adds_def)
  show "\<forall>t loc v. (t, Ev_Rmdir loc v) \<notin> set (w_log w')"
    using ev by (fastforce simp: startup_events_def bound_events_def)
  show "\<forall>t loc v nd. (t, Ev_Unlink loc v nd) \<in> set (w_log w') \<longrightarrow>
        ((quiet K t \<longrightarrow> nd_kind nd = SocketFile \<and> nd_uid nd = ?uid) \<and>
         (quiet K (t - 1) \<and> quiet K t \<and> k_fault K (t - 2) = None \<longrightarrow> \<not> nd_listening nd))
        \<or> (loc = ?loc \<and> (\<exists>t0 i. (t0, Ev_Bind loc i) \<in> set (w_log w') \<and> t0 < t \<and> (quiet K (Suc t0) \<and> quiet K t \<longrightarrow> v = i)))"
  proof (intro allI impI)
    fix t loc v nd
    assume "(t, Ev_Unlink loc v nd) \<in> set (w_log w')"
    from ev [OF this] show "((quiet K t \<longrightarrow> nd_kind nd = SocketFile \<and> nd_uid nd = ?uid) \<and>
         (quiet K (t - 1) \<and> quiet K t \<and> k_fault K (t - 2) = None \<longrightarrow> \<not> nd_listening nd))
        \<or> (loc = ?loc \<and> (\<exists>t0 i. (t0, Ev_Bind loc i) \<in> set (w_log w') \<and> t0 < t \<and> (quiet K (Suc t0) \<and> quiet K t \<longrightarrow> v = i)))"
      unfolding startup_events_def bound_events_def stale_removal_def by auto
  qed
  show "\<forall>server. r = Inr server \<longrightarrow> (\<exists>md. stat_call ?loc False (w_fs w') = Inr md \<and>
           md_kind md = SocketFile \<and> md_uid md = ?uid \<and> md_mode md AND 0x1FF = 0x180)"
    using control_bind_ok assms by blast
qed


text \<open>
  C32. The scan for stale session sockets ends: when other processes add no entries meanwhile, a
  fuel of the depth of the directory tree is enough, whatever calls fail and whatever is removed
  on the way. With that fuel, the scan returns the result of the code, never the fuel error.
\<close>

theorem stale_socket_scan_ends:
  assumes "\<And>t fs. shrinks fs (k_env K t fs)"
    and "\<And>fd w1. sys_open_dir K (path_loc K directory) w = (Inr fd, w1) \<Longrightarrow> shallow (w_fs w1) fuel fd"
  shows "fst (remove_stale_session_sockets fuel K directory uid w) \<noteq> Inl None"
proof
  assume "fst (remove_stale_session_sockets fuel K directory uid w) = Inl None"
  then obtain w' where run: "remove_stale_session_sockets fuel K directory uid w = (Inl None, w')"
    by (metis prod.collapse)
  then obtain fd w1 where fd: "sys_open_dir K (path_loc K directory) w = (Inr fd, w1)"
    and scan: "remove_stale_session_sockets_at fuel K uid fd directory w1 = (Inl None, w')"
    unfolding remove_stale_session_sockets_def scan_ctx_def open_socket_directory_def
    by (auto elim!: sys_thenE sys_contextE)
  have "env_shrinks K" using assms(1) by (simp add: env_shrinks_def)
  from tripleD [OF scan_ended [OF this] scan assms(2) [OF fd]] show False by simp
qed

text \<open>
  C30. Session files come from the directory that the operator named and nobody else can change.
  A server that starts has a store of session configurations exactly in the mode that creates
  sessions from files. The store pins a directory that was reached from the root by opening each
  component of the configured path in the directory before it, without following a link; each
  directory was inspected after it was pinned, belongs to the trusted operator or to root, and
  cannot be written by others, a sticky one on the way excepted. Other processes may act at any
  time.
\<close>

theorem session_store_trusted:
  fixes w :: "'z world_scheme"
  assumes "control_bind fuel K trust config w = (Inr server, w')"
  defines "settings \<equiv> dc_daemon config"
  shows "(sv_session_configs server = None \<longleftrightarrow> ds_create_mode settings = Inline) \<and>
    (\<forall>store. sv_session_configs server = Some store \<longrightarrow> scs_trusted_uid store = ds_trusted_operator_uid settings \<and>
      (\<exists>directory path parts root. ds_session_config_dir settings = Some directory \<and>
        (path = directory \<or> take 3 (components directory) = [RootDir, Normal ''var'', Normal ''run''] \<and>
          path = path_join ''/run'' (path_of (drop 3 (components directory)))) \<and>
        is_absolute path \<and> normal_components (components path) = Some parts \<and> parts \<noteq> [] \<and>
        Ev_Open (None, []) root \<in> logged_events w' \<and>
        trusted_chain (logged_events w') (ds_trusted_operator_uid settings) root parts (scs_directory store)))"
proof -
  from control_bind_store [OF assms(1)] obtain w0 w1 :: "'z world_scheme" where
    open1: "open_session_configs K settings w0 = (Inr (sv_session_configs server), w1)"
    and log: "logged_events w1 \<subseteq> logged_events w'" unfolding settings_def by blast
  note opened = open_session_configs_Inr [OF open1]
  show ?thesis
  proof (intro conjI allI impI)
    fix store
    assume "sv_session_configs server = Some store"
    with opened obtain directory where d: "ds_session_config_dir settings = Some directory"
      "session_config_store_open K directory (ds_trusted_operator_uid settings) w0 = (Inr store, w1)" by blast
    note chain = session_store_chain [OF d(2)]
    from chain show "scs_trusted_uid store = ds_trusted_operator_uid settings" by blast
    from chain d(1) log show "\<exists>directory path parts root. ds_session_config_dir settings = Some directory \<and>
        (path = directory \<or> take 3 (components directory) = [RootDir, Normal ''var'', Normal ''run''] \<and>
          path = path_join ''/run'' (path_of (drop 3 (components directory)))) \<and>
        is_absolute path \<and> normal_components (components path) = Some parts \<and> parts \<noteq> [] \<and>
        Ev_Open (None, []) root \<in> logged_events w' \<and>
        trusted_chain (logged_events w') (ds_trusted_operator_uid settings) root parts (scs_directory store)"
      by (blast dest: normalize_system_path_Inr intro: trusted_chain_mono)
  qed (use opened in simp)
qed

subsection \<open>An example\<close>

text \<open>A daemon that died left its control socket, a stale session socket and a live one behind.\<close>

definition example_dir_node :: "(string \<times> file_id) list \<Rightarrow> node" where
  "example_dir_node entries = \<lparr>nd_kind = Directory, nd_uid = 7, nd_mode = 0x1C0, nd_data = [],
     nd_entries = entries, nd_listening = False\<rparr>"

definition example_socket_node :: "bool \<Rightarrow> node" where
  "example_socket_node listening = \<lparr>nd_kind = SocketFile, nd_uid = 7, nd_mode = 0x180, nd_data = [],
     nd_entries = [], nd_listening = listening\<rparr>"

definition example_crashed :: unix_fs where
  "example_crashed = \<lparr>fs_node = [
     Fid 1 1 \<mapsto> example_dir_node [(''.'', Fid 1 1), (''..'', Fid 1 1), (''r'', Fid 1 2)],
     Fid 1 2 \<mapsto> example_dir_node [(''.'', Fid 1 2), (''..'', Fid 1 1), (''c'', Fid 1 3), (''d'', Fid 1 4)],
     Fid 1 3 \<mapsto> example_socket_node False,
     Fid 1 4 \<mapsto> example_dir_node [(''.'', Fid 1 4), (''..'', Fid 1 2), (''s'', Fid 1 5), (''a'', Fid 1 6)],
     Fid 1 5 \<mapsto> example_socket_node False,
     Fid 1 6 \<mapsto> example_socket_node True], fs_root = Fid 1 1\<rparr>"

definition example_daemon_config :: daemon_config where
  "example_daemon_config = \<lparr>dc_daemon = \<lparr>ds_control_socket = ''/r/c'', ds_socket_dir = ''/r/d'',
       ds_trusted_operator_uid = 7, ds_max_sessions = 1, ds_max_connections_per_session = 1,
       ds_shutdown_grace_seconds = 1, ds_control_read_timeout_ms = 1, ds_max_provisioning_requests = 1,
       ds_io_timeout_ms = 1, ds_session_config_dir = None, ds_create_mode = Inline\<rparr>,
     dc_ca = \<lparr>ca_certificate = [], ca_private_key = []\<rparr>,
     dc_secrets = \<lparr>sst_directory = [], sst_allowed = {}\<rparr>\<rparr>"

definition example_trust_env :: trust_env where
  "example_trust_env = \<lparr>tv_build = release_build, tv_variable = None, tv_parse_pem = (\<lambda>_. None)\<rparr>"

definition example_startup :: "(failure option + control_server) \<times> world" where
  "example_startup = control_bind 2 example_kernel example_trust_env example_daemon_config
     \<lparr>w_fs = example_crashed, w_tick = 0, w_log = []\<rparr>"


lemma example_start_log:
  "(15, Ev_Unlink (Some (Fid 1 2), [''c'']) (Fid 1 3) (example_socket_node False)) \<in> set (w_log (snd example_startup))"
  "is_ok (fst example_startup)"
  by code_simp+

theorem startup_removes_only_stale_sockets_witness:
  "(15, Ev_Unlink (Some (Fid 1 2), [''c'']) (Fid 1 3) (example_socket_node False)) \<in> set (w_log (snd example_startup)) \<and>
   (\<forall>t loc v. (t, Ev_Rmdir loc v) \<notin> set (w_log (snd example_startup))) \<and>
   (\<exists>md. stat_call (path_loc example_kernel ''/r/c'') False (w_fs (snd example_startup)) = Inr md \<and>
      md_kind md = SocketFile \<and> md_uid md = 7 \<and> md_mode md AND 0x1FF = 0x180)"
proof -
  obtain server w' where run: "example_startup = (Inr server, w')"
    using example_start_log(2) unfolding is_ok_iff by (metis prod.collapse)
  have "ds_control_socket (dc_daemon example_daemon_config) = ''/r/c''"
    "ds_trusted_operator_uid (dc_daemon example_daemon_config) = 7"
    by (simp_all add: example_daemon_config_def)
  then show ?thesis
    using startup_removes_only_stale_sockets [OF run [unfolded example_startup_def]] example_start_log(1)
    unfolding run snd_conv by simp
qed

definition example_file_config :: daemon_config where
  "example_file_config = example_daemon_config\<lparr>dc_daemon := (dc_daemon example_daemon_config)
     \<lparr>ds_session_config_dir := Some ''/r/d'', ds_create_mode := FileOnly\<rparr>\<rparr>"

definition example_file_startup :: "(failure option + control_server) \<times> world" where
  "example_file_startup = control_bind 2 example_kernel example_trust_env example_file_config
     \<lparr>w_fs = example_crashed, w_tick = 0, w_log = []\<rparr>"

lemma example_file_server:
  "case fst example_file_startup of Inl e \<Rightarrow> False
     | Inr server \<Rightarrow> sv_session_configs server = Some \<lparr>scs_directory = Fid 1 4, scs_trusted_uid = 7\<rparr>"
  by code_simp

theorem session_store_trusted_witness:
  "\<exists>root. trusted_chain (logged_events (snd example_file_startup)) 7 root [''r'', ''d''] (Fid 1 4)"
proof -
  obtain server w' where run: "example_file_startup = (Inr server, w')"
    and store: "sv_session_configs server = Some \<lparr>scs_directory = Fid 1 4, scs_trusted_uid = 7\<rparr>"
    using example_file_server by (auto split: sum.splits intro: that [OF prod_eqI])
  have path: "normal_components (components ''/r/d'') = Some [''r'', ''d'']"
    "take 3 (components ''/r/d'') \<noteq> [RootDir, Normal ''var'', Normal ''run'']" by code_simp+
  have settings: "ds_session_config_dir (dc_daemon example_file_config) = Some ''/r/d''"
    "ds_trusted_operator_uid (dc_daemon example_file_config) = 7"
    by (simp_all add: example_file_config_def example_daemon_config_def)
  from session_store_trusted [OF run [unfolded example_file_startup_def]] store path settings
  show ?thesis unfolding run snd_conv by fastforce
qed

definition example_crashed_world :: world where
  "example_crashed_world = \<lparr>w_fs = example_crashed, w_tick = 0, w_log = []\<rparr>"

lemma example_open:
  "fst (sys_open_dir example_kernel (path_loc example_kernel ''/r/d'') example_crashed_world) = Inr (Fid 1 4)"
  "shallow (w_fs (snd (sys_open_dir example_kernel (path_loc example_kernel ''/r/d'') example_crashed_world))) 1 (Fid 1 4)"
  by code_simp+

theorem stale_socket_scan_ends_witness:
  "fst (remove_stale_session_sockets 1 example_kernel ''/r/d'' 7 example_crashed_world) \<noteq> Inl None"
proof (rule stale_socket_scan_ends)
  fix fd w1
  assume "sys_open_dir example_kernel (path_loc example_kernel ''/r/d'') example_crashed_world = (Inr fd, w1)"
  with example_open show "shallow (w_fs w1) 1 fd" by simp
qed (simp add: example_kernel_def)

end
