(* ===== verification/Command_Line.thy ===== *)
theory Command_Line
  imports Client_Api Server_Startup Ca_Files
begin

text \<open>
  The program around the components: the life of the daemon (\<open>daemon.rs\<close>), the commands of the
  command line (\<open>cli.rs\<close>) and their dispatch (\<open>main.rs\<close>). Parsing the arguments is the
  clap library: a command is its parsed form. The JSON serializer, standard output and the signals
  are parameters.
\<close>

subsection \<open>The daemon\<close>

text \<open>The working directory is asked for only when the path of the configuration is relative.\<close>

definition load_daemon_config :: "kernel \<Rightarrow> (string \<Rightarrow> raw_daemon_config option) \<Rightarrow> string \<Rightarrow> (failure, daemon_config, 'z) sys" where
  "load_daemon_config K de path =
     sys_match (sys_read K (path_loc K path)) (\<lambda>r.
       let contents = (case r of Inr s \<Rightarrow> if utf8_valid s then Some s else None | Inl _ \<Rightarrow> None);
           load = (\<lambda>cwd. sys_result (map_err (\<lambda>e. Context_of (''invalid daemon configuration at '' @ path) (Bail (ce_message e)))
             (daemon_config_load de contents cwd path)))
       in if is_absolute path \<or> contents = None then load None
          else sys_match (sys_getcwd K) (\<lambda>cwd. load (case cwd of Inr c \<Rightarrow> Some c | Inl _ \<Rightarrow> None)))"

text \<open>
  \<open>control.run()\<close> until one of its turns fails, against the signal: the events that the selection
  delivered before the signal came, if it came first.
\<close>

fun run_turns :: "select_event list \<Rightarrow> control_server \<Rightarrow> failure option \<times> control_server" where
  "run_turns [] server = (None, server)"
| "run_turns (event # events) server =
     (case run_select event server of
        Inl e \<Rightarrow> (Some e, server)
      | Inr server \<Rightarrow> run_turns events server)"

record 'k daemon_env =
  de_fuel :: nat
  de_toml :: "string \<Rightarrow> raw_daemon_config option"
  de_lib :: "'k ca_lib"
  de_trust :: trust_env
  de_events :: "select_event list"
  de_signal :: "io_error + unit"
  de_handlers :: "daemon \<Rightarrow> daemon"
  de_session_ids :: "daemon \<Rightarrow> string list"

text \<open>
  \<open>run_with_config\<close>: the server is shut down however the loop ended, and its result is
  returned. \<open>de_handlers\<close> is what the connection tasks did to the sessions meanwhile.
\<close>

definition run_with_config :: "kernel \<Rightarrow> 'k daemon_env \<Rightarrow> daemon_config \<Rightarrow> (failure option, unit, 'z) sys" where
  "run_with_config K env config =
     sys_then (sys_context (\<lambda>e. Some (Context_of ''invalid daemon CA material'' e))
       (managed_ca_load K (de_lib env) (path_loc K (ca_certificate (dc_ca config))) (path_loc K (ca_private_key (dc_ca config))))) (\<lambda>ca.
     sys_then (control_bind (de_fuel env) K (de_trust env) config) (\<lambda>control.
       case run_turns (de_events env) control of (stopped, control) \<Rightarrow>
       let control = control\<lparr>sv_daemon := de_handlers env (sv_daemon control)\<rparr>;
           result = (case stopped of
               Some e \<Rightarrow> Inl e
             | None \<Rightarrow> map_err (Context ''failed to listen for shutdown signal'') (de_signal env))
       in sys_then (shutdown_server K (de_session_ids env) control) (\<lambda>_. sys_result (map_err Some result))))"

definition daemon_run :: "kernel \<Rightarrow> 'k daemon_env \<Rightarrow> string \<Rightarrow> (failure option, unit, 'z) sys" where
  "daemon_run K env config_path =
     sys_then (sys_context Some (load_daemon_config K (de_toml env) config_path)) (run_with_config K env)"

definition export_ca_certificate :: "kernel \<Rightarrow> 'k daemon_env \<Rightarrow> string \<Rightarrow> string \<Rightarrow> (failure, unit, 'z) sys" where
  "export_ca_certificate K env config_path output =
     sys_then (load_daemon_config K (de_toml env) config_path) (\<lambda>config.
     export_public_certificate K (de_lib env) (dc_ca config) output)"

definition initialize_ca :: "kernel \<Rightarrow> 'k daemon_env \<Rightarrow> string \<Rightarrow> (failure, ca_config) csys" where
  "initialize_ca K env config_path =
     sys_then (load_daemon_config K (de_toml env) config_path) (\<lambda>config.
     sys_then (initialize K (de_lib env) (dc_ca config)) (\<lambda>_.
     sys_return (dc_ca config)))"

subsection \<open>The commands\<close>

record create_args =
  ca_file :: "string option"
  ca_config_path :: "string option"

record reload_args =
  ra_session_id :: "string option"
  ra_all :: bool

datatype ca_command = CaInit string | CaExport string string

datatype command =
    DaemonCommand string
  | CreateCommand create_args
  | ListCommand
  | StopCommand string
  | ReloadCommand reload_args
  | CaCommand ca_command

text \<open>What is printed: the structures that are serialized.\<close>

datatype cli_output =
    CreatedSessionOutput string string bool "string option" "string option"
  | SessionListOutput "session_info list"
  | StopOutput bool string
  | ReloadOutput "reload_result list"
  | CaInitOutput bool string string bool
  | CaExportOutput bool string

datatype cli_error =
    Unavailable string string
  | InlineDisabled string
  | ClientFailure client_error
  | ReloadFailed
  | OutputFailed string
  | SignalFailed string
  | LocalConfig string string
  | Local "failure option"
  | UnreachableCode

record ('j, 's) cli_env =
  ce_codec :: "'j codec"
  ce_server :: "string \<Rightarrow> 's server"
  ce_source :: string
  ce_session_toml :: "string \<Rightarrow> config_error + session_config"
  ce_json :: "cli_output \<Rightarrow> string option"
  ce_write_ok :: bool
  ce_flush_ok :: bool
  ce_register :: "string + unit"

text \<open>
  The state of a command: the file system, the server, what it printed, whether its signals are
  registered and whether it waited for one.
\<close>

record 's cli =
  cli_world :: ca_world
  cli_server :: 's
  cli_stdout :: string
  cli_registered :: bool
  cli_waited :: bool

type_synonym ('s, 'a) cli_run = "'s cli \<Rightarrow> (cli_error + 'a) \<times> 's cli"

definition cli_then :: "('s, 'a) cli_run \<Rightarrow> ('a \<Rightarrow> ('s, 'b) cli_run) \<Rightarrow> ('s, 'b) cli_run" where
  "cli_then m k c = (case m c of (Inl e, c) \<Rightarrow> (Inl e, c) | (Inr x, c) \<Rightarrow> k x c)"

definition write_json :: "('j, 's) cli_env \<Rightarrow> cli_output \<Rightarrow> ('s, unit) cli_run" where
  "write_json env value c =
     (case ce_json env value of
        None \<Rightarrow> (Inl (OutputFailed ''could not serialize JSON response''), c)
      | Some json \<Rightarrow>
          if \<not> ce_write_ok env then (Inl (OutputFailed ''could not write JSON response''), c)
          else (if ce_flush_ok env then Inr () else Inl (OutputFailed ''could not flush JSON response''),
            c\<lparr>cli_stdout := cli_stdout c @ json @ [CHR 0x0A]\<rparr>))"

definition cli_client_error :: "string \<Rightarrow> client_error \<Rightarrow> string \<Rightarrow> bool \<Rightarrow> cli_error" where
  "cli_client_error source error control_socket inline =
     (case error of
        Transport \<Rightarrow> Unavailable control_socket source
      | OperationNotAllowed message \<Rightarrow> if inline then InlineDisabled message else ClientFailure error
      | _ \<Rightarrow> ClientFailure error)"

text \<open>One operation of the client, its error reported as the command line reports it.\<close>

definition cli_client :: "('j, 's) cli_env \<Rightarrow> string \<Rightarrow> bool \<Rightarrow> ('s \<Rightarrow> (client_error + 'a) \<times> 's) \<Rightarrow> ('s, 'a) cli_run" where
  "cli_client env control_socket inline operation c =
     (case operation (cli_server c) of
        (r, s) \<Rightarrow> (map_err (\<lambda>e. cli_client_error (ce_source env) e control_socket inline) r, c\<lparr>cli_server := s\<rparr>))"

definition cli_local :: "('e \<Rightarrow> cli_error) \<Rightarrow> ('e, 'a) csys \<Rightarrow> ('s, 'a) cli_run" where
  "cli_local f m c = (case m (cli_world c) of (r, w) \<Rightarrow> (map_err f r, c\<lparr>cli_world := w\<rparr>))"

definition load_local_session_config :: "kernel \<Rightarrow> ('j, 's) cli_env \<Rightarrow> string \<Rightarrow> ('s, session_config) cli_run" where
  "load_local_session_config K env path =
     cli_then (cli_local (\<lambda>_. LocalConfig ''could not read local session config '' path) (sys_read K (path_loc K path))) (\<lambda>toml c.
       if utf8_valid toml
       then (map_err (\<lambda>_. LocalConfig ''could not parse local session config '' path) (ce_session_toml env toml), c)
       else (Inl (LocalConfig ''could not read local session config '' path), c))"

definition register_signals :: "('j, 's) cli_env \<Rightarrow> ('s, unit) cli_run" where
  "register_signals env c =
     (case ce_register env of
        Inl message \<Rightarrow> (Inl (SignalFailed message), c)
      | Inr _ \<Rightarrow> (Inr (), c\<lparr>cli_registered := True\<rparr>))"

definition wait_for_signal :: "('s, unit) cli_run" where
  "wait_for_signal c = (Inr (), c\<lparr>cli_waited := True\<rparr>)"

definition report_created_session :: "('j, 's) cli_env \<Rightarrow> session \<Rightarrow> ('s, unit) cli_run" where
  "report_created_session env session =
     write_json env (CreatedSessionOutput (ses_id session) (ses_socket_path session) (ses_persistent session)
       (ses_ca_certificate_pem session) (ses_credential_seed_base64url session))"

definition cli_create :: "kernel \<Rightarrow> ('j, 's) cli_env \<Rightarrow> string \<Rightarrow> create_args \<Rightarrow> ('s, unit) cli_run" where
  "cli_create K env control_socket args =
     (let server = ce_server env control_socket in
      cli_then (case ca_file args of
          Some name \<Rightarrow> cli_client env control_socket False
            (create_from_file (ce_source env) (ce_codec env) server name)
        | None \<Rightarrow>
            (case ca_config_path args of
               Some path \<Rightarrow> cli_then (load_local_session_config K env path) (\<lambda>config.
                 cli_client env control_socket True (client_create (ce_codec env) server config))
             | None \<Rightarrow> (\<lambda>c. (Inl UnreachableCode, c)))) (\<lambda>session.
      if ses_persistent session then report_created_session env session
      else cli_then (register_signals env) (\<lambda>_.
           cli_then (report_created_session env session) (\<lambda>_. wait_for_signal))))"

definition cli_list :: "('j, 's) cli_env \<Rightarrow> string \<Rightarrow> ('s, unit) cli_run" where
  "cli_list env control_socket =
     cli_then (cli_client env control_socket False (client_list (ce_codec env) (ce_server env control_socket))) (\<lambda>sessions.
     write_json env (SessionListOutput sessions))"

definition cli_stop :: "('j, 's) cli_env \<Rightarrow> string \<Rightarrow> string \<Rightarrow> ('s, unit) cli_run" where
  "cli_stop env control_socket session_id =
     cli_then (cli_client env control_socket False (client_stop (ce_codec env) (ce_server env control_socket) session_id)) (\<lambda>_.
     write_json env (StopOutput True session_id))"

definition cli_reload :: "('j, 's) cli_env \<Rightarrow> string \<Rightarrow> reload_args \<Rightarrow> ('s, unit) cli_run" where
  "cli_reload env control_socket args =
     (let server = ce_server env control_socket in
      cli_then (if ra_all args then cli_client env control_socket False (client_reload_all (ce_codec env) server)
        else (case ra_session_id args of
            None \<Rightarrow> (\<lambda>c. (Inl UnreachableCode, c))
          | Some session_id \<Rightarrow>
              cli_then (cli_client env control_socket False (client_reload (ce_codec env) server session_id)) (\<lambda>result c.
                (Inr [result], c)))) (\<lambda>results.
      cli_then (write_json env (ReloadOutput results)) (\<lambda>_ c.
        if list_ex (\<lambda>result. rr_status result = Failed) results then (Inl ReloadFailed, c) else (Inr (), c))))"

definition cli_ca_init :: "kernel \<Rightarrow> ('j, 's) cli_env \<Rightarrow> 'k daemon_env \<Rightarrow> string \<Rightarrow> ('s, unit) cli_run" where
  "cli_ca_init K env denv config_path =
     cli_then (cli_local (\<lambda>e. Local (Some e)) (initialize_ca K denv config_path)) (\<lambda>ca.
     write_json env (CaInitOutput True (ca_certificate ca) (ca_private_key ca) False))"

definition cli_ca_export :: "kernel \<Rightarrow> ('j, 's) cli_env \<Rightarrow> 'k daemon_env \<Rightarrow> string \<Rightarrow> string \<Rightarrow> ('s, unit) cli_run" where
  "cli_ca_export K env denv config_path output =
     cli_then (cli_local (\<lambda>e. Local (Some e)) (export_ca_certificate K denv config_path output)) (\<lambda>_.
     write_json env (CaExportOutput True output))"

definition main_dispatch :: "kernel \<Rightarrow> ('j, 's) cli_env \<Rightarrow> 'k daemon_env \<Rightarrow> string \<Rightarrow> command \<Rightarrow> ('s, unit) cli_run" where
  "main_dispatch K env denv control_socket command =
     (case command of
        DaemonCommand config_path \<Rightarrow> cli_local Local (daemon_run K denv config_path)
      | CreateCommand args \<Rightarrow> cli_create K env control_socket args
      | ListCommand \<Rightarrow> cli_list env control_socket
      | StopCommand session_id \<Rightarrow> cli_stop env control_socket session_id
      | ReloadCommand args \<Rightarrow> cli_reload env control_socket args
      | CaCommand (CaInit config_path) \<Rightarrow> cli_ca_init K env denv config_path
      | CaCommand (CaExport config_path output) \<Rightarrow> cli_ca_export K env denv config_path output)"

text \<open>The control socket when the command line names none.\<close>

definition macos_default_control_socket :: "string option \<Rightarrow> u32 \<Rightarrow> string" where
  "macos_default_control_socket home uid =
     path_join (case home of Some h \<Rightarrow> h | None \<Rightarrow> ''/tmp/baffle-'' @ nat_to_string (unat uid))
       ''Library/Caches/Baffle/control.sock''"

definition linux_default_control_socket :: string where
  "linux_default_control_socket = ''/run/baffle/control.sock''"

definition default_control_socket :: "bool \<Rightarrow> string option \<Rightarrow> u32 \<Rightarrow> string" where
  "default_control_socket macos home uid =
     (if macos then macos_default_control_socket home uid else linux_default_control_socket)"

subsection \<open>What a run of the daemon does to the file system\<close>

text \<open>An event that leaves the file system as it is: all but creations, changes, removals and locks.\<close>

fun is_look :: "fs_event \<Rightarrow> bool" where
  "is_look (Ev_Stat _ _) = True"
| "is_look (Ev_Fstat _ _) = True"
| "is_look (Ev_Open _ _) = True"
| "is_look (Ev_Read _ _) = True"
| "is_look (Ev_Readdir _) = True"
| "is_look (Ev_Path _) = True"
| "is_look _ = False"

definition looks :: "(nat \<times> fs_event) set" where
  "looks = {(t, ev). is_look ev}"

lemma looks_member [simp]: "(t, ev) \<in> looks \<longleftrightarrow> is_look ev"
  by (simp add: looks_def)

lemma logs_load_daemon_config: "logs looks (load_daemon_config K de path)"
  unfolding load_daemon_config_def Let_def by (auto intro!: logs_intros)

lemma logs_managed_ca_load: "logs looks (managed_ca_load K lib certificate key)"
  unfolding managed_ca_load_def public_certificate_load_def read_private_key_def by (auto intro!: logs_intros)

text \<open>The guard of a server that started names the socket that was bound.\<close>

lemma bind_control_socket_guard:
  assumes "bind_control_socket K path uid w = (Inr (listener, g), w')"
  shows "guards_bound K path g w'"
proof -
  obtain l w1 md w2 where b: "sys_bind K (path_loc K path) w = (Inr l, w1)"
    and s: "sys_stat K (path_loc K path) False w1 = (Inr md, w2)"
    and r: "restrict_control_socket K uid l (guard_of path md) w2 = (Inr (listener, g), w')"
    using assms unfolding bind_control_socket_def Let_def scan_ctx_def
    by (auto elim!: sys_matchE sys_thenE sys_contextE split: sum.splits if_splits)
  have "g = guard_of path md" using restrict_control_socket_ok [OF r] by simp
  then show ?thesis
    using guards_bound_mono [OF bind_then_guards [OF b s]] logs_adds [OF logs_restrict_control_socket r] by simp
qed

lemma control_bind_guard:
  assumes "control_bind fuel K trust config w = (Inr server, w')"
  shows "\<exists>g. sv_socket_guard server = Some g \<and> guards_bound K (ds_control_socket (dc_daemon config)) g w'"
  using assms unfolding control_bind_def
  by (auto elim!: sys_thenE dest!: bind_control_socket_guard simp: control_server_new_def Let_def split: sum.splits)

lemma run_select_guard: "run_select event server = Inr server' \<Longrightarrow> sv_socket_guard server' = sv_socket_guard server"
  by (auto simp: run_select_def split: select_event.splits sum.splits if_splits)

lemma run_turns_guard: "run_turns events server = (stopped, server') \<Longrightarrow> sv_socket_guard server' = sv_socket_guard server"
  by (induction events server rule: run_turns.induct) (auto dest: run_select_guard split: sum.splits)

lemma logs_shutdown_server:
  "sv_socket_guard server = Some g \<Longrightarrow> logs (guard_events K g) (shutdown_server K ids server)"
  unfolding shutdown_server_def by (auto intro!: logs_intros split: prod.split option.split)

text \<open>From a valid pair to the end of the shutdown.\<close>

lemma bound_events_mono: "set log \<subseteq> set log' \<Longrightarrow> bound_events K loc log \<subseteq> bound_events K loc log'"
  unfolding bound_events_def by blast

definition daemon_events :: "kernel \<Rightarrow> daemon_config \<Rightarrow> (nat \<times> fs_event) list \<Rightarrow> (nat \<times> fs_event) set" where
  "daemon_events K config log = startup_events K (ds_trusted_operator_uid (dc_daemon config)) \<union>
     bound_events K (path_loc K (ds_control_socket (dc_daemon config))) log"

lemma daemon_events_removal:
  assumes "(t, ev) \<in> daemon_events K config log"
  shows "ev \<noteq> Ev_Rmdir loc v"
    "ev = Ev_Unlink loc v nd \<Longrightarrow>
      ((quiet K t \<longrightarrow> nd_kind nd = SocketFile \<and> nd_uid nd = ds_trusted_operator_uid (dc_daemon config)) \<and>
       (quiet K (t - 1) \<and> quiet K t \<and> k_fault K (t - 2) = None \<longrightarrow> \<not> nd_listening nd))
      \<or> (loc = path_loc K (ds_control_socket (dc_daemon config)) \<and>
         (\<exists>t0 i. (t0, Ev_Bind loc i) \<in> set log \<and> t0 < t \<and> (quiet K (Suc t0) \<and> quiet K t \<longrightarrow> v = i)))"
  using assms unfolding daemon_events_def startup_events_def bound_events_def stale_removal_def by (cases loc, auto)

lemma serve_adds:
  assumes "control_bind fuel K trust config w = (Inr control, w1)"
    "run_turns events control = (stopped, control')"
    "shutdown_server K ids (control'\<lparr>sv_daemon := d\<rparr>) w1 = (r, w')"
  shows "adds (daemon_events K config (w_log w')) w w'"
proof -
  obtain g where g: "sv_socket_guard control = Some g" "guards_bound K (ds_control_socket (dc_daemon config)) g w1"
    using control_bind_guard [OF assms(1)] by blast
  then have "sv_socket_guard (control'\<lparr>sv_daemon := d\<rparr>) = Some g" using run_turns_guard [OF assms(2)] by simp
  then have a: "adds (guard_events K g) w1 w'" by (rule logs_adds [OF logs_shutdown_server assms(3)])
  have "adds (daemon_events K config (w_log w')) w1 w'"
    by (rule adds_mono [OF guards_bound_adds [OF g(2) a]]) (simp add: daemon_events_def)
  moreover have "adds (daemon_events K config (w_log w')) w w1"
    by (rule adds_mono [OF control_bind_adds [OF assms(1)]])
      (use bound_events_mono adds_past [OF a] in \<open>simp add: daemon_events_def le_supI2\<close>)
  ultimately show ?thesis by (blast intro: adds_trans)
qed

lemma run_with_config_adds:
  assumes "run_with_config K env config w = (r, w')"
  shows "\<exists>ca w1. managed_ca_load K (de_lib env) (path_loc K (ca_certificate (dc_ca config)))
      (path_loc K (ca_private_key (dc_ca config))) w = (ca, w1) \<and> adds looks w w1 \<and>
    (if is_ok ca then adds (daemon_events K config (w_log w')) w1 w' else w' = w1)"
proof -
  obtain ca w1 where ca: "managed_ca_load K (de_lib env) (path_loc K (ca_certificate (dc_ca config)))
      (path_loc K (ca_private_key (dc_ca config))) w = (ca, w1)" by (meson surj_pair)
  obtain control w2 where control: "control_bind (de_fuel env) K (de_trust env) config w1 = (control, w2)"
    by (meson surj_pair)
  have "if is_ok ca then adds (daemon_events K config (w_log w')) w1 w' else w' = w1"
  proof (cases "is_ok ca \<and> is_ok control")
    case False
    then have "w' = (if is_ok ca then w2 else w1)"
      using assms ca control
      by (cases ca; cases control) (auto simp: run_with_config_def sys_then_def sys_context_def is_ok_iff)
    then show ?thesis using control_bind_adds [OF control] by (simp add: daemon_events_def)
  next
    case True
    then obtain server where s: "control = Inr server" by (auto simp: is_ok_iff)
    obtain stopped server' where t: "run_turns (de_events env) server = (stopped, server')" by (meson surj_pair)
    have "\<exists>q. shutdown_server K (de_session_ids env) (server'\<lparr>sv_daemon := de_handlers env (sv_daemon server')\<rparr>) w2 = (q :: failure option + _, w')"
      using assms ca control True s t
      by (auto simp: run_with_config_def sys_then_def sys_context_def sys_result_def is_ok_iff Let_def split: sum.splits prod.splits)
    then show ?thesis using serve_adds [OF control [unfolded s] t] True by auto
  qed
  then show ?thesis using ca logs_adds [OF logs_managed_ca_load ca] by blast
qed

subsection \<open>Properties\<close>


subsection \<open>An example\<close>

text \<open>
  A daemon whose configuration and pair are in files, on the sockets of a dead one, that gets the
  signal after a connection.
\<close>

definition example_file_node :: "u32 \<Rightarrow> string \<Rightarrow> node" where
  "example_file_node mode contents = \<lparr>nd_kind = RegularFile, nd_uid = 7, nd_mode = mode, nd_data = contents,
     nd_entries = [], nd_listening = False\<rparr>"

definition example_run_fs :: unix_fs where
  "example_run_fs = \<lparr>fs_node = [
     Fid 1 1 \<mapsto> example_dir_node [(''.'', Fid 1 1), (''..'', Fid 1 1), (''r'', Fid 1 2), (''f'', Fid 1 7), (''p'', Fid 1 8), (''k'', Fid 1 9)],
     Fid 1 2 \<mapsto> example_dir_node [(''.'', Fid 1 2), (''..'', Fid 1 1), (''c'', Fid 1 3), (''d'', Fid 1 4)],
     Fid 1 3 \<mapsto> example_socket_node False,
     Fid 1 4 \<mapsto> example_dir_node [(''.'', Fid 1 4), (''..'', Fid 1 2)],
     Fid 1 7 \<mapsto> example_file_node 0x1A4 ''toml'',
     Fid 1 8 \<mapsto> example_file_node 0x1A4 ''cert'',
     Fid 1 9 \<mapsto> example_file_node 0x180 ''key''], fs_root = Fid 1 1\<rparr>"

definition example_run_raw :: raw_daemon_config where
  "example_run_raw = \<lparr>rd_daemon = \<lparr>ds_control_socket = ''/r/c'', ds_socket_dir = ''/r/d'',
       ds_trusted_operator_uid = 7, ds_max_sessions = 1, ds_max_connections_per_session = 1,
       ds_shutdown_grace_seconds = 1, ds_control_read_timeout_ms = 1, ds_max_provisioning_requests = 1,
       ds_io_timeout_ms = 1, ds_session_config_dir = None, ds_create_mode = Inline\<rparr>,
     rd_ca = \<lparr>ca_certificate = ''/p'', ca_private_key = ''/k''\<rparr>,
     rd_secrets_directory = ''/s'', rd_secrets_allowed = []\<rparr>"

definition example_daemon_env :: "unit daemon_env" where
  "example_daemon_env = \<lparr>de_fuel = 2, de_toml = \<lambda>s. if s = ''toml'' then Some example_run_raw else None,
     de_lib = example_ca_lib, de_trust = example_trust_env, de_events = [Accepted (Inr ()), ConnectionJoined],
     de_signal = Inr (), de_handlers = \<lambda>d. d, de_session_ids = \<lambda>d. []\<rparr>"

definition example_run :: "(failure option + unit) \<times> world" where
  "example_run = daemon_run example_kernel example_daemon_env ''/f'' \<lparr>w_fs = example_run_fs, w_tick = 0, w_log = []\<rparr>"

lemma example_run_ends:
  "fst example_run = Inr ()"
  "(30, Ev_Unlink (None, [''r'', ''c'']) (Fid 1 34) (example_socket_node False)) \<in> set (w_log (snd example_run))"
  by code_simp+


end
