(* ===== verification/Credential_Seed.thy ===== *)
theory Credential_Seed
  imports Connect_Proxy Session_Manager
begin

text \<open>
  Random material and what is shown of secrets: \<open>CredentialSeed\<close> of \<open>src/credentials.rs\<close>, the bytes
  of \<open>new_session_id\<close> in \<open>src/control/session.rs\<close>, and the types of \<open>src/secrets.rs\<close> whose debug
  output is redacted. The random device is a byte stream, or an error when it cannot be opened.
\<close>

subsection \<open>Reading the random device\<close>

text \<open>\<open>Read::read_exact\<close>: reads until the buffer is full; the end of the stream before that is an error.\<close>

function read_exact :: "nat \<Rightarrow> io_chunk list \<Rightarrow> string + string \<times> io_chunk list" where
  "read_exact n stream =
     (if n = 0 then Inr ([], stream)
      else (case read_some n stream of
          Inl e \<Rightarrow> Inl e
        | Inr (r, stream') \<Rightarrow>
            if r = [] then Inl ''failed to fill whole buffer''
            else and_then (read_exact (n - length r) stream') (\<lambda>(rest, stream''). Inr (r @ rest, stream''))))"
  by pat_completeness auto
termination
  by (relation "measure fst") (auto dest: read_some_Inr(2))

declare read_exact.simps [simp del]

definition SEED_BYTES :: nat where "SEED_BYTES = 32"
definition SESSION_ID_BYTES :: nat where "SESSION_ID_BYTES = 16"

definition random_bytes :: "nat \<Rightarrow> string + io_chunk list \<Rightarrow> string + string" where
  "random_bytes n device = and_then device (\<lambda>stream. and_then (read_exact n stream) (\<lambda>(bytes, _). Inr bytes))"

definition credential_seed_random :: "string + io_chunk list \<Rightarrow> string + string" where
  "credential_seed_random device = random_bytes SEED_BYTES device"

definition random_session_id :: "string + io_chunk list \<Rightarrow> string + string" where
  "random_session_id device =
     and_then (random_bytes SESSION_ID_BYTES device) (\<lambda>bytes. Inr (new_session_id (map of_char bytes)))"

subsection \<open>Representations\<close>

definition as_base64url :: "(string \<Rightarrow> string) \<Rightarrow> string \<Rightarrow> string" where
  "as_base64url b64url seed = b64url seed"

definition seed_debug :: "string \<Rightarrow> string" where
  "seed_debug seed = ''CredentialSeed([REDACTED])''"

definition secret_debug :: "string \<Rightarrow> string" where
  "secret_debug value = ''SecretValue([REDACTED])''"

subsection \<open>What is read\<close>

text \<open>
  A read succeeds exactly when the stream delivers enough bytes before it ends or fails, however
  it is cut into pieces, and then gives the first of them: random material is never short.
\<close>

lemma read_exact_Inr:
  "read_exact n stream = Inr (bytes, rest) \<Longrightarrow>
     length bytes = n \<and> bytes @ stream_bytes rest = stream_bytes stream"
proof (induction n stream arbitrary: bytes rest rule: read_exact.induct)
  case (1 n stream)
  show ?case
  proof (cases "n = 0")
    case False
    with 1(2) obtain r s tail where r: "read_some n stream = Inr (r, s)" "r \<noteq> []"
      "read_exact (n - length r) s = Inr (tail, rest)" "bytes = r @ tail"
      by (subst (asm) read_exact.simps) (auto simp: result_simps split: sum.splits if_splits)
    from 1(1) [OF False r(1) refl r(2,3)] read_some_Inr [OF r(1)] False r(4) show ?thesis by auto
  qed (use 1(2) in \<open>simp add: read_exact.simps\<close>)
qed

lemma read_exact_enough:
  "stream_ok stream \<Longrightarrow> n \<le> length (stream_bytes stream) \<Longrightarrow>
     \<exists>rest. read_exact n stream = Inr (take n (stream_bytes stream), rest)"
proof (induction n stream rule: read_exact.induct)
  case (1 n stream)
  show ?case
  proof (cases "n = 0")
    case False
    obtain r s where r: "read_some n stream = Inr (r, s)" using read_some_ok [OF 1(2)] by blast
    note f = read_some_Inr [OF r]
    have ne: "r \<noteq> []" using f(5) False 1(3) by auto
    have "length r \<le> n" "r @ stream_bytes s = stream_bytes stream" "stream_ok s"
      using f False 1(2) by auto
    moreover from this 1(3) have "n - length r \<le> length (stream_bytes s)"
      by (metis diff_le_mono length_append diff_add_inverse)
    ultimately obtain rest where "read_exact (n - length r) s = Inr (take (n - length r) (stream_bytes s), rest)"
      using 1(1) [OF False r refl ne] by blast
    with r ne False \<open>r @ stream_bytes s = stream_bytes stream\<close> \<open>length r \<le> n\<close> show ?thesis
      by (subst read_exact.simps) (auto simp flip: \<open>r @ stream_bytes s = stream_bytes stream\<close>)
  qed (simp add: read_exact.simps)
qed

lemma credential_seed_random_exact:
  assumes "stream_ok stream"
  shows "credential_seed_random (Inr stream) = Inr seed \<longleftrightarrow>
    length seed = SEED_BYTES \<and> prefix seed (stream_bytes stream)"
proof
  assume "credential_seed_random (Inr stream) = Inr seed"
  then show "length seed = SEED_BYTES \<and> prefix seed (stream_bytes stream)"
    by (auto simp: credential_seed_random_def random_bytes_def result_simps prefix_def dest!: read_exact_Inr)
      (metis)
next
  assume s: "length seed = SEED_BYTES \<and> prefix seed (stream_bytes stream)"
  then have "take SEED_BYTES (stream_bytes stream) = seed" by (auto simp: prefix_def)
  moreover have "SEED_BYTES \<le> length (stream_bytes stream)" using s by (metis prefix_length_le)
  ultimately show "credential_seed_random (Inr stream) = Inr seed"
    using read_exact_enough [OF assms, of SEED_BYTES] by (auto simp: credential_seed_random_def random_bytes_def)
qed

text \<open>An identifier that is made has all of its 32 digits.\<close>

lemma random_session_id_length:
  "random_session_id device = Inr sid \<Longrightarrow> length sid = 2 * SESSION_ID_BYTES"
  by (auto simp: random_session_id_def random_bytes_def result_simps new_session_id_def
      dest!: read_exact_Inr split: prod.splits)
    (simp add: length_concat comp_def sum_list_triv)

end
