(* ===== verification/Measure_Sessions.thy ===== *)
theory Measure_Sessions
  imports Prelude
begin

text \<open>
  The program that measures sessions: \<open>bench/measure_sessions.rs\<close>. It creates sessions through the
  control client, reads the memory of the daemon and writes rows of comma separated values.

  Clock, process status, client and sockets are an environment of outcomes, indexed by a counter
  of the questions asked; \<open>'e\<close> are the client's errors and \<open>'s\<close> its session handles. A measured
  \<open>f64\<close> is kept as what it is computed from, and \<open>me_format\<close> is its text with six decimals. A write
  can stop after any number of bytes. Waiting for the sessions to end takes fuel.
\<close>

subsection \<open>Environment and state\<close>

datatype measurement = Millis nat | Kib nat | KibPer nat nat | Amount nat

record ('e, 's) measure_env =
  me_var :: "string \<Rightarrow> string option"
  me_now :: "nat \<Rightarrow> nat"
  me_status :: "nat \<Rightarrow> nat \<Rightarrow> io_error + string"
  me_create :: "nat \<Rightarrow> 'e + 's"
  me_joined :: "nat \<Rightarrow> nat \<Rightarrow> (string + nat \<times> nat \<times> ('e + 's)) list"
  me_active :: "nat \<Rightarrow> 'e + nat"
  me_connect :: "nat \<Rightarrow> 's \<Rightarrow> io_error + unit"
  me_open :: "nat \<Rightarrow> io_error + unit"
  me_write :: "nat \<Rightarrow> (nat \<times> io_error) option"
  me_format :: "measurement \<Rightarrow> string"
  me_client_text :: "'e \<Rightarrow> string"
  me_io_text :: "io_error \<Rightarrow> string"

datatype 'e measure_error = Message string | ClientFailed 'e | IoFailed io_error | OutOfFuel

record 's measure_state =
  mt_tick :: nat
  mt_file :: string
  mt_console :: string
  mt_sessions :: "'s list"
  mt_connections :: nat

type_synonym ('e, 's, 'a) measure = "'s measure_state \<Rightarrow> ('e measure_error + 'a) \<times> 's measure_state"

definition m_return :: "'a \<Rightarrow> ('e, 's, 'a) measure" where
  "m_return x s = (Inr x, s)"

definition m_result :: "'e measure_error + 'a \<Rightarrow> ('e, 's, 'a) measure" where
  "m_result r s = (r, s)"

definition m_then :: "('e, 's, 'a) measure \<Rightarrow> ('a \<Rightarrow> ('e, 's, 'b) measure) \<Rightarrow> ('e, 's, 'b) measure" where
  "m_then m k s = (case m s of (Inl e, s') \<Rightarrow> (Inl e, s') | (Inr x, s') \<Rightarrow> k x s')"

text \<open>A question to the environment, and a change of the program's own state.\<close>

definition m_ask :: "(nat \<Rightarrow> 'a) \<Rightarrow> ('e, 's, 'a) measure" where
  "m_ask f s = (Inr (f (mt_tick s)), s\<lparr>mt_tick := Suc (mt_tick s)\<rparr>)"

definition m_modify :: "('s measure_state \<Rightarrow> 's measure_state) \<Rightarrow> ('e, 's, unit) measure" where
  "m_modify f s = (Inr (), f s)"

definition m_get :: "('s measure_state \<Rightarrow> 'a) \<Rightarrow> ('e, 's, 'a) measure" where
  "m_get f s = (Inr (f s), s)"

text \<open>A block: the sessions and connections it still holds are dropped however it ends.\<close>

definition m_scope :: "('e, 's, 'a) measure \<Rightarrow> ('e, 's, 'a) measure" where
  "m_scope m s = (case m s of (r, s') \<Rightarrow> (r, s'\<lparr>mt_sessions := [], mt_connections := 0\<rparr>))"

subsection \<open>Parameters of a run\<close>

text \<open>\<open>str::parse\<close> for an unsigned integer below a bound.\<close>

definition parse_below :: "nat \<Rightarrow> string \<Rightarrow> nat option" where
  "parse_below bound s =
     (let ds = (case s of [] \<Rightarrow> [] | c # r \<Rightarrow> if c = CHR ''+'' then r else s) in
      if ds = [] \<or> \<not> list_all is_ascii_digit ds then None
      else if nat_of_digits ds < bound then Some (nat_of_digits ds) else None)"

definition USIZE :: nat where "USIZE = 2 ^ 64"

definition env_usize :: "('e, 's) measure_env \<Rightarrow> string \<Rightarrow> nat \<Rightarrow> 'e measure_error + nat" where
  "env_usize env name dflt =
     ok_or (Message (name @ '' must be an integer''))
       (parse_below USIZE (case me_var env name of None \<Rightarrow> nat_to_string dflt | Some value \<Rightarrow> value))"

definition env_counts :: "('e, 's) measure_env \<Rightarrow> string \<Rightarrow> nat list \<Rightarrow> 'e measure_error + nat list" where
  "env_counts env name dflt =
     (case me_var env name of
        None \<Rightarrow> Inr dflt
      | Some value \<Rightarrow>
          and_then (traverse (\<lambda>v. ok_or (Message (name @ '' must be a comma-separated list of integers''))
            (parse_below USIZE (trim v))) (split_on CHR '','' value)) (\<lambda>counts.
          if counts = [] \<or> 0 \<in> set counts
          then Inl (Message (name @ '' must contain one or more positive session counts''))
          else Inr counts))"

subsection \<open>Rows\<close>

definition NEWLINE :: string where "NEWLINE = [CHR 0x0A]"

definition write_row :: "('e, 's) measure_env \<Rightarrow> string \<Rightarrow> bool \<Rightarrow> ('e, 's, unit) measure" where
  "write_row env row appending =
     m_then (m_ask (me_open env)) (\<lambda>opened. m_then (m_result (map_err IoFailed opened)) (\<lambda>_.
     m_then (m_modify (\<lambda>s. if appending then s else s\<lparr>mt_file := []\<rparr>)) (\<lambda>_.
     m_then (m_ask (me_write env)) (\<lambda>written.
       case written of
         None \<Rightarrow> m_modify (\<lambda>s. s\<lparr>mt_file := mt_file s @ row\<rparr>)
       | Some (n, e) \<Rightarrow> m_then (m_modify (\<lambda>s. s\<lparr>mt_file := mt_file s @ take n row\<rparr>)) (\<lambda>_. m_result (Inl (IoFailed e)))))))"

definition format_row :: "string list \<Rightarrow> string" where
  "format_row columns = join_with CHR '','' columns @ NEWLINE"

text \<open>\<open>str::replace\<close> of one character.\<close>

definition replace_char :: "char \<Rightarrow> char \<Rightarrow> string \<Rightarrow> string" where
  "replace_char c d = map (\<lambda>x. if x = c then d else x)"

definition emit_row :: "('e, 's) measure_env \<Rightarrow> bool \<Rightarrow> string \<Rightarrow> ('e, 's, unit) measure" where
  "emit_row env output row =
     (if output then write_row env row True else m_modify (\<lambda>s. s\<lparr>mt_console := mt_console s @ row\<rparr>))"

definition record_sample :: "('e, 's) measure_env \<Rightarrow> bool \<Rightarrow> nat \<Rightarrow> nat \<Rightarrow> nat \<Rightarrow> string \<Rightarrow> measurement \<Rightarrow>
    ('e, 's, unit) measure" where
  "record_sample env output repeat count index metric val =
     emit_row env output (format_row [''sample'', nat_to_string repeat, nat_to_string count, nat_to_string index,
       metric, me_format env val])"

definition record_failure :: "('e, 's) measure_env \<Rightarrow> bool \<Rightarrow> nat \<Rightarrow> nat \<Rightarrow> nat \<Rightarrow> string \<Rightarrow> string \<Rightarrow>
    ('e, 's, unit) measure" where
  "record_failure env output repeat count index metric error =
     (let safe_error = replace_char (CHR 0x0A) (CHR '' '') (replace_char CHR '','' CHR '';'' error) in
      emit_row env output (format_row [''failure'', nat_to_string repeat, nat_to_string count, nat_to_string index,
        metric, safe_error]))"

subsection \<open>Reading the memory of the daemon\<close>

text \<open>\<open>str::lines\<close>: no line after a final newline, and a carriage return before a newline is removed.\<close>

definition text_lines :: "string \<Rightarrow> string list" where
  "text_lines s =
     (let ls = split_on (CHR 0x0A) s; ls = (if last ls = [] then butlast ls else ls) in
      map (\<lambda>l. if l \<noteq> [] \<and> last l = CHR 0x0D then butlast l else l) ls)"

fun white_words :: "string \<Rightarrow> string \<Rightarrow> string list" where
  "white_words w [] = (if w = [] then [] else [w])"
| "white_words w (c # s) =
     (if is_white c then (if w = [] then white_words [] s else w # white_words [] s)
      else white_words (w @ [c]) s)"

definition parse_rss :: "string \<Rightarrow> 'e measure_error + nat" where
  "parse_rss status =
     and_then (ok_or (Message ''VmRSS was not present in process status'')
       (List.find (prefix ''VmRSS:'') (text_lines status))) (\<lambda>line.
     let words = white_words [] line in
     and_then (ok_or (Message ''VmRSS had no value'') (if 1 < length words then Some (words ! 1) else None)) (\<lambda>value.
     ok_or (Message ''VmRSS was not an integer'') (parse_below (2 ^ 64) value)))"

definition read_rss_kib :: "('e, 's) measure_env \<Rightarrow> nat \<Rightarrow> ('e, 's, nat) measure" where
  "read_rss_kib env pid =
     m_then (m_ask (\<lambda>t. me_status env t pid)) (\<lambda>status.
     m_then (m_result (map_err IoFailed status)) (\<lambda>status. m_result (parse_rss status)))"

subsection \<open>Waiting\<close>

fun wait_loop :: "nat \<Rightarrow> ('e, 's) measure_env \<Rightarrow> nat \<Rightarrow> ('e, 's, unit) measure" where
  "wait_loop 0 env deadline = m_result (Inl OutOfFuel)"
| "wait_loop (Suc fuel) env deadline =
     m_then (m_ask (me_active env)) (\<lambda>active.
     m_then (m_result (map_err ClientFailed active)) (\<lambda>active.
       if active = 0 then m_return ()
       else m_then (m_ask (me_now env)) (\<lambda>now.
         if now \<ge> deadline then m_result (Inl (Message ''ephemeral sessions did not stop within three seconds''))
         else wait_loop fuel env deadline)))"

definition wait_until_empty :: "nat \<Rightarrow> ('e, 's) measure_env \<Rightarrow> ('e, 's, unit) measure" where
  "wait_until_empty fuel env =
     m_then (m_ask (me_now env)) (\<lambda>now. wait_loop fuel env (now + 3 * 10 ^ 9))"

subsection \<open>Trials\<close>

fun record_samples :: "('e, 's) measure_env \<Rightarrow> bool \<Rightarrow> nat \<Rightarrow> nat \<Rightarrow> (nat \<times> string \<times> measurement) list \<Rightarrow>
    ('e, 's, unit) measure" where
  "record_samples env output repeat count [] = m_return ()"
| "record_samples env output repeat count ((index, metric, val) # samples) =
     m_then (record_sample env output repeat count index metric val) (\<lambda>_.
     record_samples env output repeat count samples)"

definition hold_session :: "'s \<Rightarrow> ('e, 's, unit) measure" where
  "hold_session session = m_modify (\<lambda>s. s\<lparr>mt_sessions := mt_sessions s @ [session]\<rparr>)"

definition drop_sessions :: "('e, 's, unit) measure" where
  "drop_sessions = m_modify (\<lambda>s. s\<lparr>mt_sessions := []\<rparr>)"

definition drop_connections :: "('e, 's, unit) measure" where
  "drop_connections = m_modify (\<lambda>s. s\<lparr>mt_connections := 0\<rparr>)"

text \<open>A created session is recorded with its latency and kept; an error is recorded and ends the trial.\<close>

definition take_session :: "('e, 's) measure_env \<Rightarrow> bool \<Rightarrow> nat \<Rightarrow> nat \<Rightarrow> nat \<Rightarrow> string \<Rightarrow> nat \<Rightarrow> 'e + 's \<Rightarrow>
    ('e, 's, unit) measure" where
  "take_session env output repeat count index name latency created =
     (case created of
        Inl error \<Rightarrow> m_then (record_failure env output repeat count index name (me_client_text env error)) (\<lambda>_.
          m_result (Inl (ClientFailed error)))
      | Inr session \<Rightarrow>
          m_then (record_sample env output repeat count index (name @ ''_ms'') (Millis latency)) (\<lambda>_.
          hold_session session))"

fun create_sequentially :: "('e, 's) measure_env \<Rightarrow> bool \<Rightarrow> nat \<Rightarrow> nat \<Rightarrow> nat list \<Rightarrow> ('e, 's, unit) measure" where
  "create_sequentially env output repeat count [] = m_return ()"
| "create_sequentially env output repeat count (index # indices) =
     m_then (m_ask (me_now env)) (\<lambda>create_started.
     m_then (m_ask (me_create env)) (\<lambda>created.
     m_then (m_ask (me_now env)) (\<lambda>now.
     m_then (take_session env output repeat count index ''sequential_create'' (now - create_started) created) (\<lambda>_.
     create_sequentially env output repeat count indices))))"

definition sequential_trial :: "nat \<Rightarrow> ('e, 's) measure_env \<Rightarrow> bool \<Rightarrow> nat \<Rightarrow> nat \<Rightarrow> nat \<Rightarrow> ('e, 's, unit) measure" where
  "sequential_trial fuel env output daemon_pid repeat count = m_scope (
     m_then (read_rss_kib env daemon_pid) (\<lambda>rss_before.
     m_then (m_ask (me_now env)) (\<lambda>started.
     m_then (create_sequentially env output repeat count [0..<count]) (\<lambda>_.
     m_then (m_ask (me_now env)) (\<lambda>created.
     m_then (read_rss_kib env daemon_pid) (\<lambda>rss_after.
     m_then (record_samples env output repeat count [
       (0, ''sequential_create_wall_ms'', Millis (created - started)),
       (0, ''sequential_idle_rss_before_kib'', Kib rss_before),
       (0, ''sequential_idle_rss_after_kib'', Kib rss_after),
       (0, ''sequential_idle_rss_delta_per_session_kib'', KibPer (rss_after - rss_before) count)]) (\<lambda>_.
     m_then (m_ask (me_now env)) (\<lambda>stop_started.
     m_then drop_sessions (\<lambda>_.
     m_then (wait_until_empty fuel env) (\<lambda>_.
     m_then (m_ask (me_now env)) (\<lambda>now.
     record_sample env output repeat count 0 ''sequential_teardown_wall_ms'' (Millis (now - stop_started)))))))))))))"

fun join_creates :: "('e, 's) measure_env \<Rightarrow> bool \<Rightarrow> nat \<Rightarrow> nat \<Rightarrow> (string + nat \<times> nat \<times> ('e + 's)) list \<Rightarrow>
    ('e, 's, unit) measure" where
  "join_creates env output repeat count [] = m_return ()"
| "join_creates env output repeat count (Inl panic # joined) =
     m_result (Inl (Message ''session creation task panicked''))"
| "join_creates env output repeat count (Inr (index, latency, created) # joined) =
     m_then (take_session env output repeat count index ''concurrent_create'' latency created) (\<lambda>_.
     join_creates env output repeat count joined)"

fun connect_all :: "('e, 's) measure_env \<Rightarrow> bool \<Rightarrow> nat \<Rightarrow> nat \<Rightarrow> (nat \<times> 's) list \<Rightarrow> ('e, 's, unit) measure" where
  "connect_all env output repeat count [] = m_return ()"
| "connect_all env output repeat count ((index, session) # targets) =
     m_then (m_ask (\<lambda>t. me_connect env t session)) (\<lambda>connected.
       case connected of
         Inl e \<Rightarrow> m_then (record_failure env output repeat count index ''active_unix_connection'' (me_io_text env e)) (\<lambda>_.
           m_result (Inl (IoFailed e)))
       | Inr _ \<Rightarrow> m_then (m_modify (\<lambda>s. s\<lparr>mt_connections := mt_connections s + 1\<rparr>)) (\<lambda>_.
           connect_all env output repeat count targets))"

text \<open>Every session is connected to, the connections numbered through.\<close>

definition connection_targets :: "nat \<Rightarrow> 's list \<Rightarrow> (nat \<times> 's) list" where
  "connection_targets per_session sessions =
     concat (map (\<lambda>(i, session). map (\<lambda>j. (i * per_session + j, session)) [0..<per_session])
       (zip [0..<length sessions] sessions))"

definition concurrent_trial :: "nat \<Rightarrow> ('e, 's) measure_env \<Rightarrow> bool \<Rightarrow> nat \<Rightarrow> nat \<Rightarrow> nat \<Rightarrow> nat \<Rightarrow> ('e, 's, unit) measure" where
  "concurrent_trial fuel env output daemon_pid per_session repeat count = m_scope (
     m_then (read_rss_kib env daemon_pid) (\<lambda>rss_before.
     m_then (m_ask (me_now env)) (\<lambda>started.
     m_then (m_ask (\<lambda>t. me_joined env t count)) (\<lambda>joined.
     m_then (join_creates env output repeat count joined) (\<lambda>_.
     m_then (m_ask (me_now env)) (\<lambda>created.
     m_then (read_rss_kib env daemon_pid) (\<lambda>rss_with_sessions.
     m_then (record_samples env output repeat count [
       (0, ''concurrent_create_wall_ms'', Millis (created - started)),
       (0, ''concurrent_idle_rss_before_kib'', Kib rss_before),
       (0, ''concurrent_idle_rss_after_kib'', Kib rss_with_sessions),
       (0, ''concurrent_idle_session_rss_delta_per_session_kib'', KibPer (rss_with_sessions - rss_before) count)]) (\<lambda>_.
     m_then (m_get mt_sessions) (\<lambda>sessions.
     m_then (connect_all env output repeat count (connection_targets per_session sessions)) (\<lambda>_.
     m_then (read_rss_kib env daemon_pid) (\<lambda>rss_with_connections.
     m_then (m_get mt_connections) (\<lambda>n.
     m_then (record_samples env output repeat count [
       (n, ''active_idle_connections'', Amount n),
       (n, ''active_connection_rss_delta_kib'', Kib (rss_with_connections - rss_with_sessions)),
       (n, ''active_connection_rss_delta_per_connection_kib'', KibPer (rss_with_connections - rss_with_sessions) (max n 1))]) (\<lambda>_.
     m_then drop_connections (\<lambda>_.
     m_then (read_rss_kib env daemon_pid) (\<lambda>rss_after_connection_close.
     m_then (m_ask (me_now env)) (\<lambda>stop_started.
     m_then drop_sessions (\<lambda>_.
     m_then (wait_until_empty fuel env) (\<lambda>_.
     m_then (m_ask (me_now env)) (\<lambda>now.
     m_then (record_sample env output repeat count 0 ''concurrent_teardown_wall_ms'' (Millis (now - stop_started))) (\<lambda>_.
     m_then (read_rss_kib env daemon_pid) (\<lambda>rss.
     record_samples env output repeat count [
       (0, ''post_teardown_rss_delta_from_baseline_kib'', Kib (rss - rss_before)),
       (0, ''post_connection_close_rss_delta_kib'', Kib (rss_with_connections - rss_after_connection_close))])))))))))))))))))))))"

subsection \<open>The run\<close>

fun m_each :: "('x \<Rightarrow> ('e, 's, unit) measure) \<Rightarrow> 'x list \<Rightarrow> ('e, 's, unit) measure" where
  "m_each f [] = m_return ()"
| "m_each f (x # xs) = m_then (f x) (\<lambda>_. m_each f xs)"

record settings =
  st_daemon_pid :: nat
  st_repeats :: nat
  st_counts :: "nat list"
  st_connections_per_session :: nat
  st_output :: bool

definition measure_settings :: "('e, 's) measure_env \<Rightarrow> 'e measure_error + settings" where
  "measure_settings env =
     and_then (ok_or (Message ''set BAFFLE_CONTROL_SOCKET to the daemon control socket'') (me_var env ''BAFFLE_CONTROL_SOCKET'')) (\<lambda>_.
     and_then (ok_or (Message ''set BAFFLE_DAEMON_PID to the daemon process ID'') (me_var env ''BAFFLE_DAEMON_PID'')) (\<lambda>pid.
     and_then (ok_or (Message ''BAFFLE_DAEMON_PID must be an integer'') (parse_below (2 ^ 32) pid)) (\<lambda>daemon_pid.
     and_then (env_usize env ''BAFFLE_MEASURE_REPEATS'' 7) (\<lambda>repeats.
     and_then (env_counts env ''BAFFLE_MEASURE_COUNTS'' [1, 2, 4, 8]) (\<lambda>counts.
     and_then (env_usize env ''BAFFLE_MEASURE_SETTLE_MS'' 200) (\<lambda>settle_ms.
     and_then (env_usize env ''BAFFLE_MEASURE_CONNECTIONS_PER_SESSION'' 4) (\<lambda>connections_per_session.
     and_then (ensure (repeats \<noteq> 0) (Message ''BAFFLE_MEASURE_REPEATS must be greater than zero'')) (\<lambda>_.
     Inr \<lparr>st_daemon_pid = daemon_pid, st_repeats = repeats, st_counts = counts,
       st_connections_per_session = connections_per_session, st_output = (me_var env ''BAFFLE_BENCH_RAW'' \<noteq> None)\<rparr>))))))))"

definition warm_up :: "('e, 's) measure_env \<Rightarrow> nat \<Rightarrow> ('e, 's, unit) measure" where
  "warm_up env n = m_each (\<lambda>_. m_then (m_ask (me_create env)) (\<lambda>created.
     m_then (m_result (map_err ClientFailed created)) (\<lambda>_. m_return ()))) [0..<n]"

definition header_row :: string where
  "header_row = format_row [''kind'', ''repeat'', ''count'', ''index'', ''metric'', ''value'']"

definition measure_trials :: "nat \<Rightarrow> ('e, 's) measure_env \<Rightarrow> settings \<Rightarrow> ('e, 's, unit) measure" where
  "measure_trials fuel env settings =
     m_then (warm_up env (max (hd (st_counts settings)) 1)) (\<lambda>_.
     m_then (wait_until_empty fuel env) (\<lambda>_.
     m_each (\<lambda>(count, repeat).
       m_then (sequential_trial fuel env (st_output settings) (st_daemon_pid settings) repeat count) (\<lambda>_.
       concurrent_trial fuel env (st_output settings) (st_daemon_pid settings)
         (st_connections_per_session settings) repeat count))
       (List.product (st_counts settings) [0..<st_repeats settings])))"

definition measure_main :: "nat \<Rightarrow> ('e, 's) measure_env \<Rightarrow> ('e, 's, unit) measure" where
  "measure_main fuel env =
     m_then (m_result (measure_settings env)) (\<lambda>settings.
     m_then (m_ask (me_active env)) (\<lambda>active.
     m_then (m_result (map_err ClientFailed active)) (\<lambda>active.
     m_then (m_result (ensure (active = 0)
       (Message ''use a fresh daemon with no active sessions for this measurement''))) (\<lambda>_.
     m_then (if st_output settings
         then write_row env header_row False
         else m_return ()) (\<lambda>_.
     measure_trials fuel env settings)))))"

subsection \<open>What the file holds\<close>

text \<open>A row has six columns without separators in them, and ends with a newline.\<close>

definition clean :: "string \<Rightarrow> bool" where
  "clean s \<longleftrightarrow> CHR '','' \<notin> set s \<and> CHR 0x0A \<notin> set s"

definition csv_row :: "string \<Rightarrow> bool" where
  "csv_row row \<longleftrightarrow> (\<exists>columns. length columns = 6 \<and> list_all clean columns \<and> row = format_row columns)"

definition whole_rows :: "string \<Rightarrow> bool" where
  "whole_rows contents \<longleftrightarrow> (\<exists>rows. list_all csv_row rows \<and> contents = concat rows)"

text \<open>Where a write failed, the last row may be cut off.\<close>

definition cut_rows :: "string \<Rightarrow> bool" where
  "cut_rows contents \<longleftrightarrow> (\<exists>rows row. list_all csv_row rows \<and> csv_row row \<and> (\<exists>n. contents = concat rows @ take n row))"

text \<open>The text of a number has no separators.\<close>

definition format_law :: "('e, 's) measure_env \<Rightarrow> bool" where
  "format_law env \<longleftrightarrow> (\<forall>v. clean (me_format env v))"

lemma csv_rowI: "length columns = 6 \<Longrightarrow> list_all clean columns \<Longrightarrow> csv_row (format_row columns)"
  unfolding csv_row_def by blast

lemma clean_simps [simp]: "clean []" "clean (c # s) \<longleftrightarrow> c \<noteq> CHR '','' \<and> c \<noteq> CHR 0x0A \<and> clean s"
  "clean (s @ t) \<longleftrightarrow> clean s \<and> clean t"
  by (auto simp: clean_def)

lemma clean_number [simp]: "clean (nat_to_string n)"
  using nat_to_string_digits [of n]
  by (auto simp: clean_def list_all_iff is_ascii_digit_def byte_def)

text \<open>The error of a failure is made clean.\<close>

lemma clean_replaced [simp]: "clean (replace_char (CHR 0x0A) (CHR '' '') (replace_char CHR '','' CHR '';'' error))"
  by (induction error) (auto simp: replace_char_def)

text \<open>The columns of a row can be read back.\<close>

lemma split_format_row:
  "columns \<noteq> [] \<Longrightarrow> list_all clean columns \<Longrightarrow> split_on CHR '','' (butlast (format_row columns)) = columns"
proof -
  have "columns \<noteq> [] \<Longrightarrow> list_all clean columns \<Longrightarrow> split_on CHR '','' (join_with CHR '','' columns) = columns"
    by (induction "CHR '',''" columns rule: join_with.induct)
      (auto simp: clean_def split_on_id split_on_append_sep)
  then show "columns \<noteq> [] \<Longrightarrow> list_all clean columns \<Longrightarrow> split_on CHR '','' (butlast (format_row columns)) = columns"
    by (simp add: format_row_def NEWLINE_def)
qed

subsection \<open>Where rows go\<close>

definition safe :: "(string \<Rightarrow> bool) \<Rightarrow> (string \<Rightarrow> bool) \<Rightarrow> ('e, 's, 'a) measure \<Rightarrow> bool" where
  "safe good bad m \<longleftrightarrow>
     (\<forall>s e s'. good (mt_file s) \<longrightarrow> m s = (Inl e, s') \<longrightarrow> bad (mt_file s')) \<and>
     (\<forall>s x s'. good (mt_file s) \<longrightarrow> m s = (Inr x, s') \<longrightarrow> good (mt_file s'))"

text \<open>
  A place that rows are emitted to keeps a good state of the file, or leaves a bad one when it
  fails; then so does everything the program does with it.
\<close>

locale row_sink =
  fixes env :: "('e, 's) measure_env" and to_file :: bool and good bad :: "string \<Rightarrow> bool"
  assumes good_bad: "good contents \<Longrightarrow> bad contents"
    and emit: "csv_row row \<Longrightarrow> safe good bad (emit_row env to_file row)"
begin

lemma safe_simple [simp]: "safe good bad (m_return x)" "safe good bad (m_result r)" "safe good bad (m_ask f)"
  "safe good bad (m_get g)" "safe good bad drop_sessions" "safe good bad drop_connections" "safe good bad (hold_session x)"
  by (auto simp: safe_def m_return_def m_result_def m_ask_def m_get_def drop_sessions_def drop_connections_def
      hold_session_def m_modify_def good_bad split: sum.split)

lemma safe_modify: "(\<And>s. mt_file (f s) = mt_file s) \<Longrightarrow> safe good bad (m_modify f)"
  by (simp add: safe_def m_modify_def)

lemma safe_then:
  assumes m: "safe good bad m" and k: "\<And>x. safe good bad (k x)"
  shows "safe good bad (m_then m k)"
proof -
  have "case r of Inl _ \<Rightarrow> bad (mt_file s') | Inr _ \<Rightarrow> good (mt_file s')"
    if run: "m_then m k s = (r, s')" and s: "good (mt_file s)" for s r s'
  proof (cases "m s")
    case (Pair q t)
    show ?thesis
    proof (cases q)
      case (Inl e)
      then have "bad (mt_file t)" using m s Pair unfolding safe_def by blast
      then show ?thesis using run Pair Inl by (auto simp: m_then_def)
    next
      case (Inr x)
      then have "good (mt_file t)" "k x t = (r, s')"
        using m s Pair run unfolding safe_def by (blast, simp add: m_then_def)
      with k [of x] show ?thesis unfolding safe_def by (cases r) auto
    qed
  qed
  then show ?thesis unfolding safe_def by fastforce
qed

lemma safe_scope: "safe good bad m \<Longrightarrow> safe good bad (m_scope m)"
  unfolding safe_def m_scope_def by (auto split: prod.splits)

lemma safe_each: "(\<And>x. x \<in> set xs \<Longrightarrow> safe good bad (f x)) \<Longrightarrow> safe good bad (m_each f xs)"
  by (induction xs) (auto intro: safe_then)

lemma safe_sample: "format_law env \<Longrightarrow> clean metric \<Longrightarrow> safe good bad (record_sample env to_file repeat count index metric val)"
  unfolding record_sample_def by (intro emit csv_rowI) (auto simp: format_law_def)

lemma safe_failure: "clean metric \<Longrightarrow> safe good bad (record_failure env to_file repeat count index metric error)"
  unfolding record_failure_def Let_def by (intro emit csv_rowI) auto

lemma safe_samples: "format_law env \<Longrightarrow> list_all (\<lambda>(_, metric, _). clean metric) samples \<Longrightarrow>
    safe good bad (record_samples env to_file repeat count samples)"
  by (induction samples) (auto intro!: safe_then safe_sample)

lemma safe_rss: "safe good bad (read_rss_kib env pid)"
  unfolding read_rss_kib_def by (auto intro!: safe_then)

lemma safe_wait: "safe good bad (wait_until_empty fuel env)"
proof -
  have "safe good bad (wait_loop fuel env deadline)" for deadline
    by (induction fuel) (auto intro!: safe_then)
  then show ?thesis unfolding wait_until_empty_def by (auto intro!: safe_then)
qed

lemma safe_take:
  assumes "format_law env" "clean name"
  shows "safe good bad (take_session env to_file repeat count index name latency created)"
  unfolding take_session_def
  using assms by (auto intro!: safe_then safe_sample safe_failure split: sum.split)

lemma safe_create:
  assumes "format_law env"
  shows "safe good bad (create_sequentially env to_file repeat count indices)"
  by (induction indices) (auto intro!: safe_then safe_take assms)

lemma safe_join:
  assumes "format_law env"
  shows "safe good bad (join_creates env to_file repeat count joined)"
proof (induction joined)
  case (Cons result joined)
  then show ?case by (cases result) (auto intro!: safe_then safe_take assms)
qed simp

lemma safe_connect: "safe good bad (connect_all env to_file repeat count targets)"
  by (induction targets) (auto intro!: safe_then safe_failure safe_modify split: sum.split)

lemma safe_trials:
  assumes "format_law env"
  shows "safe good bad (sequential_trial fuel env to_file pid repeat count)"
    "safe good bad (concurrent_trial fuel env to_file pid n repeat count)"
  unfolding sequential_trial_def concurrent_trial_def
  by (intro safe_scope safe_then safe_rss safe_wait safe_simple safe_create safe_join safe_connect
      safe_sample safe_samples assms; simp)+

lemma safe_measure_trials:
  assumes "format_law env" "st_output settings = to_file"
  shows "safe good bad (measure_trials fuel env settings)"
  unfolding measure_trials_def warm_up_def assms(2)
  by (intro safe_then safe_wait safe_each) (auto intro!: safe_then safe_trials assms(1))

end

lemma whole_rows_append: "whole_rows contents \<Longrightarrow> csv_row row \<Longrightarrow> whole_rows (contents @ row) \<and> cut_rows (contents @ take n row)"
  unfolding whole_rows_def cut_rows_def
  by (elim exE conjE) (auto intro: exI [of _ "_ @ [row]"])

lemma csv_row_header: "csv_row header_row"
  unfolding header_row_def by (rule csv_rowI) auto

lemma whole_rows_cut: "whole_rows contents \<Longrightarrow> cut_rows contents"
  using whole_rows_append [OF _ csv_row_header, of contents 0] by simp

text \<open>Rows are written to the file, or to the console and then the file is left alone.\<close>

interpretation file_sink: row_sink env True whole_rows cut_rows for env :: "('e, 's) measure_env"
proof
  fix row
  assume "csv_row row"
  then show "safe whole_rows cut_rows (emit_row env True row)"
    by (auto simp: safe_def emit_row_def write_row_def m_then_def m_ask_def m_result_def m_modify_def
        whole_rows_append whole_rows_cut split: sum.split option.split prod.split)
qed (rule whole_rows_cut)

interpretation console_sink: row_sink env False "\<lambda>contents. contents = initial" "\<lambda>contents. contents = initial"
  for env :: "('e, 's) measure_env" and initial
  by unfold_locales (auto simp: safe_def emit_row_def m_modify_def)

subsection \<open>Theorems\<close>

text \<open>The counts of a run are positive, so that no value is divided by zero and the first count exists.\<close>

lemma env_counts_positive:
  assumes "env_counts env name dflt = Inr counts" "dflt \<noteq> []" "0 \<notin> set dflt"
  shows "counts \<noteq> [] \<and> 0 \<notin> set counts"
  using assms by (auto simp: env_counts_def result_simps split: option.splits if_splits)

lemma measure_settings_positive:
  assumes "measure_settings env = Inr settings"
  shows "st_counts settings \<noteq> [] \<and> 0 \<notin> set (st_counts settings) \<and> 0 < st_repeats settings"
proof -
  from assms have "env_counts env ''BAFFLE_MEASURE_COUNTS'' [1, 2, 4, 8] = Inr (st_counts settings)"
    "st_repeats settings \<noteq> 0"
    by (auto simp: measure_settings_def result_simps)
  then show ?thesis using env_counts_positive [of env _ "[1, 2, 4, 8]"] by auto
qed

text \<open>Waiting ends when the clock reaches the deadline within the fuel.\<close>

lemma wait_loop_returns:
  assumes "deadline \<le> me_now env (mt_tick s + 2 * k + 1)" "k < fuel"
  shows "fst (wait_loop fuel env deadline s) \<noteq> Inl OutOfFuel"
  using assms
proof (induction fuel arbitrary: s k)
  case (Suc fuel)
  let ?s = "s\<lparr>mt_tick := Suc (Suc (mt_tick s))\<rparr>"
  show ?case
  proof (cases "me_active env (mt_tick s)")
    case (Inr active)
    have "fst (wait_loop fuel env deadline ?s) \<noteq> Inl OutOfFuel" if "\<not> deadline \<le> me_now env (Suc (mt_tick s))"
    proof (rule Suc.IH [where k = "k - 1"])
      have "0 < k" using that Suc.prems(1) by (cases k) auto
      then show "k - 1 < fuel" "deadline \<le> me_now env (mt_tick ?s + 2 * (k - 1) + 1)"
        using Suc.prems by (auto simp: algebra_simps Suc_diff_Suc numeral_2_eq_2)
    qed
    with Inr show ?thesis by (auto simp: m_then_def m_ask_def m_result_def m_return_def)
  qed (simp add: m_then_def m_ask_def m_result_def)
qed simp

text \<open>Running the combinators.\<close>

lemma m_thenE:
  assumes "m_then m k s = (r, s')"
  obtains (error) e where "m s = (Inl e, s')" "r = Inl e" | (ok) x t where "m s = (Inr x, t)" "k x t = (r, s')"
  using assms by (auto simp: m_then_def split: prod.splits sum.splits)

lemma m_run [simp]:
  "m_then (m_result (Inl e)) k0 s = (Inl e, s)" "m_then (m_result (Inr x)) k1 s = k1 x s"
  "m_then (m_return y) k2 s = k2 y s" "m_then (m_ask f) k3 s = k3 (f (mt_tick s)) (s\<lparr>mt_tick := Suc (mt_tick s)\<rparr>)"
  "m_then (m_modify g) k4 s = k4 () (g s)"
  by (simp_all add: m_then_def m_result_def m_return_def m_ask_def m_modify_def)

lemma write_row_truncates:
  assumes "write_row env row False s = (r, s')"
  shows "(r = Inr () \<and> mt_file s' = row) \<or> (\<exists>e. r = Inl e \<and> (mt_file s' = mt_file s \<or> (\<exists>n. mt_file s' = take n row)))"
proof (cases "me_open env (mt_tick s)")
  case (Inl e)
  with assms show ?thesis by (auto simp: write_row_def)
next
  case (Inr u)
  show ?thesis
  proof (cases "me_write env (Suc (mt_tick s))")
    case None
    with assms Inr show ?thesis by (auto simp: write_row_def m_modify_def)
  next
    case (Some ne)
    obtain n e where "ne = (n, e)" by fastforce
    with assms Inr Some have "r = Inl (IoFailed e)" "mt_file s' = take n row" by (auto simp: write_row_def m_result_def)
    then show ?thesis by blast
  qed
qed

text \<open>The run up to its header.\<close>

lemma measure_main_cases:
  assumes "measure_main fuel env s = (r, s')"
  obtains (untouched) "mt_file s' = mt_file s"
  | (console) settings t where "\<not> st_output settings" "measure_trials fuel env settings t = (r, s')" "mt_file t = mt_file s"
  | (cut) n e where "mt_file s' = take n header_row" "r = Inl e"
  | (written) settings t where "st_output settings" "measure_trials fuel env settings t = (r, s')" "mt_file t = header_row"
proof (cases "measure_settings env")
  case (Inl e)
  with assms untouched show thesis by (auto simp: measure_main_def)
next
  case settings: (Inr settings)
  show thesis
  proof (cases "me_active env (mt_tick s) = Inr 0")
    case False
    with assms settings untouched show thesis
      by (cases "me_active env (mt_tick s)") (auto simp: measure_main_def ensure_def)
  next
    case True
    let ?t = "s\<lparr>mt_tick := Suc (mt_tick s)\<rparr>"
    show thesis
    proof (cases "st_output settings")
      case False
      with assms settings True console [of settings ?t] show thesis by (auto simp: measure_main_def ensure_def)
    next
      case out: True
      with assms settings True have "m_then (write_row env header_row False) (\<lambda>_. measure_trials fuel env settings) ?t = (r, s')"
        by (simp add: measure_main_def ensure_def)
      then show thesis
      proof (cases rule: m_thenE)
        case (error e)
        with write_row_truncates [OF error(1)] untouched cut show thesis by auto
      next
        case (ok x t)
        with write_row_truncates [OF ok(1)] written out show thesis by auto
      qed
    qed
  qed
qed

lemma safeD:
  "safe good bad m \<Longrightarrow> good (mt_file s) \<Longrightarrow> m s = (r, s') \<Longrightarrow>
     (r = Inr () \<longrightarrow> good (mt_file s')) \<and> (good (mt_file s') \<or> bad (mt_file s'))"
  unfolding safe_def by (cases r) blast+

text \<open>
  The measurements can be read back: a run leaves the file alone, or the file it names holds
  whole rows of six columns, of which only the last one can be cut off, and only when the run
  reports an error; the text of no error can break a row.
\<close>

theorem measure_rows:
  assumes "format_law env" "measure_main fuel env s = (r, s')"
  shows "mt_file s' = mt_file s \<or> cut_rows (mt_file s') \<and> (r = Inr () \<longrightarrow> whole_rows (mt_file s'))"
proof -
  have empty: "whole_rows []" unfolding whole_rows_def by (rule exI [of _ "[]"]) simp
  note header = whole_rows_append [OF empty csv_row_header]
  from assms(2) show ?thesis
  proof (cases rule: measure_main_cases)
    case (console settings t)
    with safeD [OF console_sink.safe_measure_trials [OF assms(1)]] show ?thesis by metis
  next
    case (cut n e)
    with header [of n] show ?thesis by simp
  next
    case (written settings t)
    have "whole_rows (mt_file t)" using header written(3) by simp
    with written safeD [OF file_sink.safe_measure_trials [OF assms(1)]] whole_rows_cut show ?thesis by metis
  qed simp
qed

end
