(* ===== verification/Runtime_Benchmark.thy ===== *)
theory Runtime_Benchmark
  imports Measure_Sessions
begin

text \<open>
  The parameters and the output of the runtime benchmark: \<open>bench/runtime.rs\<close>, and the choice of
  socket options of benchmark builds in \<open>src/proxy_runtime.rs\<close>. Environment variables are
  arguments. The benchmark itself drives TLS and HTTP libraries and is not modelled.
\<close>

definition CHARACTERIZATION_CONCURRENCY :: "nat list" where
  "CHARACTERIZATION_CONCURRENCY = [1, 4, 16]"

definition MAX_CHARACTERIZATION_BODY_BYTES :: nat where
  "MAX_CHARACTERIZATION_BODY_BYTES = 4 * 1024 * 1024"

definition benchmark_concurrency_levels :: "string option \<Rightarrow> string + nat list" where
  "benchmark_concurrency_levels variable =
     (case variable of
        None \<Rightarrow> Inr CHARACTERIZATION_CONCURRENCY
      | Some value \<Rightarrow>
          and_then (traverse (\<lambda>v. ok_or ''invalid digit found in string'' (parse_below USIZE v)) (split_on CHR '','' value)) (\<lambda>levels.
          if levels = [] \<or> list_ex (\<lambda>level. level \<notin> set CHARACTERIZATION_CONCURRENCY) levels
             \<or> list_ex (\<lambda>index. levels ! index \<in> set (take index levels)) [0..<length levels]
          then Inl ''benchmark concurrency must use 1, 4, and/or 16''
          else Inr levels))"

definition benchmark_body_bytes :: "string \<Rightarrow> string option \<Rightarrow> nat \<Rightarrow> string + nat" where
  "benchmark_body_bytes name variable dflt =
     (case variable of
        None \<Rightarrow> Inr dflt
      | Some value \<Rightarrow>
          and_then (ok_or ''invalid digit found in string'' (parse_below USIZE value)) (\<lambda>n.
          if n = 0 \<or> n > MAX_CHARACTERIZATION_BODY_BYTES
          then Inl (name @ '' must be between 1 and '' @ nat_to_string MAX_CHARACTERIZATION_BODY_BYTES @ '' bytes'')
          else Inr n))"

definition benchmark_tcp_nodelay_mode :: "string option \<Rightarrow> string" where
  "benchmark_tcp_nodelay_mode variable = (case variable of None \<Rightarrow> ''production'' | Some mode \<Rightarrow> mode)"

definition benchmark_tcp_nodelay_enabled :: "string option \<Rightarrow> string \<Rightarrow> bool" where
  "benchmark_tcp_nodelay_enabled variable socket_leg =
     (let mode = benchmark_tcp_nodelay_mode variable in mode = socket_leg \<or> mode = ''all'')"

definition benchmark_rss_kib :: "io_error + string \<Rightarrow> string + nat" where
  "benchmark_rss_kib status =
     and_then (map_err (\<lambda>_. ''io error'') status) (\<lambda>status.
     and_then (ok_or ''VmRSS is unavailable'' (List.find (prefix ''VmRSS:'') (text_lines status))) (\<lambda>rss.
     let words = white_words [] rss in
     and_then (ok_or ''VmRSS has no value'' (if 1 < length words then Some (words ! 1) else None)) (\<lambda>value.
     ok_or ''invalid digit found in string'' (parse_below (2 ^ 64) value))))"

text \<open>User and system time, each in seconds and microseconds.\<close>

definition cpu_time_us :: "(u64 \<times> u64) \<times> (u64 \<times> u64) \<Rightarrow> u64" where
  "cpu_time_us usage =
     (let ((user_sec, user_usec), (system_sec, system_usec)) = usage;
          user = user_sec * 1000000 + user_usec;
          system = system_sec * 1000000 + system_usec
      in user + system)"

text \<open>\<open>BenchOutput::row\<close>: unlike the rows of the session measurements, the value is written as it is.\<close>

definition bench_row :: "string \<Rightarrow> nat \<Rightarrow> nat \<Rightarrow> string \<Rightarrow> string \<Rightarrow> string" where
  "bench_row kind trial index metric val =
     format_row [kind, nat_to_string trial, nat_to_string index, metric, val]"

subsection \<open>Properties\<close>

text \<open>Whatever is configured, the levels are some of the three, each at most once.\<close>

lemma distinct_by_index: "distinct xs \<longleftrightarrow> (\<forall>i < length xs. xs ! i \<notin> set (take i xs))"
proof (induction xs rule: rev_induct)
  case (snoc x xs)
  have "(\<forall>i < length (xs @ [x]). (xs @ [x]) ! i \<notin> set (take i (xs @ [x]))) \<longleftrightarrow>
      (\<forall>i < length xs. xs ! i \<notin> set (take i xs)) \<and> x \<notin> set xs"
    by (auto simp: less_Suc_eq nth_append)
  with snoc show ?case by auto
qed simp

lemma benchmark_concurrency_levels_Inr:
  assumes "benchmark_concurrency_levels variable = Inr levels"
  shows "levels \<noteq> [] \<and> distinct levels \<and> set levels \<subseteq> {1, 4, 16}"
proof (cases variable)
  case None
  with assms show ?thesis by (auto simp: benchmark_concurrency_levels_def CHARACTERIZATION_CONCURRENCY_def)
next
  case (Some v)
  with assms have "levels \<noteq> []" "\<forall>level \<in> set levels. level \<in> set CHARACTERIZATION_CONCURRENCY"
    "\<forall>i < length levels. levels ! i \<notin> set (take i levels)"
    by (auto simp: benchmark_concurrency_levels_def result_simps list_ex_iff split: if_splits)
  then show ?thesis by (auto simp: distinct_by_index CHARACTERIZATION_CONCURRENCY_def)
qed

lemma benchmark_body_bytes_Inr:
  "benchmark_body_bytes name (Some v) dflt = Inr n \<Longrightarrow> 1 \<le> n \<and> n \<le> MAX_CHARACTERIZATION_BODY_BYTES"
  by (auto simp: benchmark_body_bytes_def result_simps split: if_splits)

text \<open>A row has five columns if the value has no separator; an error message with one breaks it.\<close>

lemma bench_row_columns:
  "clean kind \<Longrightarrow> clean metric \<Longrightarrow> clean val \<Longrightarrow>
     split_on CHR '','' (butlast (bench_row kind trial index metric val)) =
       [kind, nat_to_string trial, nat_to_string index, metric, val]"
  unfolding bench_row_def by (rule split_format_row) auto

lemma bench_row_broken:
  "length (split_on CHR '','' (butlast (bench_row ''failure'' 0 0 ''http1'' ''connection reset, retry''))) = 6"
proof -
  have "bench_row ''failure'' 0 0 ''http1'' ''connection reset, retry'' =
      format_row [''failure'', ''0'', ''0'', ''http1'', ''connection reset'', '' retry'']"
    by code_simp
  then show ?thesis by (simp add: split_format_row)
qed

end
