(* ===== verification/Spec2Isabelle.thy ===== *)
theory Spec2Isabelle
  imports Session_Enforcement Runtime_Ingress Ca_Initialize Ca_Export Command_Line
    Credential_Seed Runtime_Benchmark
begin

text \<open>
  Baffle is a daemon that gives sandboxed programs filtered network access. An operator creates
  sessions over a control socket, from a policy in the request or from files of a trusted
  directory; every session is a proxy on its own Unix socket. A program in a sandbox connects to
  that socket and asks with CONNECT for a host. The policy of the session decides whether the host
  is refused, tunnelled opaquely, or intercepted: then TLS is ended with a certificate of the
  daemon's authority, every decrypted request is checked against the path patterns of its rule,
  and credentials the program never sees are injected or substituted for a fake. This development
  models the program as functions and step relations, in the order the code has them, and proves
  what makes each part correct.

  \<^bold>\<open>The program's parts and their theories.\<close> Paths are below \<open>src/\<close>; a definition has the name
  of the Rust function it models, or a suffixed one where the name is taken.

  \<^item> \<open>Prelude\<close>: results as sums (\<open>and_then\<close>, \<open>map_err\<close>, \<open>ensure\<close>), the string and integer
    functions of the standard library that the sources use, and the locale
    \<open>invariant_system\<close> of the step relations. \<open>Std_Net\<close> and \<open>Std_Path\<close> model the parser of IP
    addresses and the components of paths in the standard library.
  \<^item> \<open>Path_Canon\<close>, \<open>Dns_Name\<close>, \<open>Session_Validation\<close> (\<open>crates/baffle-client/src/policy.rs\<close>):
    canonical URL paths, path patterns, host names, and the validation of a session document.
    \<open>Client_Types\<close>, \<open>Client_Wire\<close>, \<open>Client_Api\<close> (\<open>crates/baffle-client/src/lib.rs\<close>): the data model
    and its builders, the request as it is sent, and the operations of the client.
  \<^item> \<open>Request_Policy\<close> (\<open>src/policy.rs\<close>, \<open>src/credentials.rs\<close>): a session configuration is compiled
    into a policy, which decides about CONNECT requests, TLS server names and decrypted requests.
    \<open>Header_Credentials\<close> (\<open>src/proxy_runtime/rama/http.rs\<close>): the layer that authorizes and rewrites
    decrypted requests. \<open>Test_Trust\<close> (\<open>test_trust.rs\<close>) and \<open>Tls_Egress\<close> (\<open>tls.rs\<close>): the trust anchor
    of test builds, and the TLS configuration of an upstream connection as the sequence of the
    settings the program makes. \<open>Connect_Proxy\<close> (\<open>connect.rs\<close>, \<open>intercept_client\<close> of \<open>tls.rs\<close>): the
    CONNECT parser, tunnels, interception and the handler of one client. \<open>Runtime_Ingress\<close>
    (\<open>ingress.rs\<close>, \<open>rama.rs\<close>): the accept loop with its permits, generations, retirement and
    shutdown as the relation \<open>ingress_step\<close>. \<open>Credential_Seed\<close> (\<open>credentials.rs\<close>): random seeds and
    identifiers.
  \<^item> \<open>Secret_Store\<close> (\<open>src/secrets.rs\<close>), \<open>Control_Config\<close> (\<open>src/config/\<close>) and \<open>Import_Compose\<close>
    (\<open>src/control/file_config.rs\<close>): secrets, the daemon's configuration, control requests, and
    session files with their imports. \<open>Config_Store\<close> (same file): opening their directory, over
    the kernel of \<open>Unix_Fs\<close>.
  \<^item> \<open>Session_Manager\<close> (\<open>src/control/session.rs\<close>), \<open>Session_Reload\<close> (\<open>src/control/reload.rs\<close>),
    \<open>Session_Steps\<close>, \<open>Session_Enforcement\<close> and \<open>Telemetry\<close> (\<open>src/telemetry.rs\<close>): the registry of
    sessions. Each critical section under the registry lock is one function; \<open>mstep\<close> interleaves
    them under the locks of the sessions.
  \<^item> \<open>Control_Frames\<close>, \<open>Control_Server\<close> (\<open>src/control/server.rs\<close>): frames, and the handler of one
    control connection. \<open>Server_Startup\<close> (same file): private directories, the startup lock,
    stale sockets, the control socket and its guard, the selection loop and the shutdown.
  \<^item> \<open>Unix_Fs\<close>: a file system with system calls that can fail at any tick and other processes that
    act before any call, with a logic of triples and of logged events. \<open>Socket_Directories\<close>
    (\<open>ingress.rs\<close>, \<open>src/platform.rs\<close>): session sockets, directory leases, removal by identity.
    \<open>Ca_Files\<close>, \<open>Ca_Initialize\<close> and \<open>Ca_Export\<close> (\<open>src/ca.rs\<close>): the certificate authority, its
    initialisation with rollback, and the export, which writes only the certificate.
  \<^item> \<open>Command_Line\<close> (\<open>src/daemon.rs\<close>, \<open>src/cli.rs\<close>, \<open>src/main.rs\<close>): the daemon from its configuration
    to its shutdown, and the commands.
  \<^item> \<open>Measure_Sessions\<close> and \<open>Runtime_Benchmark\<close> (\<open>bench/\<close>): the program that measures sessions, and the
    parameters and rows of the runtime benchmark.

  \<^bold>\<open>How the parts interact.\<close> \<open>handle_connection\<close> reads a frame, parses a request, resolves
  secrets, and calls the session manager; sections of other tasks that run while it waits are the
  parameter \<open>others\<close>, whose instances \<open>Session_Steps\<close> justifies. A session's runtime holds the
  compiled policy and the secrets of its generation; \<open>handle_client\<close> takes them, and hands them
  to the relay as a \<open>policy_layer\<close>, which answers requests with \<open>serve\<close>. \<open>client_sees_daemon\<close>
  joins the client with the handler; \<open>daemon_run\<close> joins the configuration, the authority, the
  startup, the loop and the shutdown; this theory joins the manager with the proxy.

  \<^bold>\<open>What the lemmas show.\<close> Policies: what is forwarded, dialled or tunnelled is what the rules
  allow, exactly; canonical paths are normal forms whose further decoding cannot change their
  segments; injected and substituted headers, and no others, change; an intercepted request
  goes only to a server that is verified as the host of its rule. Sessions: capacity, gauges,
  locks and listeners are consistent in every interleaving; reloads switch completely or not at
  all; a running session enforces the configuration it reports. Control: only the operator is
  served, frames are read as sent however they are chunked, an ephemeral session ends with its
  connection. Files: secrets and session files are read only from entitled, trusted places;
  imports are bounded; only sockets and directories that the program made, or stale sockets of
  the operator, are removed, whatever fails and whoever interferes; the authority's files are
  made completely or not at all.

  \<^bold>\<open>Interfaces.\<close> \<open>ordered_map\<close> is what the code relies on of \<open>BTreeMap\<close>, \<open>path_canonicalizer\<close>
  what the policy relies on of the canonicalisation, \<open>frame_channel\<close> the framing of either
  direction, \<open>invariant_system\<close> the step relations of the session manager (twice), the socket
  directories and the accept loop, \<open>row_sink\<close> where measurements are written (twice). Each is interpreted on the definitions of the program.

  \<^bold>\<open>Bounds and fuel.\<close> Path resolution follows at most \<open>SYMLOOP_MAX\<close> links, as the kernel does. The
  scan for stale sockets takes fuel, and the depth of the tree is proved to be enough when nothing
  is added to it. The composition of imports terminates because files are loaded once and at most
  128 are; waiting for measured sessions takes fuel, and enough is what lets the clock reach the
  deadline; the names for a temporary file are tried as often as the code tries them. All other
  recursion is structural or has a measure. Machine integers keep their width; counters wrap or
  saturate as in the code.

  \<^bold>\<open>Parameters.\<close> Libraries are arguments: the TOML and JSON codecs, the host parser of the
  \<open>url\<close> crate (\<open>host_parse_law\<close>), header maps (\<open>http_lib_laws\<close>), HMAC,
  Base64, certificates and keys (\<open>ca_lib\<close>), what a TLS configuration accepts (\<open>tls_lib\<close>), the TLS
  handshake and relay, and the connection to an upstream server.

  \<^bold>\<open>Not modelled.\<close> The TLS and HTTP protocols of \<open>rama\<close> and \<open>boring\<close> behind the calls of \<open>tls.rs\<close>,
  tracing output, argument parsing by \<open>clap\<close>, the forwarding of single reads and writes by the
  stream wrappers, the Windows and macOS variants of single functions (the probe of a socket by
  its path on macOS is modelled), the socket options of benchmark builds, and the live part
  of the runtime benchmark, examples and tests: they drive a running daemon or call into libraries, and hold no decision of
  the program.
\<close>

section \<open>Properties that span components\<close>

text \<open>
  C4. A running session enforces the configuration it reports. In every reachable state of the
  session manager, whatever reloads and stops have happened, a decrypted request that the current
  policy of a session forwards goes to a host and a port of a rule of the session's current
  configuration, on a path that this rule allows; and every header for which the rule injects a
  credential carries exactly the secret that the session holds for it, in the format of the rule.
\<close>

theorem running_session_enforces_configuration:
  assumes "reachable max_sessions g" and "rg_sessions (mg_registry g) sid = Some s" and "ms_runtime s = Some rt"
    and "wf_session (ms_configuration s)" and "http_lib_laws lib"
    and "serve lib hp (pg_policy (rt_current rt)) a (map_of (pg_secrets (rt_current rt))) request = Forward r'"
  shows "\<exists>d rule. parse_authority_text hp a (Some 443) = Inr d \<and> rule \<in> set (sc_rules (ms_configuration s)) \<and>
    hr_host rule = d_host d \<and> d_port d \<in> set (hr_ports rule) \<and>
    (hr_paths rule \<noteq> [] \<longrightarrow> (\<exists>p. rq_path r' = Some p \<and> canonicalize_path p = Inr p \<and>
      (\<exists>pattern \<in> set (hr_paths rule). matches_path_pattern pattern p))) \<and>
    (\<forall>i \<in> set (hr_inject rule). effective_credential_mode (ms_configuration s) (hi_secret i) = Inject \<longrightarrow>
      (\<exists>secret text v. map_of (ms_secrets s) (hi_secret i) = Some secret \<and>
        format_injected_secret lib i secret = Inr text \<and> header_value lib text = Some v \<and>
        get_all lib (rq_headers r') (header_key i) = [v]))"
proof -
  obtain hmac b64url where current: "rt_current rt =
      \<lparr>pg_policy = session_policy_compile hmac b64url (ms_configuration s) (rt_seed rt), pg_secrets = ms_secrets s\<rparr>"
    using reachable_enforces [OF assms(1,2)] assms(3) by (auto simp: enforces_def)
  let ?compile = "compile_credential hmac b64url (ms_configuration s) (rt_seed rt)"
  from assms(6) have run: "serve lib hp (session_policy_compile hmac b64url (ms_configuration s) (rt_seed rt)) a
      (map_of (ms_secrets s)) request = Forward r'" by (simp add: current)
  show ?thesis
  proof (rule forwarded_rule [OF assms(4) run])
    fix d rule
    assume *: "parse_authority_text hp a (Some 443) = Inr d" "rule \<in> set (sc_rules (ms_configuration s))"
      "hr_host rule = d_host d" "d_port d \<in> set (hr_ports rule)"
      "if hr_paths rule = [] then rq_path r' = rq_path request
       else \<exists>p. rq_path r' = Some p \<and> canonicalize_path p = Inr p \<and>
         (\<exists>pattern \<in> set (hr_paths rule). matches_path_pattern pattern p)"
      and creds: "apply_header_credentials lib (rq_headers request) (map ?compile (hr_inject rule)) (map_of (ms_secrets s)) =
        Inr (rq_headers r')" "distinct (map cred_key (map ?compile (hr_inject rule)))"
    have fields: "cc_injection (?compile i) = i" "cc_mode (?compile i) = effective_credential_mode (ms_configuration s) (hi_secret i)" for i
      by (simp_all add: compile_credential_def Let_def)
    have "\<exists>secret text v. map_of (ms_secrets s) (hi_secret i) = Some secret \<and>
        format_injected_secret lib i secret = Inr text \<and> header_value lib text = Some v \<and>
        get_all lib (rq_headers r') (header_key i) = [v]"
      if "i \<in> set (hr_inject rule)" "effective_credential_mode (ms_configuration s) (hi_secret i) = Inject" for i
      using injected_header [OF assms(5) creds, of "?compile i"] that by (simp add: fields)
    with * show ?thesis by (intro exI [of _ d] exI [of _ rule]) auto
  qed
qed

theorem running_session_enforces_configuration_witness:
  "\<exists>r'. serve example_lib plain_hosts (pg_policy (rt_current (example_runtime 1))) ''web.com''
       (map_of (pg_secrets (rt_current (example_runtime 1)))) example_request = Forward r' \<and>
     (\<exists>rule \<in> set (sc_rules example_session). hr_host rule = ''web.com'' \<and>
       (\<forall>i \<in> set (hr_inject rule). effective_credential_mode example_session (hi_secret i) = Inject \<longrightarrow>
         map_of [(''api.token'', ''s3cret'')] (hi_secret i) \<noteq> None))"
proof -
  let ?rt = "example_runtime 1" and ?s = "example_managed ''a''"
  obtain r' where r': "serve example_lib plain_hosts (pg_policy (rt_current ?rt)) ''web.com''
      (map_of (pg_secrets (rt_current ?rt))) example_request = Forward r'"
    using example_forwards [of "map_of [(''api.token'', ''s3cret'')]"]
    by (fastforce simp: example_runtime_def runtime_start_def)
  have fields: "ms_configuration ?s = example_session" "ms_secrets ?s = [(''api.token'', ''s3cret'')]" "ms_runtime ?s = Some ?rt"
    by (simp_all add: example_managed_def committed_def)
  have "rg_sessions (mg_registry example_serving) ''a'' = Some ?s"
    by (simp add: example_serving_def registry_new_def)
  from running_session_enforces_configuration [OF example_serving_reachable this fields(3) _ example_lib_laws r']
  obtain d rule where d: "parse_authority_text plain_hosts ''web.com'' (Some 443) = Inr d"
    and rule: "rule \<in> set (sc_rules example_session)" "hr_host rule = d_host d"
    and secrets: "\<forall>i \<in> set (hr_inject rule). effective_credential_mode example_session (hi_secret i) = Inject \<longrightarrow>
      (\<exists>secret. map_of [(''api.token'', ''s3cret'')] (hi_secret i) = Some secret)"
    unfolding fields using example_wf by meson
  have "hr_host rule = ''web.com''" using d rule(2) example_authorities(2) by auto
  with r' rule(1) secrets show ?thesis by (intro exI [of _ r'] conjI bexI [of _ rule]) auto
qed

end
